(* ===== verification/Go_Base.thy ===== *)
theory Go_Base
  imports Main "HOL-Library.Code_Target_Nat"
begin

text \<open>
  Prelude of the development: Go values every component shares.  Errors are the values of
  \<open>go_error\<close>, one constructor per kind of error the code distinguishes; a Go result pair
  \<open>(T, error)\<close> is \<open>go_error + 'a\<close>; an operation with effects takes the world and returns
  its result with the new world; \<open>log/slog\<close> is a list of entries in that world.
\<close>

named_theorems go_defs \<open>definitions unfolded when a routine is evaluated\<close>
named_theorems status_simps \<open>the string constants of the program and their distinctness\<close>

section \<open>Errors\<close>

text \<open>
  \<open>ErrNew\<close> is \<open>errors.New\<close>, \<open>ErrWrap\<close> is \<open>fmt.Errorf("msg: %w", err)\<close>, \<open>ErrNoRows\<close> is
  \<open>sql.ErrNoRows\<close>, \<open>ErrMaxBytes\<close> is \<open>*http.MaxBytesError\<close> and \<open>ErrJob\<close> is the
  \<open>*JobError\<close> of cmd/worker/job_error.go, whose struct is \<open>job_error\<close> (over the type of its cause).
\<close>

datatype 'e job_error =
  JobError (Msg: string) (Retryable: bool) (HTTPStatus: int) (Cause: "'e option")

datatype go_error =
    ErrNew string
  | ErrWrap string go_error
  | ErrNoRows
  | ErrMaxBytes
  | ErrJob "go_error job_error"

text \<open>The \<open>Error()\<close> methods; \<open>JobError_Error\<close> is the one of job_error.go.\<close>

fun Error_string :: "go_error \<Rightarrow> string" where
  "Error_string (ErrNew s) = s"
| "Error_string (ErrWrap p e) = p @ '': '' @ Error_string e"
| "Error_string ErrNoRows = ''sql: no rows in result set''"
| "Error_string ErrMaxBytes = ''http: request body too large''"
| "Error_string (ErrJob (JobError m r h (Some c))) = m @ '': '' @ Error_string c"
| "Error_string (ErrJob (JobError m r h None)) = m"

definition JobError_Error :: "go_error job_error \<Rightarrow> string" where
  "JobError_Error e =
     (case Cause e of Some c \<Rightarrow> Msg e @ '': '' @ Error_string c | None \<Rightarrow> Msg e)"

lemma Error_string_job: "Error_string (ErrJob j) = JobError_Error j"
  by (cases j; cases "Cause j") (auto simp: JobError_Error_def)

text \<open>
  \<open>errors.Is\<close> and \<open>errors.As\<close> follow \<open>Unwrap\<close>, which only the errors of \<open>fmt.Errorf\<close> have:
  \<open>*JobError\<close> declares no \<open>Unwrap\<close> method, so its cause is not searched.
\<close>

fun errors_Is_NoRows :: "go_error \<Rightarrow> bool" where
  "errors_Is_NoRows ErrNoRows = True"
| "errors_Is_NoRows (ErrWrap p e) = errors_Is_NoRows e"
| "errors_Is_NoRows _ = False"

fun errors_As_MaxBytes :: "go_error \<Rightarrow> bool" where
  "errors_As_MaxBytes ErrMaxBytes = True"
| "errors_As_MaxBytes (ErrWrap p e) = errors_As_MaxBytes e"
| "errors_As_MaxBytes _ = False"

fun errors_AsType_JobError :: "go_error \<Rightarrow> go_error job_error option" where
  "errors_AsType_JobError (ErrJob j) = Some j"
| "errors_AsType_JobError (ErrWrap p e) = errors_AsType_JobError e"
| "errors_AsType_JobError _ = None"

section \<open>Results and effects\<close>

type_synonym 'a result = "go_error + 'a"
type_synonym ('w, 'a) io = "'w \<Rightarrow> 'a result \<times> 'w"

section \<open>Structured logging\<close>

text \<open>
  \<open>slog\<close> levels are integers (\<open>LevelInfo\<close> 0, \<open>LevelError\<close> 8); a logger drops what is
  below its level.  A logger made by \<open>With\<close> puts its attributes before those of the call.
\<close>

datatype log_value = LStr string | LInt int | LBool bool | LStrs "string list"

record log_entry =
  log_level :: int
  log_msg :: string
  log_attrs :: "(string \<times> log_value) list"

record logger =
  min_level :: int
  with_attrs :: "(string \<times> log_value) list"

record proc =
  proc_logs :: "log_entry list"

definition LevelInfo :: int where "LevelInfo = 0"
definition LevelError :: int where "LevelError = 8"

definition NewJSONLogger :: "int option \<Rightarrow> logger" where
  "NewJSONLogger opts =
     \<lparr>min_level = (case opts of None \<Rightarrow> LevelInfo | Some l \<Rightarrow> l), with_attrs = []\<rparr>"

definition logger_With :: "logger \<Rightarrow> string \<Rightarrow> log_value \<Rightarrow> logger" where
  "logger_With l k v = l\<lparr>with_attrs := with_attrs l @ [(k, v)]\<rparr>"

definition log_at ::
  "int \<Rightarrow> logger \<Rightarrow> string \<Rightarrow> (string \<times> log_value) list \<Rightarrow> 'a proc_scheme \<Rightarrow> 'a proc_scheme" where
  "log_at lvl l m as w =
     (if min_level l \<le> lvl
      then w\<lparr>proc_logs := proc_logs w @
              [\<lparr>log_level = lvl, log_msg = m, log_attrs = with_attrs l @ as\<rparr>]\<rparr>
      else w)"

abbreviation log_Info where "log_Info \<equiv> log_at LevelInfo"
abbreviation log_Error where "log_Error \<equiv> log_at LevelError"

text \<open>The default logger of the three binaries emits every entry the code writes.\<close>

lemma NewJSONLogger_default [simp]:
  "min_level (NewJSONLogger None) = 0" "with_attrs (NewJSONLogger None) = []"
  by (simp_all add: NewJSONLogger_def LevelInfo_def)

lemma logger_With_sel [simp]:
  "min_level (logger_With l k v) = min_level l"
  "with_attrs (logger_With l k v) = with_attrs l @ [(k, v)]"
  by (simp_all add: logger_With_def)

section \<open>Lists and maps\<close>

lemma map_le_fun_updI: "m k = None \<Longrightarrow> m \<subseteq>\<^sub>m m(k \<mapsto> v)"
  by (auto simp: map_le_def)

lemma map_single_eq_iff [simp]: "[k \<mapsto> x] = [k \<mapsto> y] \<longleftrightarrow> x = y"
  by (auto dest: map_upd_eqD1)

lemma distinct_map_snocI:
  "distinct (map f xs) \<Longrightarrow> f x \<notin> f ` set xs \<Longrightarrow> distinct (map f (xs @ [x]))"
  by simp

lemma filter_eq_singleton_iff_distinct:
  "distinct (map f xs) \<Longrightarrow> x \<in> set xs \<Longrightarrow> filter (\<lambda>y. f y = f x) xs = [x]"
  by (induction xs) (auto simp: filter_empty_conv image_iff)

end
