(* ===== verification/Database.thy ===== *)
theory Database
  imports Go_Base
begin

text \<open>
  The Postgres schema of migrations/ and the SQL statements of internal/store/postgres.go, one
  definition per statement, on a database state.  A statement returns its result (or the error
  of a violated constraint) and the new state.  The rows of \<open>processed_events\<close> and
  \<open>consumer_completions\<close> are maps on their primary keys, \<open>outbox_events\<close> is the list of its
  rows, \<open>outbox_seq\<close> the next value of its \<open>BIGSERIAL\<close>, \<open>db_now\<close> the server's clock.
  \<open>jsonb_cast\<close> is the server's \<open>::jsonb\<close> conversion (Postgres code, a parameter): the text a
  later read returns, or \<open>None\<close> when the text is not JSON.
\<close>

section \<open>Status constants and CHECK constraints\<close>

definition StatusProcessing :: string where [status_simps]: "StatusProcessing = ''processing''"
definition StatusAccepted :: string where [status_simps]: "StatusAccepted = ''accepted''"
definition StatusProcessed :: string where [status_simps]: "StatusProcessed = ''processed''"
definition StatusFailed :: string where [status_simps]: "StatusFailed = ''failed''"

definition OutboxPending :: string where [status_simps]: "OutboxPending = ''pending''"
definition OutboxPublished :: string where [status_simps]: "OutboxPublished = ''published''"
definition OutboxFailed :: string where [status_simps]: "OutboxFailed = ''failed''"

definition CompletionProcessing :: string where
  [status_simps]: "CompletionProcessing = ''processing''"
definition CompletionProcessed :: string where
  [status_simps]: "CompletionProcessed = ''processed''"
definition CompletionFailed :: string where
  [status_simps]: "CompletionFailed = ''failed''"

lemma status_distinct [simp]:
  "StatusAccepted \<noteq> StatusProcessed" "StatusProcessed \<noteq> StatusAccepted"
  "StatusAccepted \<noteq> StatusProcessing" "StatusProcessing \<noteq> StatusAccepted"
  "StatusProcessed \<noteq> StatusProcessing" "StatusProcessing \<noteq> StatusProcessed"
  "OutboxPending \<noteq> OutboxPublished" "OutboxPublished \<noteq> OutboxPending"
  "CompletionProcessing \<noteq> CompletionProcessed" "CompletionProcessed \<noteq> CompletionProcessing"
  "CompletionProcessing \<noteq> CompletionFailed" "CompletionFailed \<noteq> CompletionProcessing"
  "CompletionProcessed \<noteq> CompletionFailed" "CompletionFailed \<noteq> CompletionProcessed"
  by (simp_all add: status_simps)

definition ledger_status_check :: "string \<Rightarrow> bool" where
  "ledger_status_check s \<longleftrightarrow> s \<in> {''processing'', ''accepted'', ''processed'', ''failed''}"

definition outbox_status_check :: "string \<Rightarrow> bool" where
  "outbox_status_check s \<longleftrightarrow> s \<in> {''pending'', ''published'', ''failed''}"

definition completion_status_check :: "string \<Rightarrow> bool" where
  "completion_status_check s \<longleftrightarrow> s \<in> {''processing'', ''processed'', ''failed''}"

lemma status_checks [simp]:
  "ledger_status_check StatusProcessing" "ledger_status_check StatusAccepted"
  "ledger_status_check StatusProcessed" "ledger_status_check StatusFailed"
  "outbox_status_check OutboxPending" "outbox_status_check OutboxPublished"
  "outbox_status_check OutboxFailed"
  "completion_status_check CompletionProcessing" "completion_status_check CompletionProcessed"
  "completion_status_check CompletionFailed"
  by (simp_all add: ledger_status_check_def outbox_status_check_def completion_status_check_def
      status_simps)

section \<open>Rows, tables and transactions\<close>

record ledger_row =
  pe_event_type :: string
  pe_status :: string
  pe_received_at :: nat
  pe_processed_at :: "nat option"
  pe_failed_at :: "nat option"
  pe_error_message :: "string option"

record outbox_row =
  ob_id :: nat
  ob_event_id :: string
  ob_event_type :: string
  ob_payload :: string
  ob_status :: string
  ob_created_at :: nat
  ob_published_at :: "nat option"

record completion_row =
  cc_event_type :: string
  cc_status :: string
  cc_error :: "string option"
  cc_attempt_count :: int
  cc_created_at :: nat
  cc_updated_at :: nat
  cc_processed_at :: "nat option"

record database =
  processed_events :: "string \<rightharpoonup> ledger_row"
  outbox_events :: "outbox_row list"
  outbox_seq :: nat
  consumer_completions :: "string \<times> string \<rightharpoonup> completion_row"
  db_now :: nat
  jsonb_cast :: "string \<Rightarrow> string option"

text \<open>
  A transaction holds its writes until it commits.  READ COMMITTED: a statement sees the
  committed rows and the transaction's own.  \<open>now()\<close> is the time the transaction began.
\<close>

record tx =
  tx_ledger :: "string \<rightharpoonup> ledger_row"
  tx_outbox :: "outbox_row list"
  tx_now :: nat

definition empty_database :: "(string \<Rightarrow> string option) \<Rightarrow> database" where
  "empty_database cast = \<lparr>processed_events = Map.empty, outbox_events = [], outbox_seq = 1,
     consumer_completions = Map.empty, db_now = 0, jsonb_cast = cast\<rparr>"

definition tx_start :: "database \<Rightarrow> tx" where
  "tx_start db = \<lparr>tx_ledger = Map.empty, tx_outbox = [], tx_now = db_now db\<rparr>"

abbreviation no_tx :: tx where
  "no_tx \<equiv> \<lparr>tx_ledger = Map.empty, tx_outbox = [], tx_now = 0\<rparr>"

abbreviation check_violation :: go_error where
  "check_violation \<equiv> ErrNew ''violates check constraint (SQLSTATE 23514)''"
abbreviation foreign_key_violation :: go_error where
  "foreign_key_violation \<equiv> ErrNew ''violates foreign key constraint (SQLSTATE 23503)''"
abbreviation unique_violation :: go_error where
  "unique_violation \<equiv> ErrNew ''duplicate key value (SQLSTATE 23505)''"
abbreviation invalid_json :: go_error where
  "invalid_json \<equiv> ErrNew ''invalid input syntax for type json (SQLSTATE 22P02)''"
abbreviation integer_out_of_range :: go_error where
  "integer_out_of_range \<equiv> ErrNew ''integer out of range (SQLSTATE 22003)''"

definition int4_max :: int where "int4_max = 2147483647"

section \<open>Statements on processed_events and outbox_events\<close>

text \<open>\<open>SELECT status FROM processed_events WHERE event_id = $1\<close>\<close>

definition sql_select_status :: "string \<Rightarrow> database \<Rightarrow> string result \<times> database" where
  "sql_select_status ev db =
     ((case processed_events db ev of None \<Rightarrow> Inl ErrNoRows | Some r \<Rightarrow> Inr (pe_status r)), db)"

text \<open>
  \<open>INSERT INTO processed_events (event_id, event_type, status) VALUES ($1, $2, $3)
  ON CONFLICT (event_id) DO NOTHING\<close>, in a transaction.  The number is the rows affected.
\<close>

definition sql_insert_ledger ::
  "string \<Rightarrow> string \<Rightarrow> string \<Rightarrow> tx \<Rightarrow> database \<Rightarrow> (nat \<times> tx) result \<times> database" where
  "sql_insert_ledger ev ty st t db =
     (if \<not> ledger_status_check st then (Inl check_violation, db)
      else if processed_events db ev \<noteq> None \<or> tx_ledger t ev \<noteq> None then (Inr (0, t), db)
      else (Inr (1, t\<lparr>tx_ledger := (tx_ledger t)(ev \<mapsto>
              \<lparr>pe_event_type = ty, pe_status = st, pe_received_at = tx_now t,
               pe_processed_at = None, pe_failed_at = None, pe_error_message = None\<rparr>)\<rparr>), db))"

text \<open>
  \<open>UPDATE processed_events SET status = $1, processed_at = now() WHERE event_id = $2\<close>, in the
  transaction that inserted the row.  A row another transaction committed is outside the write
  set; \<open>ProcessEvent\<close> only updates the row it has just inserted.
\<close>

definition sql_update_ledger ::
  "string \<Rightarrow> string \<Rightarrow> tx \<Rightarrow> database \<Rightarrow> (nat \<times> tx) result \<times> database" where
  "sql_update_ledger st ev t db =
     (if \<not> ledger_status_check st then (Inl check_violation, db)
      else case tx_ledger t ev of
        None \<Rightarrow>
          (case processed_events db ev of
             None \<Rightarrow> (Inr (0, t), db)
           | Some r \<Rightarrow> (Inr (1, t\<lparr>tx_ledger := (tx_ledger t)(ev \<mapsto>
                r\<lparr>pe_status := st, pe_processed_at := Some (tx_now t)\<rparr>)\<rparr>), db))
      | Some r \<Rightarrow> (Inr (1, t\<lparr>tx_ledger := (tx_ledger t)(ev \<mapsto>
             r\<lparr>pe_status := st, pe_processed_at := Some (tx_now t)\<rparr>)\<rparr>), db))"

text \<open>
  \<open>INSERT INTO outbox_events (event_id, event_type, payload, status)
  VALUES ($1, $2, $3::jsonb, $4)\<close>: the sequence moves on even if the transaction rolls back.
\<close>

definition sql_insert_outbox ::
  "string \<Rightarrow> string \<Rightarrow> string \<Rightarrow> string \<Rightarrow> tx \<Rightarrow> database \<Rightarrow> (nat \<times> tx) result \<times> database" where
  "sql_insert_outbox ev ty payload st t db =
     (case jsonb_cast db payload of
        None \<Rightarrow> (Inl invalid_json, db)
      | Some j \<Rightarrow>
          (let db' = db\<lparr>outbox_seq := Suc (outbox_seq db)\<rparr>;
               row = \<lparr>ob_id = outbox_seq db, ob_event_id = ev, ob_event_type = ty,
                      ob_payload = j, ob_status = st, ob_created_at = tx_now t,
                      ob_published_at = None\<rparr>
           in if \<not> outbox_status_check st then (Inl check_violation, db')
              else if ev \<in> ob_event_id ` set (outbox_events db @ tx_outbox t)
                then (Inl unique_violation, db')
              else if processed_events db ev = None \<and> tx_ledger t ev = None
                then (Inl foreign_key_violation, db')
              else (Inr (1, t\<lparr>tx_outbox := tx_outbox t @ [row]\<rparr>), db')))"

text \<open>\<open>COMMIT\<close> makes the transaction's rows visible.\<close>

definition sql_commit :: "tx \<Rightarrow> database \<Rightarrow> unit result \<times> database" where
  "sql_commit t db =
     (Inr (), db\<lparr>processed_events := processed_events db ++ tx_ledger t,
                outbox_events := outbox_events db @ tx_outbox t\<rparr>)"

text \<open>\<open>SELECT status, payload FROM outbox_events WHERE event_id = $1\<close>\<close>

definition sql_select_outbox :: "string \<Rightarrow> database \<Rightarrow> (string \<times> string) result \<times> database" where
  "sql_select_outbox ev db =
     ((case filter (\<lambda>r. ob_event_id r = ev) (outbox_events db) of
         [] \<Rightarrow> Inl ErrNoRows
       | r # _ \<Rightarrow> Inr (ob_status r, ob_payload r)), db)"

text \<open>
  \<open>SELECT event_id, payload FROM outbox_events WHERE status = $1 ORDER BY id LIMIT 1\<close>
\<close>

fun least_id :: "outbox_row list \<Rightarrow> outbox_row option" where
  "least_id [] = None"
| "least_id (r # rs) =
     (case least_id rs of
        None \<Rightarrow> Some r
      | Some m \<Rightarrow> Some (if ob_id r \<le> ob_id m then r else m))"

definition sql_next_outbox :: "string \<Rightarrow> database \<Rightarrow> (string \<times> string) result \<times> database" where
  "sql_next_outbox st db =
     ((case least_id (filter (\<lambda>r. ob_status r = st) (outbox_events db)) of
         None \<Rightarrow> Inl ErrNoRows
       | Some r \<Rightarrow> Inr (ob_event_id r, ob_payload r)), db)"

text \<open>
  \<open>UPDATE outbox_events SET status = $1, published_at = now() WHERE event_id = $2 AND
  status = $3\<close>
\<close>

definition sql_mark_outbox ::
  "string \<Rightarrow> string \<Rightarrow> string \<Rightarrow> database \<Rightarrow> nat result \<times> database" where
  "sql_mark_outbox st ev st_old db =
     (let hit = (\<lambda>r. ob_event_id r = ev \<and> ob_status r = st_old)
      in if \<not> outbox_status_check st \<and> (\<exists>r \<in> set (outbox_events db). hit r)
         then (Inl check_violation, db)
         else (Inr (length (filter hit (outbox_events db))),
               db\<lparr>outbox_events := map (\<lambda>r. if hit r
                  then r\<lparr>ob_status := st, ob_published_at := Some (db_now db)\<rparr> else r)
                  (outbox_events db)\<rparr>))"

section \<open>Statements on consumer_completions\<close>

text \<open>
  \<open>INSERT INTO consumer_completions (event_id, consumer_name, event_type, status, attempt_count)
  VALUES ($1, $2, $3, $4, 1) ON CONFLICT (event_id, consumer_name) DO NOTHING\<close>
\<close>

definition sql_insert_completion ::
  "string \<Rightarrow> string \<Rightarrow> string \<Rightarrow> string \<Rightarrow> database \<Rightarrow> nat result \<times> database" where
  "sql_insert_completion ev c ty st db =
     (if \<not> completion_status_check st then (Inl check_violation, db)
      else if consumer_completions db (ev, c) \<noteq> None then (Inr 0, db)
      else (Inr 1, db\<lparr>consumer_completions := (consumer_completions db)((ev, c) \<mapsto>
              \<lparr>cc_event_type = ty, cc_status = st, cc_error = None, cc_attempt_count = 1,
               cc_created_at = db_now db, cc_updated_at = db_now db,
               cc_processed_at = None\<rparr>)\<rparr>))"

text \<open>
  \<open>SELECT status, attempt_count, error FROM consumer_completions WHERE event_id = $1 AND
  consumer_name = $2\<close>; the claim reads the first two columns only.
\<close>

definition sql_select_completion ::
  "string \<Rightarrow> string \<Rightarrow> database \<Rightarrow> (string \<times> int \<times> string option) result \<times> database" where
  "sql_select_completion ev c db =
     ((case consumer_completions db (ev, c) of
         None \<Rightarrow> Inl ErrNoRows
       | Some r \<Rightarrow> Inr (cc_status r, cc_attempt_count r, cc_error r)), db)"

text \<open>
  The conditional updates of \<open>consumer_completions\<close>: \<open>WHERE event_id = .. AND consumer_name = ..
  AND status = st_old\<close>.  \<open>f\<close> is the \<open>SET\<close> list; its new row must pass the CHECK constraint and
  the \<open>INT\<close> range of \<open>attempt_count\<close>.
\<close>

definition update_completion ::
  "string \<Rightarrow> string \<Rightarrow> string \<Rightarrow> (completion_row \<Rightarrow> completion_row) \<Rightarrow> database
   \<Rightarrow> completion_row option result \<times> database" where
  "update_completion ev c st_old f db =
     (case consumer_completions db (ev, c) of
        None \<Rightarrow> (Inr None, db)
      | Some r \<Rightarrow>
          if cc_status r \<noteq> st_old then (Inr None, db)
          else if int4_max < cc_attempt_count (f r) then (Inl integer_out_of_range, db)
          else if \<not> completion_status_check (cc_status (f r)) then (Inl check_violation, db)
          else (Inr (Some (f r)),
                db\<lparr>consumer_completions := (consumer_completions db)((ev, c) \<mapsto> f r)\<rparr>))"

text \<open>The rows affected by an update, and the row a \<open>RETURNING attempt_count\<close> scans.\<close>

fun rows_of :: "completion_row option result \<times> database \<Rightarrow> nat result \<times> database" where
  "rows_of (Inl e, db) = (Inl e, db)"
| "rows_of (Inr None, db) = (Inr 0, db)"
| "rows_of (Inr (Some r), db) = (Inr 1, db)"

fun returning_attempts :: "completion_row option result \<times> database \<Rightarrow> int result \<times> database" where
  "returning_attempts (Inl e, db) = (Inl e, db)"
| "returning_attempts (Inr None, db) = (Inl ErrNoRows, db)"
| "returning_attempts (Inr (Some r), db) = (Inr (cc_attempt_count r), db)"

text \<open>\<open>SET attempt_count = attempt_count + 1, updated_at = now() .. RETURNING attempt_count\<close>\<close>

definition sql_retry_completion ::
  "string \<Rightarrow> string \<Rightarrow> string \<Rightarrow> database \<Rightarrow> int result \<times> database" where
  "sql_retry_completion ev c st_old db =
     returning_attempts (update_completion ev c st_old
       (\<lambda>r. r\<lparr>cc_attempt_count := cc_attempt_count r + 1, cc_updated_at := db_now db\<rparr>) db)"

text \<open>
  \<open>SET status = $1, attempt_count = attempt_count + 1, error = NULL, updated_at = now() ..
  RETURNING attempt_count\<close>
\<close>

definition sql_reclaim_completion ::
  "string \<Rightarrow> string \<Rightarrow> string \<Rightarrow> string \<Rightarrow> database \<Rightarrow> int result \<times> database" where
  "sql_reclaim_completion st ev c st_old db =
     returning_attempts (update_completion ev c st_old
       (\<lambda>r. r\<lparr>cc_status := st, cc_attempt_count := cc_attempt_count r + 1, cc_error := None,
              cc_updated_at := db_now db\<rparr>) db)"

text \<open>\<open>SET status = $1, processed_at = now(), updated_at = now(), error = NULL\<close>\<close>

definition sql_mark_processed ::
  "string \<Rightarrow> string \<Rightarrow> string \<Rightarrow> string \<Rightarrow> database \<Rightarrow> nat result \<times> database" where
  "sql_mark_processed st ev c st_old db =
     rows_of (update_completion ev c st_old
       (\<lambda>r. r\<lparr>cc_status := st, cc_processed_at := Some (db_now db), cc_updated_at := db_now db,
              cc_error := None\<rparr>) db)"

text \<open>\<open>SET status = $1, error = $2, updated_at = now()\<close>\<close>

definition sql_mark_failed ::
  "string \<Rightarrow> string \<Rightarrow> string \<Rightarrow> string \<Rightarrow> string \<Rightarrow> database \<Rightarrow> nat result \<times> database" where
  "sql_mark_failed st err ev c st_old db =
     rows_of (update_completion ev c st_old
       (\<lambda>r. r\<lparr>cc_status := st, cc_error := Some err, cc_updated_at := db_now db\<rparr>) db)"

text \<open>\<open>TRUNCATE TABLE consumer_completions, outbox_events, processed_events\<close>\<close>

definition sql_truncate :: "database \<Rightarrow> unit result \<times> database" where
  "sql_truncate db = (Inr (), db\<lparr>processed_events := Map.empty, outbox_events := [],
     consumer_completions := Map.empty\<rparr>)"

end
