(* ===== verification/Go_Strings.thy ===== *)
theory Go_Strings
  imports Go_Base
begin

text \<open>
  Go strings are byte strings, and so is \<open>string\<close> here (a \<open>char\<close> is a byte).  This theory models
  what the code uses of packages strings and unicode/utf8.
\<close>

section \<open>UTF-8\<close>

abbreviation byte :: "char \<Rightarrow> nat" where "byte \<equiv> of_char"

definition bytes_of :: "string \<Rightarrow> nat list" where "bytes_of s = map byte s"

definition is_cont :: "nat \<Rightarrow> bool" where "is_cont b \<longleftrightarrow> 128 \<le> b \<and> b \<le> 191"

text \<open>
  The length of the encoding a byte string starts with, 0 when it starts with none
  (utf8.DecodeRune then answers \<open>RuneError\<close>).
\<close>

fun rune_size :: "nat list \<Rightarrow> nat" where
  "rune_size [] = 0"
| "rune_size [b0] = (if b0 < 128 then 1 else 0)"
| "rune_size [b0, b1] =
     (if b0 < 128 then 1 else if 194 \<le> b0 \<and> b0 \<le> 223 \<and> is_cont b1 then 2 else 0)"
| "rune_size (b0 # b1 # b2 # bs) =
     (if b0 < 128 then 1
      else if 194 \<le> b0 \<and> b0 \<le> 223 then (if is_cont b1 then 2 else 0)
      else if 224 \<le> b0 \<and> b0 \<le> 239 then
        (if (if b0 = 224 then 160 else 128) \<le> b1 \<and> b1 \<le> (if b0 = 237 then 159 else 191) \<and> is_cont b2
         then 3 else 0)
      else if 240 \<le> b0 \<and> b0 \<le> 244 then
        (case bs of
           [] \<Rightarrow> 0
         | b3 # _ \<Rightarrow>
             (if (if b0 = 240 then 144 else 128) \<le> b1 \<and> b1 \<le> (if b0 = 244 then 143 else 191) \<and>
                 is_cont b2 \<and> is_cont b3
              then 4 else 0))
      else 0)"

fun utf8_valid :: "nat list \<Rightarrow> bool" where
  "utf8_valid [] = True"
| "utf8_valid (b # bs) =
     (rune_size (b # bs) \<noteq> 0 \<and> utf8_valid (drop (rune_size (b # bs) - 1) bs))"

lemma utf8_valid_ascii: "\<forall>b \<in> set bs. b < 128 \<Longrightarrow> utf8_valid bs"
proof (induction bs)
  case (Cons b bs)
  then have "rune_size (b # bs) = 1"
    by (cases bs; cases "tl bs") auto
  with Cons show ?case by simp
qed simp

section \<open>strings.TrimSpace, strings.Split\<close>

text \<open>
  \<open>unicode.IsSpace\<close> as the UTF-8 encodings of its 25 runes.  A rune's encoding starts a string
  exactly when decoding the first rune gives it, and ends one exactly when decoding the last
  rune does, so trimming runes is trimming these byte strings.
\<close>

definition space_encodings :: "nat list list" where
  "space_encodings =
     [[9], [10], [11], [12], [13], [32], [194, 133], [194, 160], [225, 154, 128],
      [226, 128, 128], [226, 128, 129], [226, 128, 130], [226, 128, 131], [226, 128, 132],
      [226, 128, 133], [226, 128, 134], [226, 128, 135], [226, 128, 136], [226, 128, 137],
      [226, 128, 138], [226, 128, 168], [226, 128, 169], [226, 128, 175], [226, 129, 159],
      [227, 128, 128]]"

definition space_prefix :: "nat list list \<Rightarrow> string \<Rightarrow> nat" where
  "space_prefix encs s =
     (case filter (\<lambda>e. e = take (length e) (bytes_of s)) encs of [] \<Rightarrow> 0 | e # _ \<Rightarrow> length e)"

text \<open>Strip leading encodings; the trailing ones are stripped from the reversed string.\<close>

function trim_front :: "nat list list \<Rightarrow> string \<Rightarrow> string" where
  "trim_front encs s =
     (if space_prefix encs s = 0 \<or> s = [] then s else trim_front encs (drop (space_prefix encs s) s))"
  by pat_completeness auto
termination
  by (relation "measure (\<lambda>(encs, s). length s)") auto

declare trim_front.simps [simp del]

definition TrimSpace :: "string \<Rightarrow> string" where
  "TrimSpace s =
     rev (trim_front (map rev space_encodings) (rev (trim_front space_encodings s)))"

text \<open>\<open>strings.Split(s, sep)\<close> for a one-byte separator.\<close>

fun Split :: "string \<Rightarrow> char \<Rightarrow> string list" where
  "Split [] sep = [[]]"
| "Split (c # s) sep =
     (if c = sep then [] # Split s sep
      else (case Split s sep of [] \<Rightarrow> [[c]] | p # ps \<Rightarrow> (c # p) # ps))"

lemma Split_nonempty [simp]: "Split s sep \<noteq> []"
  by (cases s) (auto split: list.splits)

lemma Split_no_sep: "p \<in> set (Split s sep) \<Longrightarrow> sep \<notin> set p"
proof (induction s arbitrary: p)
  case (Cons c s)
  then show ?case by (cases "Split s sep") (auto split: if_splits)
qed simp

text \<open>\<open>strings.Join\<close> with a one-byte separator undoes it.\<close>

fun Join :: "string list \<Rightarrow> char \<Rightarrow> string" where
  "Join [] sep = []"
| "Join [p] sep = p"
| "Join (p # q # ps) sep = p @ sep # Join (q # ps) sep"

lemma Join_Cons_Cons [simp]: "Join ((c # p) # ps) sep = c # Join (p # ps) sep"
  by (cases ps) auto

lemma Join_Nil_Cons: "ps \<noteq> [] \<Longrightarrow> Join ([] # ps) sep = sep # Join ps sep"
  by (cases ps) auto

lemma Join_Split: "Join (Split s sep) sep = s"
proof (induction s)
  case (Cons c s)
  then show ?case
    by (cases "Split s sep") (auto simp: Join_Nil_Cons)
qed simp

section \<open>Facts on trimming\<close>

lemma trim_front_fixed: "space_prefix encs s = 0 \<Longrightarrow> trim_front encs s = s"
  by (subst trim_front.simps) simp

lemma trim_front_stops: "space_prefix encs (trim_front encs s) = 0 \<or> trim_front encs s = []"
proof (induction encs s rule: trim_front.induct)
  case (1 encs s)
  then show ?case by (subst (1 2) trim_front.simps) auto
qed

lemma trim_front_suffix: "\<exists>p. s = p @ trim_front encs s"
proof (induction encs s rule: trim_front.induct)
  case (1 encs s)
  show ?case
  proof (cases "space_prefix encs s = 0 \<or> s = []")
    case True
    then show ?thesis by (subst trim_front.simps) auto
  next
    case False
    with 1 obtain p where
      "drop (space_prefix encs s) s = p @ trim_front encs (drop (space_prefix encs s) s)" by blast
    moreover from False have "trim_front encs s = trim_front encs (drop (space_prefix encs s) s)"
      by (subst trim_front.simps) simp
    ultimately have "s = (take (space_prefix encs s) s @ p) @ trim_front encs s"
      by (metis append.assoc append_take_drop_id)
    then show ?thesis ..
  qed
qed

text \<open>What TrimSpace returns is a contiguous part of its argument.\<close>

lemma TrimSpace_infix: "\<exists>p q. s = p @ TrimSpace s @ q"
proof -
  obtain p where p: "s = p @ trim_front space_encodings s"
    using trim_front_suffix by blast
  obtain q where "rev (trim_front space_encodings s) =
      q @ trim_front (map rev space_encodings) (rev (trim_front space_encodings s))"
    using trim_front_suffix by blast
  then have "trim_front space_encodings s = TrimSpace s @ rev q"
    unfolding TrimSpace_def by (metis rev_append rev_rev_ident)
  with p show ?thesis by metis
qed

lemma TrimSpace_Nil [simp]: "TrimSpace [] = []"
  using TrimSpace_infix[of "[]"] by auto

lemma space_prefix_0_iff:
  "[] \<notin> set encs \<Longrightarrow>
   space_prefix encs s = 0 \<longleftrightarrow> (\<forall>e \<in> set encs. e \<noteq> take (length e) (bytes_of s))"
  by (auto simp: space_prefix_def filter_empty_conv split: list.splits dest!: filter_eq_ConsD)

lemma space_prefix_append_0:
  assumes "[] \<notin> set encs" "space_prefix encs (s @ t) = 0"
  shows "space_prefix encs s = 0"
proof -
  have "e \<noteq> take (length e) (bytes_of s)" if e: "e \<in> set encs" for e
  proof
    assume eq: "e = take (length e) (bytes_of s)"
    then have "length e \<le> length (bytes_of s)"
      by (metis length_take min.absorb_iff2 min.commute)
    then have "take (length e) (bytes_of (s @ t)) = take (length e) (bytes_of s)"
      by (simp add: bytes_of_def)
    with assms e eq show False by (auto simp: space_prefix_0_iff)
  qed
  with assms(1) show ?thesis by (simp add: space_prefix_0_iff)
qed

lemma space_encodings_nonempty [simp]:
  "[] \<notin> set space_encodings" "[] \<notin> set (map rev space_encodings)"
  by (simp_all add: space_encodings_def)

text \<open>No white space is left at either end, and trimming again changes nothing.\<close>

lemma TrimSpace_no_leading: "TrimSpace s \<noteq> [] \<Longrightarrow> space_prefix space_encodings (TrimSpace s) = 0"
proof -
  assume ne: "TrimSpace s \<noteq> []"
  define u where "u = trim_front space_encodings s"
  obtain q where q: "u = TrimSpace s @ q"
    using trim_front_suffix[of "rev u" "map rev space_encodings"]
    unfolding TrimSpace_def u_def by (metis rev_append rev_rev_ident)
  with ne have "u \<noteq> []" by auto
  then have "space_prefix space_encodings u = 0"
    using trim_front_stops[of space_encodings s] by (auto simp: u_def)
  with q show ?thesis by (metis space_prefix_append_0 space_encodings_nonempty(1))
qed

lemma TrimSpace_no_trailing:
  "TrimSpace s \<noteq> [] \<Longrightarrow> space_prefix (map rev space_encodings) (rev (TrimSpace s)) = 0"
  unfolding TrimSpace_def
  using trim_front_stops[of "map rev space_encodings" "rev (trim_front space_encodings s)"] by auto

lemma TrimSpace_idem [simp]: "TrimSpace (TrimSpace s) = TrimSpace s"
proof (cases "TrimSpace s = []")
  case False
  with TrimSpace_no_leading TrimSpace_no_trailing show ?thesis
    unfolding TrimSpace_def[of "TrimSpace s"] by (simp add: trim_front_fixed)
qed simp

section \<open>strconv\<close>

text \<open>The decimal digits of a number, as \<open>strconv\<close> and \<open>fmt\<close> write it.\<close>

fun decimal :: "nat \<Rightarrow> string" where
  "decimal n = (if n < 10 then [char_of (48 + n)] else decimal (n div 10) @ [char_of (48 + n mod 10)])"

declare decimal.simps [simp del]

end
