(* ===== verification/Session.thy ===== *)
theory Session
  imports Database Go_Strings
begin

text \<open>
  Running a statement of one client on a database that other clients use too.  Before each
  statement the environment commits any number of the program's transactions (other pods,
  the other binaries); then the statement runs, or the call fails before or after it took
  effect.  A schedule lists these slots, so a theorem about an operation for every schedule
  covers every interleaving at statement granularity and every fault, a crash included (all
  later calls fail).  Statements that find the schedule empty run alone and succeed.
\<close>

section \<open>Transactions of the program\<close>

text \<open>
  The committed effect of each writing operation of internal/store/postgres.go, run in one piece
  from its statements: \<open>AcceptTx\<close> of \<open>AcceptEvent\<close> (with the sequence value it draws), \<open>ProcessTx\<close>
  of \<open>ProcessEvent\<close>, \<open>PublishTx\<close> of \<open>MarkOutboxPublished\<close>, then the statements of the consumer
  operations, and the passing of time.
\<close>

datatype txn =
    AcceptTx nat string string string
  | ProcessTx string string
  | PublishTx string
  | ClaimTx string string string
  | RetryTx string string
  | ReclaimTx string string
  | ProcessedTx string string
  | FailedTx string string string
  | ClockTx nat

text \<open>
  The two transactions of several statements.  A statement that fails, or an insert that affects
  no row, ends them with a rollback.
\<close>

definition accept_txn :: "nat \<Rightarrow> string \<Rightarrow> string \<Rightarrow> string \<Rightarrow> database \<Rightarrow> database" where
  "accept_txn i ev ty p db =
     (case sql_insert_ledger ev ty StatusAccepted (tx_start db) db of
        (Inl e, db1) \<Rightarrow> db
      | (Inr (n, t1), db1) \<Rightarrow>
          if n = 0 then db
          else (case sql_insert_outbox ev ty p OutboxPending t1 (db1\<lparr>outbox_seq := i\<rparr>) of
                  (Inl e, db2) \<Rightarrow> db
                | (Inr (m, t2), db2) \<Rightarrow>
                    snd (sql_commit t2 (db2\<lparr>outbox_seq := max (outbox_seq db) (outbox_seq db2)\<rparr>))))"

definition process_txn :: "string \<Rightarrow> string \<Rightarrow> database \<Rightarrow> database" where
  "process_txn ev ty db =
     (case sql_insert_ledger ev ty StatusProcessing (tx_start db) db of
        (Inl e, db1) \<Rightarrow> db
      | (Inr (n, t1), db1) \<Rightarrow>
          if n = 0 then db
          else (case sql_update_ledger StatusProcessed ev t1 db1 of
                  (Inl e, db2) \<Rightarrow> db
                | (Inr (m, t2), db2) \<Rightarrow> snd (sql_commit t2 db2)))"

text \<open>
  A transaction of another client that needs a key our open transaction \<open>t\<close> holds waits for us:
  it is not run now (a schedule may offer it again later).  A sequence value is drawn once.
\<close>

fun run_txn :: "tx \<Rightarrow> txn \<Rightarrow> database \<Rightarrow> database" where
  "run_txn t (AcceptTx i ev ty p) db =
     (if tx_ledger t ev \<noteq> None \<or> i \<in> ob_id ` set (outbox_events db @ tx_outbox t) then db
      else accept_txn i ev ty p db)"
| "run_txn t (ProcessTx ev ty) db = (if tx_ledger t ev \<noteq> None then db else process_txn ev ty db)"
| "run_txn t (PublishTx ev) db = snd (sql_mark_outbox OutboxPublished ev OutboxPending db)"
| "run_txn t (ClaimTx ev c ty) db = snd (sql_insert_completion ev c ty CompletionProcessing db)"
| "run_txn t (RetryTx ev c) db = snd (sql_retry_completion ev c CompletionProcessing db)"
| "run_txn t (ReclaimTx ev c) db =
     snd (sql_reclaim_completion CompletionProcessing ev c CompletionFailed db)"
| "run_txn t (ProcessedTx ev c) db =
     snd (sql_mark_processed CompletionProcessed ev c CompletionProcessing db)"
| "run_txn t (FailedTx ev c err) db =
     snd (sql_mark_failed CompletionFailed err ev c CompletionProcessing db)"
| "run_txn t (ClockTx n) db = db\<lparr>db_now := db_now db + n\<rparr>"

text \<open>What the two come to.\<close>

lemma run_txn_AcceptTx [simp]:
  "run_txn t (AcceptTx i ev ty p) db =
     (if processed_events db ev \<noteq> None \<or> tx_ledger t ev \<noteq> None
         \<or> ev \<in> ob_event_id ` set (outbox_events db) \<or> i \<in> ob_id ` set (outbox_events db @ tx_outbox t) then db
      else case jsonb_cast db p of
        None \<Rightarrow> db
      | Some j \<Rightarrow> db\<lparr>
          processed_events := (processed_events db)(ev \<mapsto>
            \<lparr>pe_event_type = ty, pe_status = StatusAccepted, pe_received_at = db_now db,
             pe_processed_at = None, pe_failed_at = None, pe_error_message = None\<rparr>),
          outbox_events := outbox_events db @
            [\<lparr>ob_id = i, ob_event_id = ev, ob_event_type = ty, ob_payload = j,
              ob_status = OutboxPending, ob_created_at = db_now db, ob_published_at = None\<rparr>],
          outbox_seq := max (outbox_seq db) (Suc i)\<rparr>)"
  by (auto simp: accept_txn_def sql_insert_ledger_def sql_insert_outbox_def sql_commit_def tx_start_def
      Let_def split: option.split)

lemma run_txn_ProcessTx [simp]:
  "run_txn t (ProcessTx ev ty) db =
     (if processed_events db ev \<noteq> None \<or> tx_ledger t ev \<noteq> None then db
      else db\<lparr>processed_events := (processed_events db)(ev \<mapsto>
            \<lparr>pe_event_type = ty, pe_status = StatusProcessed, pe_received_at = db_now db,
             pe_processed_at = Some (db_now db), pe_failed_at = None,
             pe_error_message = None\<rparr>)\<rparr>)"
  by (auto simp: process_txn_def sql_insert_ledger_def sql_update_ledger_def sql_commit_def tx_start_def)

declare run_txn.simps(1,2) [simp del]

fun run_txns :: "tx \<Rightarrow> txn list \<Rightarrow> database \<Rightarrow> database" where
  "run_txns t [] db = db"
| "run_txns t (x # xs) db = run_txns t xs (run_txn t x db)"

section \<open>Calls with faults\<close>

text \<open>
  \<open>FailBefore\<close>: the error comes and the statement did nothing.  \<open>FailAfter\<close>: the statement took
  effect and the answer was lost.  \<open>RowsErr\<close>: it ran and \<open>RowsAffected()\<close> answers an error.
  The text is the message of the driver's error, which is never \<open>sql.ErrNoRows\<close>.
\<close>

datatype fault = NoFault | FailBefore string | FailAfter string | RowsErr string

record slot =
  sl_others :: "txn list"
  sl_fault :: fault

record session = proc +
  pg_db :: database
  pg_slots :: "slot list"

definition quiet :: slot where "quiet = \<lparr>sl_others = [], sl_fault = NoFault\<rparr>"

fun head_slot :: "slot list \<Rightarrow> slot" where
  "head_slot [] = quiet"
| "head_slot (s # ss) = s"

text \<open>Postgres refuses \<open>TEXT\<close> that is not UTF-8 or holds a zero byte.\<close>

definition pg_text_ok :: "string \<Rightarrow> bool" where
  "pg_text_ok s \<longleftrightarrow> utf8_valid (bytes_of s) \<and> 0 \<notin> set (bytes_of s)"

abbreviation invalid_text :: go_error where
  "invalid_text \<equiv> ErrNew ''invalid byte sequence for encoding UTF8 (SQLSTATE 22021)''"

definition after_fault :: "fault \<Rightarrow> 'a result \<Rightarrow> 'a result" where
  "after_fault flt r = (case flt of FailAfter m \<Rightarrow> Inl (ErrNew m) | _ \<Rightarrow> r)"

definition pg_call ::
  "tx \<Rightarrow> string list \<Rightarrow> (database \<Rightarrow> 'a result \<times> database) \<Rightarrow> ('s session_scheme, 'a) io" where
  "pg_call t texts f w =
     (let sl = head_slot (pg_slots w);
          db = run_txns t (sl_others sl) (pg_db w);
          w' = w\<lparr>pg_slots := tl (pg_slots w)\<rparr>
      in case sl_fault sl of
           FailBefore m \<Rightarrow> (Inl (ErrNew m), w'\<lparr>pg_db := db\<rparr>)
         | flt \<Rightarrow>
             if \<not> list_all pg_text_ok texts then (Inl invalid_text, w'\<lparr>pg_db := db\<rparr>)
             else (after_fault flt (fst (f db)), w'\<lparr>pg_db := snd (f db)\<rparr>))"

text \<open>
  \<open>ExecContext\<close> answers a \<open>sql.Result\<close>, whose \<open>RowsAffected()\<close> has an error of its own:
  the inner \<open>result\<close>.
\<close>

definition rows_affected :: "'s session_scheme \<Rightarrow> nat \<Rightarrow> nat result" where
  "rows_affected w n =
     (case sl_fault (head_slot (pg_slots w)) of RowsErr m \<Rightarrow> Inl (ErrNew m) | _ \<Rightarrow> Inr n)"

definition db_Exec ::
  "string list \<Rightarrow> (database \<Rightarrow> nat result \<times> database) \<Rightarrow> ('s session_scheme, nat result) io" where
  "db_Exec texts f w =
     (case pg_call no_tx texts f w of
        (Inl e, w') \<Rightarrow> (Inl e, w')
      | (Inr n, w') \<Rightarrow> (Inr (rows_affected w n), w'))"

definition tx_Exec ::
  "tx \<Rightarrow> string list \<Rightarrow> (tx \<Rightarrow> database \<Rightarrow> (nat \<times> tx) result \<times> database)
   \<Rightarrow> ('s session_scheme, nat result \<times> tx) io" where
  "tx_Exec t texts f w =
     (case pg_call t texts (f t) w of
        (Inl e, w') \<Rightarrow> (Inl e, w')
      | (Inr (n, t'), w') \<Rightarrow> (Inr (rows_affected w n, t'), w'))"

definition db_Query ::
  "string list \<Rightarrow> (database \<Rightarrow> 'a result \<times> database) \<Rightarrow> ('s session_scheme, 'a) io" where
  "db_Query = pg_call no_tx"

definition BeginTx :: "('s session_scheme, tx) io" where
  "BeginTx = pg_call no_tx [] (\<lambda>db. (Inr (tx_start db), db))"

definition Commit :: "tx \<Rightarrow> ('s session_scheme, unit) io" where
  "Commit t = pg_call t [] (sql_commit t)"

section \<open>Invariant and progress\<close>

text \<open>
  Rows as the program writes them.  A committed ledger row is \<open>accepted\<close> or \<open>processed\<close>:
  \<open>processing\<close> exists only inside the transaction of \<open>ProcessEvent\<close>.
\<close>

definition ledger_row_ok :: "ledger_row \<Rightarrow> bool" where
  "ledger_row_ok r \<longleftrightarrow>
     (pe_status r = StatusAccepted \<and> pe_processed_at r = None \<or>
      pe_status r = StatusProcessed \<and> pe_processed_at r \<noteq> None) \<and>
     pe_failed_at r = None \<and> pe_error_message r = None"

definition outbox_row_ok :: "outbox_row \<Rightarrow> bool" where
  "outbox_row_ok r \<longleftrightarrow>
     ob_status r = OutboxPending \<and> ob_published_at r = None \<or>
     ob_status r = OutboxPublished \<and> ob_published_at r \<noteq> None"

definition completion_row_ok :: "completion_row \<Rightarrow> bool" where
  "completion_row_ok r \<longleftrightarrow>
     completion_status_check (cc_status r) \<and>
     1 \<le> cc_attempt_count r \<and> cc_attempt_count r \<le> int4_max \<and>
     (cc_error r \<noteq> None \<longleftrightarrow> cc_status r = CompletionFailed) \<and>
     (cc_processed_at r \<noteq> None \<longleftrightarrow> cc_status r = CompletionProcessed)"

definition accepted_as :: "(string \<rightharpoonup> ledger_row) \<Rightarrow> outbox_row \<Rightarrow> bool" where
  "accepted_as m r \<longleftrightarrow>
     (\<exists>l. m (ob_event_id r) = Some l \<and> pe_status l = StatusAccepted \<and>
          pe_event_type l = ob_event_type r)"

definition outbox_complete :: "(string \<rightharpoonup> ledger_row) \<Rightarrow> outbox_row list \<Rightarrow> bool" where
  "outbox_complete m rs \<longleftrightarrow>
     (\<forall>ev l. m ev = Some l \<longrightarrow> pe_status l = StatusAccepted \<longrightarrow> ev \<in> ob_event_id ` set rs)"

definition db_inv :: "database \<Rightarrow> bool" where
  "db_inv db \<longleftrightarrow>
     (\<forall>r \<in> ran (processed_events db). ledger_row_ok r) \<and>
     (\<forall>r \<in> ran (consumer_completions db). completion_row_ok r) \<and>
     (\<forall>r \<in> set (outbox_events db). outbox_row_ok r \<and> ob_id r < outbox_seq db \<and>
        accepted_as (processed_events db) r) \<and>
     distinct (map ob_id (outbox_events db)) \<and>
     distinct (map ob_event_id (outbox_events db)) \<and>
     outbox_complete (processed_events db) (outbox_events db)"

text \<open>What an open transaction holds fits the committed rows whatever the others do.\<close>

definition tx_inv :: "tx \<Rightarrow> database \<Rightarrow> bool" where
  "tx_inv t db \<longleftrightarrow>
     (\<forall>ev. tx_ledger t ev \<noteq> None \<longrightarrow> processed_events db ev = None) \<and>
     (\<forall>r \<in> set (tx_outbox t). outbox_row_ok r \<and> ob_id r < outbox_seq db \<and>
        ob_id r \<notin> ob_id ` set (outbox_events db) \<and> accepted_as (tx_ledger t) r) \<and>
     distinct (map ob_id (tx_outbox t)) \<and>
     distinct (map ob_event_id (tx_outbox t))"

text \<open>
  What no operation of the program undoes: a ledger row never changes, an outbox row only goes
  from pending to published, a completion row keeps its type and never loses attempts, and a
  processed completion never changes again.
\<close>

definition outbox_row_le :: "outbox_row \<Rightarrow> outbox_row \<Rightarrow> bool" where
  "outbox_row_le r r' \<longleftrightarrow> r' = r \<or>
     ob_status r = OutboxPending \<and>
     (\<exists>n. r' = r\<lparr>ob_status := OutboxPublished, ob_published_at := Some n\<rparr>)"

definition completion_le :: "completion_row \<Rightarrow> completion_row \<Rightarrow> bool" where
  "completion_le r r' \<longleftrightarrow>
     cc_event_type r' = cc_event_type r \<and> cc_created_at r' = cc_created_at r \<and>
     cc_attempt_count r \<le> cc_attempt_count r' \<and>
     (cc_status r = CompletionProcessed \<longrightarrow> r' = r)"

definition db_le :: "database \<Rightarrow> database \<Rightarrow> bool" where
  "db_le db db' \<longleftrightarrow>
     processed_events db \<subseteq>\<^sub>m processed_events db' \<and>
     (\<forall>r \<in> set (outbox_events db). \<exists>r' \<in> set (outbox_events db'). outbox_row_le r r') \<and>
     (\<forall>k r. consumer_completions db k = Some r \<longrightarrow>
        (\<exists>r'. consumer_completions db' k = Some r' \<and> completion_le r r')) \<and>
     outbox_seq db \<le> outbox_seq db' \<and> db_now db \<le> db_now db' \<and>
     jsonb_cast db' = jsonb_cast db"

end
