(* ===== verification/Db_Invariant.thy ===== *)
theory Db_Invariant
  imports Session
begin

text \<open>
  The invariant of the schema and the progress order, shown for every statement, every
  transaction of the environment and every call under any schedule.
\<close>

section \<open>Progress is a preorder\<close>

lemma outbox_row_le_refl [simp]: "outbox_row_le r r"
  by (simp add: outbox_row_le_def)

lemma outbox_rows_le_refl [simp, intro]: "r \<in> S \<Longrightarrow> \<exists>r' \<in> S. outbox_row_le r r'"
  by (blast intro: outbox_row_le_refl)

lemma outbox_row_le_trans: "outbox_row_le r s \<Longrightarrow> outbox_row_le s u \<Longrightarrow> outbox_row_le r u"
  by (auto simp: outbox_row_le_def)

lemma outbox_row_le_sel:
  "outbox_row_le r s \<Longrightarrow> ob_id s = ob_id r \<and> ob_event_id s = ob_event_id r \<and>
     ob_event_type s = ob_event_type r \<and> ob_payload s = ob_payload r"
  by (auto simp: outbox_row_le_def)

lemma completion_le_refl [simp]: "completion_le r r"
  by (simp add: completion_le_def)

lemma completion_le_trans: "completion_le r s \<Longrightarrow> completion_le s u \<Longrightarrow> completion_le r u"
  by (auto simp: completion_le_def)

lemma db_le_refl [simp]: "db_le db db"
  by (auto simp: db_le_def)

lemma db_le_trans [trans]:
  assumes "db_le a b" "db_le b c" shows "db_le a c"
proof -
  have "\<exists>r'\<in>set (outbox_events c). outbox_row_le r r'" if "r \<in> set (outbox_events a)" for r
    using assms that unfolding db_le_def by (meson outbox_row_le_trans)
  moreover have "\<exists>r'. consumer_completions c k = Some r' \<and> completion_le r r'"
    if "consumer_completions a k = Some r" for k r
    using assms that unfolding db_le_def by (meson completion_le_trans)
  ultimately show ?thesis
    using assms unfolding db_le_def by (auto intro: map_le_trans)
qed

lemma db_le_ledger: "db_le a b \<Longrightarrow> processed_events a ev = Some r \<Longrightarrow> processed_events b ev = Some r"
  by (auto simp: db_le_def map_le_def dom_def)

lemma db_le_completion:
  "db_le a b \<Longrightarrow> consumer_completions a k = Some r \<Longrightarrow>
   \<exists>r'. consumer_completions b k = Some r' \<and> completion_le r r'"
  by (simp add: db_le_def del: split_paired_All)

lemma db_le_processed:
  "db_le a b \<Longrightarrow> consumer_completions a k = Some r \<Longrightarrow> cc_status r = CompletionProcessed \<Longrightarrow>
   consumer_completions b k = Some r"
  by (fastforce simp: completion_le_def dest: db_le_completion)

lemma db_le_outbox:
  "db_le a b \<Longrightarrow> r \<in> set (outbox_events a) \<Longrightarrow> \<exists>r' \<in> set (outbox_events b). outbox_row_le r r'"
  by (auto simp: db_le_def)

section \<open>Steady functions\<close>

definition steady :: "tx \<Rightarrow> (database \<Rightarrow> database) \<Rightarrow> bool" where
  "steady t g \<longleftrightarrow>
     (\<forall>db. db_inv db \<and> tx_inv t db \<longrightarrow> db_inv (g db) \<and> tx_inv t (g db) \<and> db_le db (g db))"

lemma steadyI:
  "(\<And>db. db_inv db \<Longrightarrow> tx_inv t db \<Longrightarrow> db_inv (g db) \<and> tx_inv t (g db) \<and> db_le db (g db))
   \<Longrightarrow> steady t g"
  by (simp add: steady_def)

lemma steadyD:
  assumes "steady t g" "db_inv db" "tx_inv t db"
  shows "db_inv (g db)" "tx_inv t (g db)" "db_le db (g db)"
  using assms by (auto simp: steady_def)

lemma steady_id: "steady t (\<lambda>db. db)"
  by (simp add: steady_def)

lemma tx_inv_no_tx [simp]: "tx_inv no_tx db"
  by (simp add: tx_inv_def)

lemma tx_inv_start [simp]: "tx_inv (tx_start db) db'"
  by (simp add: tx_inv_def tx_start_def)

text \<open>The conditional updates of \<open>consumer_completions\<close>.\<close>

lemma ran_updI: "(\<And>r. r \<in> ran m \<Longrightarrow> P r) \<Longrightarrow> P v \<Longrightarrow> r \<in> ran (m(k \<mapsto> v)) \<Longrightarrow> P r"
  by (auto simp: ran_def split: if_splits)

lemma completion_write_inv:
  assumes "db_inv db" "tx_inv t db" "completion_row_ok r'"
    and "\<And>r. consumer_completions db k = Some r \<Longrightarrow> completion_le r r'"
  shows "db_inv (db\<lparr>consumer_completions := (consumer_completions db)(k \<mapsto> r')\<rparr>) \<and>
         tx_inv t (db\<lparr>consumer_completions := (consumer_completions db)(k \<mapsto> r')\<rparr>) \<and>
         db_le db (db\<lparr>consumer_completions := (consumer_completions db)(k \<mapsto> r')\<rparr>)"
  using assms
  by (auto simp: db_inv_def tx_inv_def db_le_def ran_def simp del: split_paired_All split_paired_Ex
      split: if_splits)

lemma update_completion_inv:
  assumes "db_inv db" "tx_inv t db"
    and "\<And>r. completion_row_ok r \<Longrightarrow> cc_status r = st_old \<Longrightarrow> cc_attempt_count (f r) \<le> int4_max \<Longrightarrow>
           completion_row_ok (f r) \<and> completion_le r (f r)"
  shows "db_inv (snd (update_completion ev c st_old f db)) \<and>
         tx_inv t (snd (update_completion ev c st_old f db)) \<and>
         db_le db (snd (update_completion ev c st_old f db))"
proof (cases "consumer_completions db (ev, c)")
  case None
  with assms show ?thesis by (simp add: update_completion_def)
next
  case (Some r)
  with assms(1) have ok: "completion_row_ok r" by (auto simp: db_inv_def intro: ranI)
  show ?thesis
  proof (cases "cc_status r = st_old \<and> cc_attempt_count (f r) \<le> int4_max \<and>
                completion_status_check (cc_status (f r))")
    case True
    with assms(3)[OF ok] have "completion_row_ok (f r)" "completion_le r (f r)" by auto
    with True Some assms(1,2) show ?thesis
      using completion_write_inv[of db t "f r" "(ev, c)"]
      by (simp add: update_completion_def del: fun_upd_apply)
  next
    case False
    with Some assms(1,2) show ?thesis by (auto simp: update_completion_def)
  qed
qed

lemma snd_rows_of [simp]: "snd (rows_of x) = snd x"
  by (cases x rule: rows_of.cases) auto

lemma snd_returning_attempts [simp]: "snd (returning_attempts x) = snd x"
  by (cases x rule: returning_attempts.cases) auto

lemma steady_retry: "steady t (\<lambda>db. snd (sql_retry_completion ev c CompletionProcessing db))"
  by (rule steadyI, simp add: sql_retry_completion_def, rule update_completion_inv)
    (auto simp: completion_row_ok_def completion_le_def)

lemma steady_reclaim:
  "steady t (\<lambda>db. snd (sql_reclaim_completion CompletionProcessing ev c CompletionFailed db))"
  by (rule steadyI, simp add: sql_reclaim_completion_def, rule update_completion_inv)
    (auto simp: completion_row_ok_def completion_le_def)

lemma steady_mark_processed:
  "steady t (\<lambda>db. snd (sql_mark_processed CompletionProcessed ev c CompletionProcessing db))"
  by (rule steadyI, simp add: sql_mark_processed_def, rule update_completion_inv)
    (auto simp: completion_row_ok_def completion_le_def)

lemma steady_mark_failed:
  "steady t (\<lambda>db. snd (sql_mark_failed CompletionFailed err ev c CompletionProcessing db))"
  by (rule steadyI, simp add: sql_mark_failed_def, rule update_completion_inv)
    (auto simp: completion_row_ok_def completion_le_def)

lemma steady_insert_completion:
  "steady t (\<lambda>db. snd (sql_insert_completion ev c ty CompletionProcessing db))"
proof (rule steadyI)
  fix db assume "db_inv db" "tx_inv t db"
  then show "db_inv (snd (sql_insert_completion ev c ty CompletionProcessing db)) \<and>
      tx_inv t (snd (sql_insert_completion ev c ty CompletionProcessing db)) \<and>
      db_le db (snd (sql_insert_completion ev c ty CompletionProcessing db))"
    using completion_write_inv[of db t _ "(ev, c)"]
    by (auto simp: sql_insert_completion_def completion_row_ok_def int4_max_def
        simp del: fun_upd_apply)
qed

section \<open>Statements on the outbox and the ledger\<close>

lemma mark_outbox_published_rows:
  "outbox_row_ok r \<Longrightarrow> ob_status r = OutboxPending \<Longrightarrow>
   outbox_row_ok (r\<lparr>ob_status := OutboxPublished, ob_published_at := Some n\<rparr>)"
  by (simp add: outbox_row_ok_def)

lemma steady_mark_outbox: "steady t (\<lambda>db. snd (sql_mark_outbox OutboxPublished ev OutboxPending db))"
proof (rule steadyI)
  fix db assume inv: "db_inv db" "tx_inv t db"
  define g :: "outbox_row \<Rightarrow> outbox_row" where "g = (\<lambda>r. if ob_event_id r = ev \<and> ob_status r = OutboxPending
     then r\<lparr>ob_status := OutboxPublished, ob_published_at := Some (db_now db)\<rparr> else r)"
  have eq: "snd (sql_mark_outbox OutboxPublished ev OutboxPending db) =
      db\<lparr>outbox_events := map g (outbox_events db)\<rparr>"
    by (simp add: sql_mark_outbox_def g_def)
  have le: "outbox_row_le r (g r)" for r
    by (auto simp: g_def outbox_row_le_def)
  have sel [simp]: "ob_id (g r) = ob_id r" "ob_event_id (g r) = ob_event_id r"
      "ob_event_type (g r) = ob_event_type r" for r
    by (simp_all add: g_def)
  have ok: "outbox_row_ok r \<Longrightarrow> outbox_row_ok (g r)" for r
    by (simp add: g_def mark_outbox_published_rows)
  have "map ob_id (map g rs) = map ob_id rs" "map ob_event_id (map g rs) = map ob_event_id rs"
      "ob_id ` g ` set rs = ob_id ` set rs" "ob_event_id ` g ` set rs = ob_event_id ` set rs" for rs
    by (simp_all add: image_image)
  with inv le ok show "db_inv (snd (sql_mark_outbox OutboxPublished ev OutboxPending db)) \<and>
      tx_inv t (snd (sql_mark_outbox OutboxPublished ev OutboxPending db)) \<and>
      db_le db (snd (sql_mark_outbox OutboxPublished ev OutboxPending db))"
    unfolding eq by (auto simp: db_inv_def tx_inv_def db_le_def accepted_as_def outbox_complete_def
        comp_def)
qed

text \<open>A committed ledger row that is not \<open>accepted\<close> needs no outbox row.\<close>

lemma steady_process:
  "steady t (run_txn t (ProcessTx ev ty))"
  by (rule steadyI)
    (auto simp: db_inv_def tx_inv_def db_le_def ran_def ledger_row_ok_def accepted_as_def
      outbox_complete_def map_le_def split: if_splits)

lemma steady_clock: "steady t (run_txn t (ClockTx n))"
  by (rule steadyI) (auto simp: db_inv_def tx_inv_def db_le_def)

lemma accept_rows_inv:
  assumes inv: "db_inv db" and t: "tx_inv t db"
    and new: "processed_events db ev = None" "tx_ledger t ev = None"
      "i \<notin> ob_id ` set (outbox_events db)" "i \<notin> ob_id ` set (tx_outbox t)"
    and row: "ob_id r = i" "ob_event_id r = ev" "outbox_row_ok r"
    and l: "ledger_row_ok l" "pe_status l = StatusAccepted" "pe_event_type l = ob_event_type r"
    and db': "db' = db\<lparr>processed_events := (processed_events db)(ev \<mapsto> l),
                     outbox_events := outbox_events db @ [r],
                     outbox_seq := max (outbox_seq db) (Suc i)\<rparr>"
  shows "db_inv db' \<and> tx_inv t db' \<and> db_le db db'"
proof -
  have fresh: "ev \<notin> ob_event_id ` set (outbox_events db)"
    using inv new(1) by (auto simp: db_inv_def accepted_as_def)
  have "accepted_as ((processed_events db)(ev \<mapsto> l)) r'" if "r' \<in> set (outbox_events db)" for r'
  proof -
    from that fresh have "ob_event_id r' \<noteq> ev" by blast
    with that inv show ?thesis by (simp add: db_inv_def accepted_as_def)
  qed
  moreover have "accepted_as ((processed_events db)(ev \<mapsto> l)) r"
    using row l by (simp add: accepted_as_def)
  ultimately have acc: "\<forall>r' \<in> set (outbox_events db'). accepted_as (processed_events db') r'"
    unfolding db' by simp
  have "outbox_complete (processed_events db') (outbox_events db')"
    using inv row unfolding db' by (auto simp: db_inv_def outbox_complete_def)
  moreover have "\<forall>r \<in> ran (processed_events db'). ledger_row_ok r"
    using inv l(1) unfolding db' db_inv_def ran_def by auto
  moreover have "distinct (map ob_id (outbox_events db'))"
      "distinct (map ob_event_id (outbox_events db'))"
    using inv new(3) row fresh unfolding db' db_inv_def by simp_all
  moreover have "\<forall>r' \<in> set (outbox_events db'). outbox_row_ok r' \<and> ob_id r' < outbox_seq db'"
    using inv row unfolding db' db_inv_def by auto
  ultimately have "db_inv db'"
    using inv acc unfolding db_inv_def by (simp add: db')
  moreover have "tx_inv t db'"
    using t new(2,4) row unfolding db' by (auto simp: tx_inv_def image_iff)
  moreover have "db_le db db'"
    using new(1) unfolding db' by (auto simp: db_le_def intro!: map_le_fun_updI)
  ultimately show ?thesis by blast
qed

lemma steady_accept: "steady t (run_txn t (AcceptTx i ev ty p))"
proof (rule steadyI)
  fix db assume inv: "db_inv db" "tx_inv t db"
  show "db_inv (run_txn t (AcceptTx i ev ty p) db) \<and> tx_inv t (run_txn t (AcceptTx i ev ty p) db)
      \<and> db_le db (run_txn t (AcceptTx i ev ty p) db)"
  proof (cases "processed_events db ev \<noteq> None \<or> tx_ledger t ev \<noteq> None
         \<or> ev \<in> ob_event_id ` set (outbox_events db)
         \<or> i \<in> ob_id ` set (outbox_events db @ tx_outbox t) \<or> jsonb_cast db p = None")
    case True
    with inv show ?thesis by auto
  next
    case False
    then obtain j where j: "jsonb_cast db p = Some j" by auto
    show ?thesis
      by (rule accept_rows_inv[OF inv, where ev = ev and i = i and
            r = "\<lparr>ob_id = i, ob_event_id = ev, ob_event_type = ty, ob_payload = j,
                  ob_status = OutboxPending, ob_created_at = db_now db, ob_published_at = None\<rparr>"])
        (use False j in \<open>auto simp: outbox_row_ok_def ledger_row_ok_def\<close>)
  qed
qed

lemmas steady_txns =
  steady_accept steady_process steady_clock steady_mark_outbox steady_insert_completion
  steady_retry steady_reclaim steady_mark_processed steady_mark_failed

lemma run_txn_eqs:
  "run_txn t (PublishTx ev) = (\<lambda>db. snd (sql_mark_outbox OutboxPublished ev OutboxPending db))"
  "run_txn t (ClaimTx ev c ty) =
     (\<lambda>db. snd (sql_insert_completion ev c ty CompletionProcessing db))"
  "run_txn t (RetryTx ev c) = (\<lambda>db. snd (sql_retry_completion ev c CompletionProcessing db))"
  "run_txn t (ReclaimTx ev c) =
     (\<lambda>db. snd (sql_reclaim_completion CompletionProcessing ev c CompletionFailed db))"
  "run_txn t (ProcessedTx ev c) =
     (\<lambda>db. snd (sql_mark_processed CompletionProcessed ev c CompletionProcessing db))"
  "run_txn t (FailedTx ev c err) =
     (\<lambda>db. snd (sql_mark_failed CompletionFailed err ev c CompletionProcessing db))"
  by auto

lemma steady_run_txn: "steady t (run_txn t x)"
  by (cases x) (simp_all only: run_txn_eqs steady_txns)

lemma run_txns_inv:
  "db_inv db \<Longrightarrow> tx_inv t db \<Longrightarrow>
   db_inv (run_txns t xs db) \<and> tx_inv t (run_txns t xs db) \<and> db_le db (run_txns t xs db)"
proof (induction xs arbitrary: db)
  case (Cons x xs)
  then show ?case
    using steadyD[OF steady_run_txn[of t x], of db] by (auto intro: db_le_trans)
qed simp

section \<open>The statements of AcceptEvent and ProcessEvent in a transaction\<close>

lemma insert_ledger_inv:
  assumes "sql_insert_ledger ev ty st t db = (r, db')" "db_inv db" "tx_inv t db"
    and "tx_outbox t = []"
  shows "db' = db \<and> (\<forall>n t'. r = Inr (n, t') \<longrightarrow> tx_inv t' db \<and> tx_outbox t' = [] \<and> tx_now t' = tx_now t)"
  using assms by (auto simp: sql_insert_ledger_def tx_inv_def split: if_splits)

lemma insert_outbox_inv:
  assumes "sql_insert_outbox ev ty p OutboxPending t db = (r, db')"
    and inv: "db_inv db" "tx_inv t db"
    and l: "tx_ledger t ev = Some l" "pe_status l = StatusAccepted" "pe_event_type l = ty"
  shows "db_inv db' \<and> tx_inv t db' \<and> db_le db db' \<and> (\<forall>n t'. r = Inr (n, t') \<longrightarrow> tx_inv t' db')"
proof -
  have seq: "db_inv (db\<lparr>outbox_seq := Suc (outbox_seq db)\<rparr>) \<and>
      tx_inv t (db\<lparr>outbox_seq := Suc (outbox_seq db)\<rparr>) \<and>
      db_le db (db\<lparr>outbox_seq := Suc (outbox_seq db)\<rparr>)"
    using inv by (fastforce simp: db_inv_def tx_inv_def db_le_def)
  have "tx_inv t' db'" if r: "r = Inr (n, t')" for n t'
  proof -
    from assms(1) r obtain j where
      t': "t' = t\<lparr>tx_outbox := tx_outbox t @
             [\<lparr>ob_id = outbox_seq db, ob_event_id = ev, ob_event_type = ty, ob_payload = j,
               ob_status = OutboxPending, ob_created_at = tx_now t, ob_published_at = None\<rparr>]\<rparr>"
      and db': "db' = db\<lparr>outbox_seq := Suc (outbox_seq db)\<rparr>"
      and fresh: "ev \<notin> ob_event_id ` set (tx_outbox t)"
      by (auto simp: sql_insert_outbox_def Let_def split: option.splits if_splits)
    have "outbox_seq db \<notin> ob_id ` set (tx_outbox t)" "outbox_seq db \<notin> ob_id ` set (outbox_events db)"
      using inv by (auto simp: db_inv_def tx_inv_def)
    with fresh inv(2) l show ?thesis
      unfolding t' db' tx_inv_def by (auto simp: accepted_as_def outbox_row_ok_def less_SucI)
  qed
  moreover have "db' = db \<or> db' = db\<lparr>outbox_seq := Suc (outbox_seq db)\<rparr>"
    using assms(1) by (auto simp: sql_insert_outbox_def Let_def split: option.splits if_splits)
  ultimately show ?thesis
    using inv seq by auto
qed

lemma commit_inv:
  assumes inv: "db_inv db" "tx_inv t db"
    and rows: "\<forall>r \<in> ran (tx_ledger t). ledger_row_ok r"
    and complete: "outbox_complete (tx_ledger t) (tx_outbox t)"
  shows "db_inv (snd (sql_commit t db)) \<and> db_le db (snd (sql_commit t db))"
proof -
  let ?m = "processed_events db ++ tx_ledger t"
  let ?rs = "outbox_events db @ tx_outbox t"
  have le: "processed_events db \<subseteq>\<^sub>m ?m"
    using inv(2) by (auto simp: map_le_def map_add_def tx_inv_def split: option.splits)
  have acc: "accepted_as ?m r" if "r \<in> set ?rs" for r
    using that inv le by (auto simp: db_inv_def tx_inv_def accepted_as_def map_add_def map_le_def
        dom_def split: option.splits)
  have ev: "ob_event_id ` set (outbox_events db) \<inter> ob_event_id ` set (tx_outbox t) = {}"
    using inv unfolding db_inv_def tx_inv_def accepted_as_def by force
  have i: "ob_id ` set (outbox_events db) \<inter> ob_id ` set (tx_outbox t) = {}"
  proof -
    have "ob_id r \<notin> ob_id ` set (outbox_events db)" if "r \<in> set (tx_outbox t)" for r
      using inv(2) that by (simp add: tx_inv_def)
    then show ?thesis unfolding disjoint_iff by (metis imageE)
  qed
  have "distinct (map ob_id ?rs)" "distinct (map ob_event_id ?rs)"
    using inv i ev by (simp_all add: db_inv_def tx_inv_def)
  moreover have "outbox_complete ?m ?rs"
  proof -
    have "outbox_complete (processed_events db) (outbox_events db)"
      using inv(1) by (simp add: db_inv_def)
    then show ?thesis
      using complete unfolding outbox_complete_def map_add_Some_iff set_append image_Un by blast
  qed
  moreover have "\<forall>r \<in> ran ?m. ledger_row_ok r"
    using inv(1) rows unfolding db_inv_def ran_def by (auto simp: map_add_Some_iff)
  ultimately have "db_inv (snd (sql_commit t db))"
    using inv acc unfolding db_inv_def tx_inv_def sql_commit_def by auto
  moreover have "db_le db (snd (sql_commit t db))"
    using le by (auto simp: db_le_def sql_commit_def)
  ultimately show ?thesis ..
qed

section \<open>Calls\<close>

text \<open>
  A call either answers what the statement answers on some later database \<open>db\<close>, or fails with
  the statement run or not.
\<close>

lemma pg_call_frame:
  "pg_call t texts f w = (r, w') \<Longrightarrow>
     proc_logs w' = proc_logs w \<and> session.more w' = session.more w"
  by (auto simp: pg_call_def Let_def split: fault.splits if_splits)

lemma pg_call_cases:
  assumes "pg_call t texts f w = (r, w')" "db_inv (pg_db w)" "tx_inv t (pg_db w)"
  obtains
    (ok) db where "db_inv db" "tx_inv t db" "db_le (pg_db w) db"
      "r = fst (f db)" "pg_db w' = snd (f db)"
  | (failed) db m where "db_inv db" "tx_inv t db" "db_le (pg_db w) db"
      "r = Inl (ErrNew m)" "pg_db w' = db \<or> pg_db w' = snd (f db)"
proof -
  let ?db = "run_txns t (sl_others (head_slot (pg_slots w))) (pg_db w)"
  have db: "db_inv ?db" "tx_inv t ?db" "db_le (pg_db w) ?db"
    using run_txns_inv[OF assms(2,3)] by blast+
  have "(r = fst (f ?db) \<and> pg_db w' = snd (f ?db)) \<or>
      (\<exists>m. r = Inl (ErrNew m) \<and> (pg_db w' = ?db \<or> pg_db w' = snd (f ?db)))"
    using assms(1)
    by (auto simp: pg_call_def Let_def after_fault_def split: fault.splits if_splits)
  with db that show ?thesis by blast
qed

lemma pg_call_steady:
  assumes "pg_call t texts f w = (r, w')" "db_inv (pg_db w)" "tx_inv t (pg_db w)"
    and "steady t (\<lambda>db. snd (f db))"
  shows "db_inv (pg_db w') \<and> tx_inv t (pg_db w') \<and> db_le (pg_db w) (pg_db w')"
  using assms(1-3)
proof (cases rule: pg_call_cases)
  case (ok db)
  then show ?thesis using steadyD[OF assms(4), of db] by (metis db_le_trans)
next
  case (failed db m)
  then show ?thesis using steadyD[OF assms(4), of db] by (metis db_le_trans)
qed

text \<open>A call that answers a value answers the statement's.\<close>

lemma pg_call_Inr:
  assumes "pg_call t texts f w = (Inr x, w')" "db_inv (pg_db w)" "tx_inv t (pg_db w)"
  shows "\<exists>db. db_inv db \<and> tx_inv t db \<and> db_le (pg_db w) db \<and> f db = (Inr x, pg_db w')"
  using assms by (cases rule: pg_call_cases) (metis prod.collapse, simp)

text \<open>With an empty schedule and texts Postgres takes, the call is the statement.\<close>

lemma pg_call_alone:
  "pg_slots w = [] \<Longrightarrow> list_all pg_text_ok texts \<Longrightarrow>
   pg_call t texts f w = (fst (f (pg_db w)), w\<lparr>pg_db := snd (f (pg_db w))\<rparr>)"
  by (cases w) (simp add: pg_call_def quiet_def after_fault_def)

end
