(* ===== verification/Store.thy ===== *)
theory Store
  imports Db_Invariant
begin

text \<open>
  The operations of \<open>*Postgres\<close> (internal/store/postgres.go) on a session, call by call, with the
  error prefixes of the code, and the types of internal/store/store.go.  \<open>defer tx.Rollback()\<close>
  is the transaction value being dropped on an early return.
\<close>

section \<open>Types of store.go\<close>

definition CompletionClaimNew :: string where
  [status_simps]: "CompletionClaimNew = ''new''"
definition CompletionClaimRetry :: string where
  [status_simps]: "CompletionClaimRetry = ''retry''"
definition CompletionClaimRetryFromFailed :: string where
  [status_simps]: "CompletionClaimRetryFromFailed = ''retry_from_failed''"
definition CompletionClaimAlreadyProcessed :: string where
  [status_simps]: "CompletionClaimAlreadyProcessed = ''already_processed''"

lemma claim_actions_distinct [simp]:
  "CompletionClaimNew \<noteq> CompletionClaimAlreadyProcessed"
  "CompletionClaimRetry \<noteq> CompletionClaimAlreadyProcessed"
  "CompletionClaimRetryFromFailed \<noteq> CompletionClaimAlreadyProcessed"
  "CompletionClaimAlreadyProcessed \<noteq> CompletionClaimNew"
  "CompletionClaimAlreadyProcessed \<noteq> CompletionClaimRetry"
  "CompletionClaimAlreadyProcessed \<noteq> CompletionClaimRetryFromFailed"
  "CompletionClaimNew \<noteq> CompletionClaimRetry" "CompletionClaimRetry \<noteq> CompletionClaimNew"
  "CompletionClaimNew \<noteq> CompletionClaimRetryFromFailed"
  "CompletionClaimRetryFromFailed \<noteq> CompletionClaimNew"
  "CompletionClaimRetry \<noteq> CompletionClaimRetryFromFailed"
  "CompletionClaimRetryFromFailed \<noteq> CompletionClaimRetry"
  by (simp_all add: status_simps)

record CompletionClaim =
  claim_Action :: string
  claim_AttemptCount :: int

record EventStatus =
  es_Status :: string
  es_Found :: bool

record OutboxStatus =
  os_Found :: bool
  os_Status :: string
  os_Payload :: string

record CompletionStatus =
  cs_Found :: bool
  cs_Status :: string
  cs_AttemptCount :: int
  cs_Error :: string

record OutboxRow =
  or_EventID :: string
  or_Payload :: string

section \<open>NewPostgres and Ping\<close>

text \<open>
  \<open>sql.Open\<close> and the ping answer for the driver and the server: \<open>open_err\<close> is what \<open>sql.Open\<close>
  answers for the DSN.  The ping is a call like the others.
\<close>

definition Ping :: "('s session_scheme, unit) io" where
  "Ping = pg_call no_tx [] (\<lambda>db. (Inr (), db))"

definition NewPostgres :: "(string \<Rightarrow> go_error option) \<Rightarrow> string \<Rightarrow> ('s session_scheme, unit) io" where
  "NewPostgres open_err dsn w =
     (case open_err dsn of
        Some e \<Rightarrow> (Inl (ErrWrap ''store: open postgres'' e), w)
      | None \<Rightarrow>
          (case Ping w of
             (Inl e, w') \<Rightarrow> (Inl (ErrWrap ''store: ping postgres'' e), w')
           | (Inr u, w') \<Rightarrow> (Inr u, w')))"

section \<open>Ledger and outbox\<close>

definition Status :: "string \<Rightarrow> ('s session_scheme, EventStatus) io" where
  "Status eventID w =
     (case db_Query [eventID] (sql_select_status eventID) w of
        (Inl e, w') \<Rightarrow>
          if errors_Is_NoRows e then (Inr \<lparr>es_Status = [], es_Found = False\<rparr>, w')
          else (Inl (ErrWrap ''store: select status'' e), w')
      | (Inr st, w') \<Rightarrow> (Inr \<lparr>es_Status = st, es_Found = True\<rparr>, w'))"

definition ProcessEvent ::
  "string \<Rightarrow> string \<Rightarrow> ('s session_scheme \<Rightarrow> go_error option \<times> 's session_scheme) option
   \<Rightarrow> ('s session_scheme, bool) io" where
  "ProcessEvent eventID eventType fn w =
     (case BeginTx w of
        (Inl e, w1) \<Rightarrow> (Inl (ErrWrap ''store: begin tx'' e), w1)
      | (Inr t, w1) \<Rightarrow>
     (case tx_Exec t [eventID, eventType, StatusProcessing]
             (sql_insert_ledger eventID eventType StatusProcessing) w1 of
        (Inl e, w2) \<Rightarrow> (Inl (ErrWrap ''store: insert claim'' e), w2)
      | (Inr (Inl e, t1), w2) \<Rightarrow> (Inl (ErrWrap ''store: rows affected'' e), w2)
      | (Inr (Inr n, t1), w2) \<Rightarrow>
          if n = 0 then (Inr False, w2)
          else
     (case (case fn of None \<Rightarrow> (None, w2) | Some f \<Rightarrow> f w2) of
        (Some e, w3) \<Rightarrow> (Inl (ErrWrap ''store: process fn'' e), w3)
      | (None, w3) \<Rightarrow>
     (case tx_Exec t1 [StatusProcessed, eventID]
             (sql_update_ledger StatusProcessed eventID) w3 of
        (Inl e, w4) \<Rightarrow> (Inl (ErrWrap ''store: mark processed'' e), w4)
      | (Inr (_, t2), w4) \<Rightarrow>
     (case Commit t2 w4 of
        (Inl e, w5) \<Rightarrow> (Inl (ErrWrap ''store: commit'' e), w5)
      | (Inr _, w5) \<Rightarrow> (Inr True, w5))))))"

definition AcceptEvent :: "string \<Rightarrow> string \<Rightarrow> string \<Rightarrow> ('s session_scheme, bool) io" where
  "AcceptEvent eventID eventType jobPayload w =
     (case BeginTx w of
        (Inl e, w1) \<Rightarrow> (Inl (ErrWrap ''store: begin tx'' e), w1)
      | (Inr t, w1) \<Rightarrow>
     (case tx_Exec t [eventID, eventType, StatusAccepted]
             (sql_insert_ledger eventID eventType StatusAccepted) w1 of
        (Inl e, w2) \<Rightarrow> (Inl (ErrWrap ''store: insert ledger'' e), w2)
      | (Inr (Inl e, t1), w2) \<Rightarrow> (Inl (ErrWrap ''store: rows affected'' e), w2)
      | (Inr (Inr n, t1), w2) \<Rightarrow>
          if n = 0 then (Inr False, w2)
          else
     (case tx_Exec t1 [eventID, eventType, jobPayload, OutboxPending]
             (sql_insert_outbox eventID eventType jobPayload OutboxPending) w2 of
        (Inl e, w3) \<Rightarrow> (Inl (ErrWrap ''store: insert outbox'' e), w3)
      | (Inr (_, t2), w3) \<Rightarrow>
     (case Commit t2 w3 of
        (Inl e, w4) \<Rightarrow> (Inl (ErrWrap ''store: commit'' e), w4)
      | (Inr _, w4) \<Rightarrow> (Inr True, w4)))))"

definition OutboxStatus_of :: "string \<Rightarrow> ('s session_scheme, OutboxStatus) io" where
  "OutboxStatus_of eventID w =
     (case db_Query [eventID] (sql_select_outbox eventID) w of
        (Inl e, w') \<Rightarrow>
          if errors_Is_NoRows e
          then (Inr \<lparr>os_Found = False, os_Status = [], os_Payload = []\<rparr>, w')
          else (Inl (ErrWrap ''store: select outbox'' e), w')
      | (Inr (st, payload), w') \<Rightarrow>
          (Inr \<lparr>os_Found = True, os_Status = st, os_Payload = payload\<rparr>, w'))"

definition NextPendingOutbox :: "('s session_scheme, OutboxRow option) io" where
  "NextPendingOutbox w =
     (case db_Query [OutboxPending] (sql_next_outbox OutboxPending) w of
        (Inl e, w') \<Rightarrow>
          if errors_Is_NoRows e then (Inr None, w')
          else (Inl (ErrWrap ''store: select next pending outbox'' e), w')
      | (Inr (ev, payload), w') \<Rightarrow> (Inr (Some \<lparr>or_EventID = ev, or_Payload = payload\<rparr>), w'))"

definition MarkOutboxPublished :: "string \<Rightarrow> ('s session_scheme, bool) io" where
  "MarkOutboxPublished eventID w =
     (case db_Exec [OutboxPublished, eventID, OutboxPending]
             (sql_mark_outbox OutboxPublished eventID OutboxPending) w of
        (Inl e, w') \<Rightarrow> (Inl (ErrWrap ''store: mark outbox published'' e), w')
      | (Inr (Inl e), w') \<Rightarrow> (Inl (ErrWrap ''store: rows affected'' e), w')
      | (Inr (Inr n), w') \<Rightarrow> (Inr (n = 1), w'))"

section \<open>Consumer completions\<close>

text \<open>\<open>%q\<close> of a status word, which needs no escapes.\<close>

definition go_quote :: "string \<Rightarrow> string" where
  "go_quote s = CHR 0x22 # s @ [CHR 0x22]"

definition ClaimConsumerCompletion ::
  "string \<Rightarrow> string \<Rightarrow> string \<Rightarrow> ('s session_scheme, CompletionClaim) io" where
  "ClaimConsumerCompletion eventID consumerName eventType w =
     (case db_Exec [eventID, consumerName, eventType, CompletionProcessing]
             (sql_insert_completion eventID consumerName eventType CompletionProcessing) w of
        (Inl e, w1) \<Rightarrow> (Inl (ErrWrap ''store: insert consumer completion'' e), w1)
      | (Inr (Inl e), w1) \<Rightarrow> (Inl (ErrWrap ''store: rows affected'' e), w1)
      | (Inr (Inr n), w1) \<Rightarrow>
          if n = 1
          then (Inr \<lparr>claim_Action = CompletionClaimNew, claim_AttemptCount = 1\<rparr>, w1)
          else
     (case db_Query [eventID, consumerName] (sql_select_completion eventID consumerName) w1 of
        (Inl e, w2) \<Rightarrow> (Inl (ErrWrap ''store: select consumer completion'' e), w2)
      | (Inr (status, attemptCount, _), w2) \<Rightarrow>
          if status = CompletionProcessed
          then (Inr \<lparr>claim_Action = CompletionClaimAlreadyProcessed,
                     claim_AttemptCount = attemptCount\<rparr>, w2)
          else if status = CompletionProcessing then
            (case db_Query [eventID, consumerName, CompletionProcessing]
                    (sql_retry_completion eventID consumerName CompletionProcessing) w2 of
               (Inl e, w3) \<Rightarrow> (Inl (ErrWrap ''store: retry consumer completion'' e), w3)
             | (Inr k, w3) \<Rightarrow>
                 (Inr \<lparr>claim_Action = CompletionClaimRetry, claim_AttemptCount = k\<rparr>, w3))
          else if status = CompletionFailed then
            (case db_Query [CompletionProcessing, eventID, consumerName, CompletionFailed]
                    (sql_reclaim_completion CompletionProcessing eventID consumerName
                       CompletionFailed) w2 of
               (Inl e, w3) \<Rightarrow> (Inl (ErrWrap ''store: reclaim failed consumer completion'' e), w3)
             | (Inr k, w3) \<Rightarrow>
                 (Inr \<lparr>claim_Action = CompletionClaimRetryFromFailed,
                        claim_AttemptCount = k\<rparr>, w3))
          else (Inl (ErrNew (''store: unexpected consumer completion status '' @ go_quote status)), w2)))"

definition MarkConsumerProcessed :: "string \<Rightarrow> string \<Rightarrow> ('s session_scheme, bool) io" where
  "MarkConsumerProcessed eventID consumerName w =
     (case db_Exec [CompletionProcessed, eventID, consumerName, CompletionProcessing]
             (sql_mark_processed CompletionProcessed eventID consumerName CompletionProcessing) w of
        (Inl e, w') \<Rightarrow> (Inl (ErrWrap ''store: mark consumer processed'' e), w')
      | (Inr (Inl e), w') \<Rightarrow> (Inl (ErrWrap ''store: rows affected'' e), w')
      | (Inr (Inr n), w') \<Rightarrow> (Inr (n = 1), w'))"

definition MarkConsumerFailed :: "string \<Rightarrow> string \<Rightarrow> string \<Rightarrow> ('s session_scheme, bool) io" where
  "MarkConsumerFailed eventID consumerName errMsg w =
     (case db_Exec [CompletionFailed, errMsg, eventID, consumerName, CompletionProcessing]
             (sql_mark_failed CompletionFailed errMsg eventID consumerName CompletionProcessing) w of
        (Inl e, w') \<Rightarrow> (Inl (ErrWrap ''store: mark consumer failed'' e), w')
      | (Inr (Inl e), w') \<Rightarrow> (Inl (ErrWrap ''store: rows affected'' e), w')
      | (Inr (Inr n), w') \<Rightarrow> (Inr (n = 1), w'))"

definition CompletionStatus_of ::
  "string \<Rightarrow> string \<Rightarrow> ('s session_scheme, CompletionStatus) io" where
  "CompletionStatus_of eventID consumerName w =
     (case db_Query [eventID, consumerName] (sql_select_completion eventID consumerName) w of
        (Inl e, w') \<Rightarrow>
          if errors_Is_NoRows e
          then (Inr \<lparr>cs_Found = False, cs_Status = [], cs_AttemptCount = 0, cs_Error = []\<rparr>, w')
          else (Inl (ErrWrap ''store: select consumer completion status'' e), w')
      | (Inr (status, attemptCount, errMsg), w') \<Rightarrow>
          (Inr \<lparr>cs_Found = True, cs_Status = status, cs_AttemptCount = attemptCount,
                 cs_Error = (case errMsg of None \<Rightarrow> [] | Some m \<Rightarrow> m)\<rparr>, w'))"

text \<open>Used by the integration tests only: nothing in the binaries calls it.\<close>

definition TruncateLedger :: "('s session_scheme, unit) io" where
  "TruncateLedger = pg_call no_tx [] sql_truncate"

end
