(* ===== verification/Store_Facts.thy ===== *)
theory Store_Facts
  imports Store
begin

text \<open>
  Every operation of the store keeps the schema invariant and only makes progress, under any
  schedule of faults and of other clients' transactions; and what each result says of the
  database when the operation returns.
\<close>

section \<open>Preservation\<close>

definition preserves :: "('s session_scheme, 'a) io \<Rightarrow> bool" where
  "preserves op \<longleftrightarrow>
     (\<forall>w r w'. op w = (r, w') \<longrightarrow> db_inv (pg_db w) \<longrightarrow>
        db_inv (pg_db w') \<and> db_le (pg_db w) (pg_db w') \<and>
        proc_logs w' = proc_logs w \<and> session.more w' = session.more w)"

lemma preservesI:
  "(\<And>w r w'. op w = (r, w') \<Longrightarrow> db_inv (pg_db w) \<Longrightarrow>
      db_inv (pg_db w') \<and> db_le (pg_db w) (pg_db w') \<and>
      proc_logs w' = proc_logs w \<and> session.more w' = session.more w)
   \<Longrightarrow> preserves op"
  by (simp add: preserves_def)

lemma preservesD:
  assumes "preserves op" "op w = (r, w')" "db_inv (pg_db w)"
  shows "db_inv (pg_db w')" "db_le (pg_db w) (pg_db w')" "proc_logs w' = proc_logs w"
    "session.more w' = session.more w"
  using assms by (auto simp: preserves_def)

lemma preserves_call:
  "steady no_tx (\<lambda>db. snd (f db)) \<Longrightarrow> preserves (pg_call no_tx texts f)"
  by (rule preservesI) (use pg_call_steady pg_call_frame tx_inv_no_tx in blast)

lemma preserves_Query:
  "steady no_tx (\<lambda>db. snd (f db)) \<Longrightarrow> preserves (db_Query texts f)"
  by (simp add: db_Query_def preserves_call)

lemma preserves_Exec:
  assumes "steady no_tx (\<lambda>db. snd (f db))" shows "preserves (db_Exec texts f)"
proof (rule preservesI)
  fix w :: "'a session_scheme" and r w' assume "db_Exec texts f w = (r, w')" "db_inv (pg_db w)"
  then show "db_inv (pg_db w') \<and> db_le (pg_db w) (pg_db w') \<and>
      proc_logs w' = proc_logs w \<and> session.more w' = session.more w"
    using preservesD[OF preserves_call[OF assms]]
    by (fastforce simp: db_Exec_def split: prod.splits sum.splits)
qed

text \<open>Operations that run one call and turn its result into their own.\<close>

lemma preserves_after:
  assumes "preserves op" "\<And>w. snd (op' w) = snd (op w)"
  shows "preserves op'"
proof (rule preservesI)
  fix w r w' assume "op' w = (r, w')" "db_inv (pg_db w)"
  moreover from this assms(2)[of w] have "op w = (fst (op w), w')" by (metis prod.collapse snd_conv)
  ultimately show "db_inv (pg_db w') \<and> db_le (pg_db w) (pg_db w') \<and>
      proc_logs w' = proc_logs w \<and> session.more w' = session.more w"
    using preservesD[OF assms(1)] by blast
qed

lemma steady_selects:
  "steady t (\<lambda>db. snd (sql_select_status ev db))"
  "steady t (\<lambda>db. snd (sql_select_outbox ev db))"
  "steady t (\<lambda>db. snd (sql_next_outbox st db))"
  "steady t (\<lambda>db. snd (sql_select_completion ev c db))"
  by (simp_all add: steady_id sql_select_status_def sql_select_outbox_def sql_next_outbox_def
      sql_select_completion_def)

lemma preserves_Ping: "preserves Ping"
  unfolding Ping_def by (rule preserves_call) (simp add: steady_id)

lemma preserves_NewPostgres: "preserves (NewPostgres open_err dsn)"
proof (rule preservesI)
  fix w :: "'a session_scheme" and r w1
  assume op: "NewPostgres open_err dsn w = (r, w1)" and inv: "db_inv (pg_db w)"
  obtain u w2 where u: "Ping w = (u, w2)" by fastforce
  from preservesD[OF preserves_Ping u inv] op u inv
  show "db_inv (pg_db w1) \<and> db_le (pg_db w) (pg_db w1) \<and> proc_logs w1 = proc_logs w \<and>
      session.more w1 = session.more w"
    by (auto simp: NewPostgres_def split: option.splits sum.splits)
qed

text \<open>The operations of one call leave the world that call leaves.\<close>

lemma single_call_worlds:
  "snd (Status ev w) = snd (db_Query [ev] (sql_select_status ev) w)"
  "snd (OutboxStatus_of ev w) = snd (db_Query [ev] (sql_select_outbox ev) w)"
  "snd (NextPendingOutbox w) = snd (db_Query [OutboxPending] (sql_next_outbox OutboxPending) w)"
  "snd (CompletionStatus_of ev c w) = snd (db_Query [ev, c] (sql_select_completion ev c) w)"
  "snd (MarkOutboxPublished ev w) = snd (db_Exec [OutboxPublished, ev, OutboxPending]
     (sql_mark_outbox OutboxPublished ev OutboxPending) w)"
  "snd (MarkConsumerProcessed ev c w) =
     snd (db_Exec [CompletionProcessed, ev, c, CompletionProcessing]
       (sql_mark_processed CompletionProcessed ev c CompletionProcessing) w)"
  "snd (MarkConsumerFailed ev c m w) =
     snd (db_Exec [CompletionFailed, m, ev, c, CompletionProcessing]
       (sql_mark_failed CompletionFailed m ev c CompletionProcessing) w)"
  by (auto simp: Status_def OutboxStatus_of_def NextPendingOutbox_def CompletionStatus_of_def
      MarkOutboxPublished_def MarkConsumerProcessed_def MarkConsumerFailed_def
      split: prod.splits sum.splits)

lemmas preserves_single_call =
  preserves_after[OF preserves_Query[OF steady_selects(1)] single_call_worlds(1)]
  preserves_after[OF preserves_Query[OF steady_selects(2)] single_call_worlds(2)]
  preserves_after[OF preserves_Query[OF steady_selects(3)] single_call_worlds(3)]
  preserves_after[OF preserves_Query[OF steady_selects(4)] single_call_worlds(4)]
  preserves_after[OF preserves_Exec[OF steady_mark_outbox] single_call_worlds(5)]
  preserves_after[OF preserves_Exec[OF steady_mark_processed] single_call_worlds(6)]
  preserves_after[OF preserves_Exec[OF steady_mark_failed] single_call_worlds(7)]

lemma preserves_Status: "preserves (Status ev)"
  and preserves_OutboxStatus: "preserves (OutboxStatus_of ev)"
  and preserves_NextPendingOutbox: "preserves NextPendingOutbox"
  and preserves_CompletionStatus: "preserves (CompletionStatus_of ev c)"
  and preserves_MarkOutboxPublished: "preserves (MarkOutboxPublished ev)"
  and preserves_MarkConsumerProcessed: "preserves (MarkConsumerProcessed ev c)"
  and preserves_MarkConsumerFailed: "preserves (MarkConsumerFailed ev c m)"
  by (rule preserves_single_call)+

lemmas claim_calls =
  preservesD[OF preserves_Exec[OF steady_insert_completion]]
  preservesD[OF preserves_Query[OF steady_selects(4)]]
  preservesD[OF preserves_Query[OF steady_retry]]
  preservesD[OF preserves_Query[OF steady_reclaim]]

text \<open>The ways through a claim: an error, or one of the four answers after its last call.\<close>

lemma claim_paths:
  assumes op: "ClaimConsumerCompletion ev c ty w = (r, w')"
    and 1: "db_Exec [ev, c, ty, CompletionProcessing]
      (sql_insert_completion ev c ty CompletionProcessing) w = (r1, w1)"
    and 2: "db_Query [ev, c] (sql_select_completion ev c) w1 = (r2, w2)"
    and 3: "db_Query [ev, c, CompletionProcessing]
      (sql_retry_completion ev c CompletionProcessing) w2 = (r3, w3)"
    and 4: "db_Query [CompletionProcessing, ev, c, CompletionFailed]
      (sql_reclaim_completion CompletionProcessing ev c CompletionFailed) w2 = (r4, w4)"
  obtains
    (error) e where "r = Inl e" "w' \<in> {w1, w2, w3, w4}"
  | (new) "r1 = Inr (Inr 1)" "w' = w1"
      "r = Inr \<lparr>claim_Action = CompletionClaimNew, claim_AttemptCount = 1\<rparr>"
  | (processed) k m where "r2 = Inr (CompletionProcessed, k, m)" "w' = w2"
      "r = Inr \<lparr>claim_Action = CompletionClaimAlreadyProcessed, claim_AttemptCount = k\<rparr>"
  | (retry) k where "r3 = Inr k" "w' = w3"
      "r = Inr \<lparr>claim_Action = CompletionClaimRetry, claim_AttemptCount = k\<rparr>"
  | (reclaim) k where "r4 = Inr k" "w' = w4"
      "r = Inr \<lparr>claim_Action = CompletionClaimRetryFromFailed, claim_AttemptCount = k\<rparr>"
proof (cases r1)
  case (Inl e)
  with op 1 error show thesis by (auto simp: ClaimConsumerCompletion_def)
next
  case r1: (Inr ra)
  show thesis
  proof (cases ra)
    case (Inl e)
    with op 1 r1 error show thesis by (auto simp: ClaimConsumerCompletion_def)
  next
    case ra: (Inr n)
    show thesis
    proof (cases "n = 1")
      case True
      with op 1 r1 ra new show thesis by (auto simp: ClaimConsumerCompletion_def)
    next
      case False
      then have neq: "n \<noteq> Suc 0" by simp
      note op2 = op[unfolded ClaimConsumerCompletion_def 1 r1 ra, simplified, unfolded 2, simplified neq]
      show thesis
      proof (cases r2)
        case (Inl e)
        with op2 error show thesis by auto
      next
        case r2: (Inr x)
        obtain st k m where x: "x = (st, k, m)" by (cases x) auto
        consider "st = CompletionProcessed" | "st = CompletionProcessing" | "st = CompletionFailed" |
          "st \<notin> {CompletionProcessed, CompletionProcessing, CompletionFailed}" by blast
        then show thesis
        proof cases
          case 1
          with op2 r2 x processed show thesis by auto
        next
          case 2
          with op2 r2 x 3 retry error show thesis by (cases r3) auto
        next
          case 3
          with op2 r2 x 4 reclaim error show thesis by (cases r4) auto
        next
          case 4
          with op2 r2 x error show thesis by auto
        qed
      qed
    qed
  qed
qed

lemma preserves_Claim: "preserves (ClaimConsumerCompletion ev c ty)"
proof (rule preservesI)
  fix w :: "'a session_scheme" and r w'
  assume op: "ClaimConsumerCompletion ev c ty w = (r, w')" and inv: "db_inv (pg_db w)"
  obtain r1 w1 where 1: "db_Exec [ev, c, ty, CompletionProcessing]
      (sql_insert_completion ev c ty CompletionProcessing) w = (r1, w1)" by fastforce
  obtain r2 w2 where 2: "db_Query [ev, c] (sql_select_completion ev c) w1 = (r2, w2)" by fastforce
  obtain r3 w3 where 3: "db_Query [ev, c, CompletionProcessing]
      (sql_retry_completion ev c CompletionProcessing) w2 = (r3, w3)" by fastforce
  obtain r4 w4 where 4: "db_Query [CompletionProcessing, ev, c, CompletionFailed]
      (sql_reclaim_completion CompletionProcessing ev c CompletionFailed) w2 = (r4, w4)" by fastforce
  note s1 = claim_calls(1-4)[OF 1 inv]
  note s2 = claim_calls(5-8)[OF 2 s1(1)]
  note s3 = claim_calls(9-12)[OF 3 s2(1)]
  note s4 = claim_calls(13-16)[OF 4 s2(1)]
  note le2 = db_le_trans[OF s1(2) s2(2)]
  note les = s1(2) le2 db_le_trans[OF le2 s3(2)] db_le_trans[OF le2 s4(2)]
  from op 1 2 3 4 show "db_inv (pg_db w') \<and> db_le (pg_db w) (pg_db w') \<and>
      proc_logs w' = proc_logs w \<and> session.more w' = session.more w"
    by (cases rule: claim_paths)
       (use s1(1,3,4) s2(1,3,4) s3(1,3,4) s4(1,3,4) les in auto)
qed

section \<open>The transactions\<close>

lemma BeginTx_facts:
  assumes "BeginTx w = (r, w')" "db_inv (pg_db w)"
  shows "db_inv (pg_db w') \<and> db_le (pg_db w) (pg_db w') \<and>
         proc_logs w' = proc_logs w \<and> session.more w' = session.more w \<and>
         (\<forall>t. r = Inr t \<longrightarrow> tx_ledger t = Map.empty \<and> tx_outbox t = [])"
proof -
  have "steady no_tx (\<lambda>db. snd (Inr (tx_start db) :: tx result, db))" by (simp add: steady_id)
  from pg_call_steady[OF assms(1)[unfolded BeginTx_def] assms(2) tx_inv_no_tx this]
    pg_call_frame[OF assms(1)[unfolded BeginTx_def]]
  have *: "db_inv (pg_db w') \<and> db_le (pg_db w) (pg_db w') \<and>
      proc_logs w' = proc_logs w \<and> session.more w' = session.more w" by blast
  have "tx_ledger t = Map.empty \<and> tx_outbox t = []" if "r = Inr t" for t
    using pg_call_Inr[OF assms(1)[unfolded BeginTx_def that] assms(2) tx_inv_no_tx]
    by (auto simp: tx_start_def)
  with * show ?thesis by blast
qed

lemma tx_inv_empty: "tx_ledger t = Map.empty \<Longrightarrow> tx_outbox t = [] \<Longrightarrow> tx_inv t db"
  by (simp add: tx_inv_def)

text \<open>What a \<open>tx_Exec\<close> call leaves, from the facts about its statement.\<close>

lemma tx_Exec_cases:
  assumes "tx_Exec t texts f w = (r, w')" "db_inv (pg_db w)" "tx_inv t (pg_db w)"
  obtains
    (ok) db n t' where "db_inv db" "tx_inv t db" "db_le (pg_db w) db"
      "f t db = (Inr (n, t'), pg_db w')" "r = Inr (rows_affected w n, t')"
  | (failed) db e where "db_inv db" "tx_inv t db" "db_le (pg_db w) db"
      "r = Inl e" "pg_db w' = db \<or> pg_db w' = snd (f t db)"
proof -
  obtain r1 where call: "pg_call t texts (f t) w = (r1, w')"
    using assms(1) by (auto simp: tx_Exec_def split: prod.splits sum.splits)
  from call assms(2,3) show ?thesis
  proof (cases rule: pg_call_cases)
    case (ok db)
    show ?thesis
    proof (cases "fst (f t db)")
      case (Inl e)
      with ok call assms(1) that(2)[of db e] show ?thesis
        by (auto simp: tx_Exec_def)
    next
      case (Inr x)
      with ok call assms(1) that(1)[of db "fst x" "snd x"] show ?thesis
        by (auto simp: tx_Exec_def prod_eq_iff split: prod.splits)
    qed
  next
    case (failed db m)
    with call assms(1) that(2)[of db "ErrNew m"] show ?thesis
      by (auto simp: tx_Exec_def)
  qed
qed

lemma tx_Exec_frame:
  "tx_Exec t texts f w = (r, w') \<Longrightarrow>
     proc_logs w' = proc_logs w \<and> session.more w' = session.more w"
  unfolding tx_Exec_def using pg_call_frame by (fastforce split: prod.splits sum.splits)

text \<open>The claim of a transaction that has no rows yet.\<close>

definition claimed_row :: "string \<Rightarrow> string \<Rightarrow> string \<Rightarrow> tx \<Rightarrow> bool" where
  "claimed_row ev ty st t \<longleftrightarrow> tx_outbox t = [] \<and>
     (\<exists>l. tx_ledger t = [ev \<mapsto> l] \<and> pe_event_type l = ty \<and> pe_status l = st \<and>
          pe_processed_at l = None \<and> pe_failed_at l = None \<and> pe_error_message l = None)"

lemma tx_insert_ledger:
  assumes call: "tx_Exec t texts (sql_insert_ledger ev ty st) w = (r, w')"
    and inv: "db_inv (pg_db w)"
    and t: "tx_ledger t = Map.empty" "tx_outbox t = []" and st: "ledger_status_check st"
  shows "db_inv (pg_db w') \<and> db_le (pg_db w) (pg_db w') \<and>
     proc_logs w' = proc_logs w \<and> session.more w' = session.more w \<and>
     (\<forall>ra t1. r = Inr (ra, t1) \<longrightarrow> tx_inv t1 (pg_db w') \<and>
        (\<forall>n. ra = Inr n \<longrightarrow>
           (if n = 0 then processed_events (pg_db w') ev \<noteq> None else claimed_row ev ty st t1)))"
  using call inv tx_inv_empty[OF t]
proof (cases rule: tx_Exec_cases)
  case (ok db n t')
  from insert_ledger_inv[OF ok(4,1,2) t(2)] have "pg_db w' = db" "tx_inv t' db" by auto
  moreover have "if n = 0 then processed_events db ev \<noteq> None else claimed_row ev ty st t'"
    using ok(4) t st by (auto simp: sql_insert_ledger_def claimed_row_def split: if_splits)
  ultimately show ?thesis
    using ok tx_Exec_frame[OF call]
    by (auto simp: rows_affected_def split: fault.splits)
next
  case (failed db e)
  then have "pg_db w' = db"
    using insert_ledger_inv[OF _ failed(1,2) t(2), of ev ty st] by (metis prod.collapse)
  with failed tx_Exec_frame[OF call] show ?thesis by auto
qed

lemma tx_insert_outbox:
  assumes call: "tx_Exec t texts (sql_insert_outbox ev ty p OutboxPending) w = (r, w')"
    and inv: "db_inv (pg_db w)" "tx_inv t (pg_db w)" and t: "claimed_row ev ty StatusAccepted t"
  shows "db_inv (pg_db w') \<and> db_le (pg_db w) (pg_db w') \<and>
     proc_logs w' = proc_logs w \<and> session.more w' = session.more w \<and>
     (\<forall>ra t1. r = Inr (ra, t1) \<longrightarrow> tx_inv t1 (pg_db w') \<and> tx_ledger t1 = tx_ledger t \<and>
        (\<exists>row. tx_outbox t1 = [row] \<and> ob_event_id row = ev \<and> ob_event_type row = ty \<and>
           ob_status row = OutboxPending \<and> jsonb_cast (pg_db w') p = Some (ob_payload row)))"
  using call inv
proof (cases rule: tx_Exec_cases)
  case (ok db n t')
  from t obtain l where l: "tx_ledger t ev = Some l" "pe_status l = StatusAccepted"
      "pe_event_type l = ty" "tx_outbox t = []" by (auto simp: claimed_row_def)
  from insert_outbox_inv[OF ok(4,1,2) l(1-3)] ok(3)
  have "db_inv (pg_db w')" "db_le (pg_db w) (pg_db w')" "tx_inv t' (pg_db w')"
    and cast: "jsonb_cast (pg_db w') = jsonb_cast db"
    by (auto simp: db_le_def[of db] intro: db_le_trans)
  moreover have "tx_ledger t' = tx_ledger t \<and>
      (\<exists>row. tx_outbox t' = [row] \<and> ob_event_id row = ev \<and> ob_event_type row = ty \<and>
           ob_status row = OutboxPending \<and> jsonb_cast (pg_db w') p = Some (ob_payload row))"
    using ok(4) l(4) unfolding cast
    by (auto simp: sql_insert_outbox_def Let_def split: option.splits if_splits)
  ultimately show ?thesis using ok(5) tx_Exec_frame[OF call] by auto
next
  case (failed db e)
  from t obtain l where l: "tx_ledger t ev = Some l" "pe_status l = StatusAccepted"
      "pe_event_type l = ty" by (auto simp: claimed_row_def)
  have "db_inv (pg_db w') \<and> db_le db (pg_db w')"
    using insert_outbox_inv[OF _ failed(1,2) l, of p] failed(1,5) by (metis db_le_refl prod.collapse)
  with failed tx_Exec_frame[OF call] show ?thesis by (auto intro: db_le_trans)
qed

lemma Commit_facts:
  assumes call: "Commit t w = (r, w')" and inv: "db_inv (pg_db w)" "tx_inv t (pg_db w)"
    and rows: "\<forall>r \<in> ran (tx_ledger t). ledger_row_ok r"
    and complete: "outbox_complete (tx_ledger t) (tx_outbox t)"
  shows "db_inv (pg_db w') \<and> db_le (pg_db w) (pg_db w') \<and>
     proc_logs w' = proc_logs w \<and> session.more w' = session.more w \<and>
     (\<forall>u. r = Inr u \<longrightarrow> (\<exists>db. tx_inv t db \<and> db_le (pg_db w) db \<and> pg_db w' = snd (sql_commit t db)))"
  using call[unfolded Commit_def] inv
proof (cases rule: pg_call_cases)
  case (ok db)
  with commit_inv[OF ok(1,2) rows complete] show ?thesis
    using pg_call_frame[OF call[unfolded Commit_def]] by (auto intro: db_le_trans)
next
  case (failed db m)
  with commit_inv[OF failed(1,2) rows complete] show ?thesis
    using pg_call_frame[OF call[unfolded Commit_def]] by (auto intro: db_le_trans)
qed

section \<open>AcceptEvent\<close>

text \<open>
  What the caller may conclude: \<open>Inr True\<close> is a durable ledger row with its pending outbox row,
  and the event was not in the ledger before; \<open>Inr False\<close> means the ledger has the event.
\<close>

definition accept_post ::
  "string \<Rightarrow> string \<Rightarrow> string \<Rightarrow> bool result \<Rightarrow> database \<Rightarrow> database \<Rightarrow> bool" where
  "accept_post ev ty p r db db' \<longleftrightarrow>
     (r = Inr True \<longrightarrow> processed_events db ev = None \<and>
        (\<exists>l. processed_events db' ev = Some l \<and> pe_status l = StatusAccepted \<and>
             pe_event_type l = ty) \<and>
        (\<exists>row \<in> set (outbox_events db'). ob_event_id row = ev \<and> ob_event_type row = ty \<and>
             ob_status row = OutboxPending \<and> jsonb_cast db' p = Some (ob_payload row))) \<and>
     (r = Inr False \<longrightarrow> processed_events db' ev \<noteq> None)"

lemma claimed_row_complete:
  assumes "claimed_row ev ty StatusAccepted t1" "tx_ledger t2 = tx_ledger t1"
    and "tx_outbox t2 = [row]" "ob_event_id row = ev"
  shows "(\<forall>r \<in> ran (tx_ledger t2). ledger_row_ok r) \<and> outbox_complete (tx_ledger t2) (tx_outbox t2)"
  using assms
  by (auto simp: claimed_row_def ledger_row_ok_def outbox_complete_def split: if_splits)

text \<open>The second half of \<open>AcceptEvent\<close>, from the claim on.\<close>

lemma accept_tail:
  assumes op: "(case tx_Exec t1 [ev, ty, p, OutboxPending]
             (sql_insert_outbox ev ty p OutboxPending) w of
        (Inl e, w3) \<Rightarrow> (Inl (ErrWrap ''store: insert outbox'' e), w3)
      | (Inr (_, t2), w3) \<Rightarrow>
          (case Commit t2 w3 of
             (Inl e, w4) \<Rightarrow> (Inl (ErrWrap ''store: commit'' e), w4)
           | (Inr _, w4) \<Rightarrow> (Inr True, w4))) = (r, w')"
    and inv: "db_inv (pg_db w)" "tx_inv t1 (pg_db w)"
    and t1: "claimed_row ev ty StatusAccepted t1"
  shows "db_inv (pg_db w') \<and> db_le (pg_db w) (pg_db w') \<and> proc_logs w' = proc_logs w \<and>
    session.more w' = session.more w \<and> accept_post ev ty p r (pg_db w) (pg_db w')"
proof -
  obtain d w3 where 3: "tx_Exec t1 [ev, ty, p, OutboxPending]
      (sql_insert_outbox ev ty p OutboxPending) w = (d, w3)" by fastforce
  note f3 = tx_insert_outbox[OF 3 inv t1]
  show ?thesis
  proof (cases d)
    case (Inl e)
    with op 3 f3 show ?thesis by (auto simp: accept_post_def)
  next
    case (Inr x)
    then obtain ra t2 where x: "d = Inr (ra, t2)" by (cases x) simp
    with f3 have "tx_inv t2 (pg_db w3) \<and> tx_ledger t2 = tx_ledger t1 \<and>
        (\<exists>row. tx_outbox t2 = [row] \<and> ob_event_id row = ev \<and> ob_event_type row = ty \<and>
           ob_status row = OutboxPending \<and> jsonb_cast (pg_db w3) p = Some (ob_payload row))"
      by simp
    then obtain row where t2: "tx_inv t2 (pg_db w3)"
      "tx_ledger t2 = tx_ledger t1" "tx_outbox t2 = [row]" "ob_event_id row = ev"
      "ob_event_type row = ty" "ob_status row = OutboxPending"
      "jsonb_cast (pg_db w3) p = Some (ob_payload row)" by blast
    obtain k w4 where 4: "Commit t2 w3 = (k, w4)" by fastforce
    have inv3: "db_inv (pg_db w3)" "db_le (pg_db w) (pg_db w3)" "proc_logs w3 = proc_logs w"
        "session.more w3 = session.more w"
      using f3 by simp_all
    note rows = claimed_row_complete[OF t1 t2(2-4)]
    have f4: "db_inv (pg_db w4)" "db_le (pg_db w3) (pg_db w4)" "proc_logs w4 = proc_logs w3"
        "session.more w4 = session.more w3"
      and k: "\<And>u. k = Inr u \<Longrightarrow>
        \<exists>db. tx_inv t2 db \<and> db_le (pg_db w3) db \<and> pg_db w4 = snd (sql_commit t2 db)"
      using Commit_facts[OF 4 inv3(1) t2(1) conjunct1[OF rows] conjunct2[OF rows]] by simp_all
    have "accept_post ev ty p r (pg_db w) (pg_db w4)"
    proof (cases k)
      case (Inl e)
      with op 3 4 x show ?thesis by (auto simp: accept_post_def)
    next
      case (Inr u)
      with k obtain db where db: "tx_inv t2 db" "db_le (pg_db w3) db"
        "pg_db w4 = snd (sql_commit t2 db)" by auto
      from t1 obtain l where l: "tx_ledger t2 = [ev \<mapsto> l]" "pe_event_type l = ty"
        "pe_status l = StatusAccepted" by (auto simp: claimed_row_def t2(2))
      with db(1) have "processed_events db ev = None" by (simp add: tx_inv_def)
      then have "processed_events (pg_db w) ev = None"
        using db_le_ledger[OF db_le_trans[OF inv3(2) db(2)]] by (metis option.exhaust)
      moreover have "jsonb_cast (pg_db w4) = jsonb_cast (pg_db w3)"
        using f4(2) by (simp add: db_le_def)
      moreover have "r = Inr True" using op 3 4 x Inr by auto
      ultimately show ?thesis using db(3) l t2 by (auto simp: accept_post_def sql_commit_def)
    qed
    moreover have "w' = w4" using op 3 4 x by (auto split: sum.splits)
    ultimately show ?thesis using inv3 f4 by (auto intro: db_le_trans)
  qed
qed

lemma AcceptEvent_facts:
  assumes op: "AcceptEvent ev ty p w = (r, w')" and inv: "db_inv (pg_db w)"
  shows "db_inv (pg_db w') \<and> db_le (pg_db w) (pg_db w') \<and> proc_logs w' = proc_logs w \<and>
    session.more w' = session.more w \<and> accept_post ev ty p r (pg_db w) (pg_db w')"
proof -
  obtain b w1 where 1: "BeginTx w = (b, w1)" by fastforce
  note f1 = BeginTx_facts[OF 1 inv]
  show ?thesis
  proof (cases b)
    case (Inl e)
    with op 1 f1 show ?thesis by (auto simp: AcceptEvent_def accept_post_def)
  next
    case b: (Inr t)
    with f1 have t: "tx_ledger t = Map.empty" "tx_outbox t = []" by auto
    obtain c w2 where 2: "tx_Exec t [ev, ty, StatusAccepted]
        (sql_insert_ledger ev ty StatusAccepted) w1 = (c, w2)" by fastforce
    have f2: "db_inv (pg_db w2)" "db_le (pg_db w) (pg_db w2)" "proc_logs w2 = proc_logs w"
        "session.more w2 = session.more w"
      and c: "\<And>ra t1. c = Inr (ra, t1) \<Longrightarrow> tx_inv t1 (pg_db w2) \<and> (\<forall>n. ra = Inr n \<longrightarrow>
           (if n = 0 then processed_events (pg_db w2) ev \<noteq> None
            else claimed_row ev ty StatusAccepted t1))"
      using tx_insert_ledger[OF 2 _ t] f1 by (auto intro: db_le_trans)
    show ?thesis
    proof (cases "\<exists>n t1. c = Inr (Inr n, t1) \<and> n \<noteq> 0")
      case False
      then have "w' = w2 \<and> accept_post ev ty p r (pg_db w) (pg_db w')"
        using op 1 2 b c
        by (auto simp: AcceptEvent_def accept_post_def split: sum.splits prod.splits if_splits)
      with f2 show ?thesis by auto
    next
      case True
      then obtain n t1 where c': "c = Inr (Inr n, t1)" "n \<noteq> 0" by blast
      with c have t1: "tx_inv t1 (pg_db w2)" "claimed_row ev ty StatusAccepted t1" by auto
      with op 1 2 b c' have "db_inv (pg_db w') \<and> db_le (pg_db w2) (pg_db w') \<and>
          proc_logs w' = proc_logs w2 \<and> session.more w' = session.more w2 \<and>
          accept_post ev ty p r (pg_db w2) (pg_db w')"
        by (intro accept_tail[OF _ f2(1) t1]) (simp add: AcceptEvent_def)
      moreover have "processed_events (pg_db w2) ev = None \<Longrightarrow> processed_events (pg_db w) ev = None"
        using db_le_ledger[OF f2(2)] by (metis option.exhaust)
      ultimately show ?thesis using f2 by (auto simp: accept_post_def intro: db_le_trans)
    qed
  qed
qed

section \<open>ProcessEvent\<close>

text \<open>
  The callback runs inside the transaction; it may use the store itself, as any other client.
\<close>

definition fn_keeps ::
  "('s session_scheme \<Rightarrow> go_error option \<times> 's session_scheme) option \<Rightarrow> bool" where
  "fn_keeps fn \<longleftrightarrow>
     (\<forall>f w r w' t. fn = Some f \<longrightarrow> f w = (r, w') \<longrightarrow> db_inv (pg_db w) \<longrightarrow> tx_inv t (pg_db w) \<longrightarrow>
        db_inv (pg_db w') \<and> tx_inv t (pg_db w') \<and> db_le (pg_db w) (pg_db w'))"

definition process_post :: "string \<Rightarrow> string \<Rightarrow> bool result \<Rightarrow> database \<Rightarrow> database \<Rightarrow> bool" where
  "process_post ev ty r db db' \<longleftrightarrow>
     (r = Inr True \<longrightarrow> processed_events db ev = None \<and>
        (\<exists>l. processed_events db' ev = Some l \<and> pe_status l = StatusProcessed \<and>
             pe_event_type l = ty \<and> pe_processed_at l \<noteq> None)) \<and>
     (r = Inr False \<longrightarrow> processed_events db' ev \<noteq> None)"

definition processed_claim :: "string \<Rightarrow> string \<Rightarrow> tx \<Rightarrow> bool" where
  "processed_claim ev ty t \<longleftrightarrow> tx_outbox t = [] \<and>
     (\<exists>l. tx_ledger t = [ev \<mapsto> l] \<and> pe_event_type l = ty \<and> pe_status l = StatusProcessed \<and>
          ledger_row_ok l \<and> pe_processed_at l \<noteq> None)"

lemma update_ledger_claimed:
  assumes "claimed_row ev ty StatusProcessing t" "tx_inv t db"
  shows "\<exists>t'. sql_update_ledger StatusProcessed ev t db = (Inr (1, t'), db) \<and>
           tx_inv t' db \<and> processed_claim ev ty t'"
  using assms
  by (auto simp: claimed_row_def sql_update_ledger_def tx_inv_def processed_claim_def
      ledger_row_ok_def)

lemma process_tail:
  assumes op: "(case tx_Exec t1 [StatusProcessed, ev] (sql_update_ledger StatusProcessed ev) w of
        (Inl e, w4) \<Rightarrow> (Inl (ErrWrap ''store: mark processed'' e), w4)
      | (Inr (_, t2), w4) \<Rightarrow>
          (case Commit t2 w4 of
             (Inl e, w5) \<Rightarrow> (Inl (ErrWrap ''store: commit'' e), w5)
           | (Inr _, w5) \<Rightarrow> (Inr True, w5))) = (r, w')"
    and inv: "db_inv (pg_db w)" "tx_inv t1 (pg_db w)"
    and t1: "claimed_row ev ty StatusProcessing t1"
  shows "db_inv (pg_db w') \<and> db_le (pg_db w) (pg_db w') \<and> process_post ev ty r (pg_db w) (pg_db w')"
proof -
  obtain d w4 where 4: "tx_Exec t1 [StatusProcessed, ev]
      (sql_update_ledger StatusProcessed ev) w = (d, w4)" by fastforce
  from 4 inv show ?thesis
  proof (cases rule: tx_Exec_cases)
    case (failed db e)
    with update_ledger_claimed[OF t1 failed(2)] op 4 show ?thesis
      by (auto simp: process_post_def)
  next
    case (ok db n t2)
    with update_ledger_claimed[OF t1 ok(2)] have db: "pg_db w4 = db" and t2: "tx_inv t2 db"
      "processed_claim ev ty t2" by auto
    then have rows: "\<forall>r \<in> ran (tx_ledger t2). ledger_row_ok r"
        "outbox_complete (tx_ledger t2) (tx_outbox t2)"
      by (auto simp: processed_claim_def outbox_complete_def split: if_splits)
    obtain k w5 where 5: "Commit t2 w4 = (k, w5)" by fastforce
    note f5 = Commit_facts[OF 5, unfolded db, OF ok(1) t2(1) rows]
    have w': "w' = w5" using op 4 5 ok by (auto split: sum.splits)
    have "process_post ev ty r (pg_db w) (pg_db w5)"
    proof (cases k)
      case (Inl e)
      with op 4 5 ok show ?thesis by (auto simp: process_post_def)
    next
      case (Inr u)
      with f5 obtain db5 where db5: "tx_inv t2 db5" "db_le db db5"
        "pg_db w5 = snd (sql_commit t2 db5)" by auto
      from t2(2) obtain l where l: "tx_ledger t2 = [ev \<mapsto> l]" "pe_event_type l = ty"
        "pe_status l = StatusProcessed" "pe_processed_at l \<noteq> None" by (auto simp: processed_claim_def)
      with db5(1) have "processed_events db5 ev = None" by (simp add: tx_inv_def)
      then have "processed_events (pg_db w) ev = None"
        using db_le_ledger[OF db_le_trans[OF ok(3) db5(2)]] by (metis option.exhaust)
      moreover have "r = Inr True" using op 4 5 ok Inr by auto
      ultimately show ?thesis using db5(3) l by (auto simp: process_post_def sql_commit_def)
    qed
    with w' f5 ok(3) show ?thesis by (auto intro: db_le_trans)
  qed
qed

lemma ProcessEvent_facts:
  assumes op: "ProcessEvent ev ty fn w = (r, w')" and inv: "db_inv (pg_db w)" and fn: "fn_keeps fn"
  shows "db_inv (pg_db w') \<and> db_le (pg_db w) (pg_db w') \<and> process_post ev ty r (pg_db w) (pg_db w')"
proof -
  obtain b w1 where 1: "BeginTx w = (b, w1)" by fastforce
  note f1 = BeginTx_facts[OF 1 inv]
  show ?thesis
  proof (cases b)
    case (Inl e)
    with op 1 f1 show ?thesis by (auto simp: ProcessEvent_def process_post_def)
  next
    case b: (Inr t)
    with f1 have t: "tx_ledger t = Map.empty" "tx_outbox t = []" by auto
    obtain c w2 where 2: "tx_Exec t [ev, ty, StatusProcessing]
        (sql_insert_ledger ev ty StatusProcessing) w1 = (c, w2)" by fastforce
    have f2: "db_inv (pg_db w2)" "db_le (pg_db w) (pg_db w2)"
      and c: "\<And>ra t1. c = Inr (ra, t1) \<Longrightarrow> tx_inv t1 (pg_db w2) \<and> (\<forall>n. ra = Inr n \<longrightarrow>
           (if n = 0 then processed_events (pg_db w2) ev \<noteq> None
            else claimed_row ev ty StatusProcessing t1))"
      using tx_insert_ledger[OF 2 _ t] f1 by (auto intro: db_le_trans)
    show ?thesis
    proof (cases "\<exists>n t1. c = Inr (Inr n, t1) \<and> n \<noteq> 0")
      case False
      then have "w' = w2 \<and> process_post ev ty r (pg_db w) (pg_db w')"
        using op 1 2 b c
        by (auto simp: ProcessEvent_def process_post_def split: sum.splits prod.splits if_splits)
      with f2 show ?thesis by auto
    next
      case True
      then obtain n t1 where c': "c = Inr (Inr n, t1)" "n \<noteq> 0" by blast
      with c have t1: "tx_inv t1 (pg_db w2)" "claimed_row ev ty StatusProcessing t1" by auto
      obtain x w3 where 3: "(case fn of None \<Rightarrow> (None, w2) | Some f \<Rightarrow> f w2) = (x, w3)" by fastforce
      have f3: "db_inv (pg_db w3)" "tx_inv t1 (pg_db w3)" "db_le (pg_db w2) (pg_db w3)"
        using 3 fn f2(1) t1(1) by (auto simp: fn_keeps_def split: option.splits)
      have le: "db_le (pg_db w) (pg_db w3)" using f2(2) f3(3) by (rule db_le_trans)
      show ?thesis
      proof (cases x)
        case (Some e)
        with op 1 2 3 b c' f3 le show ?thesis by (auto simp: ProcessEvent_def process_post_def)
      next
        case None
        with op 1 2 3 b c' have "db_inv (pg_db w') \<and> db_le (pg_db w3) (pg_db w') \<and>
            process_post ev ty r (pg_db w3) (pg_db w')"
          by (intro process_tail[OF _ f3(1,2) t1(2)]) (simp add: ProcessEvent_def)
        moreover have "processed_events (pg_db w3) ev = None \<Longrightarrow>
            processed_events (pg_db w) ev = None"
          using db_le_ledger[OF le] by (metis option.exhaust)
        ultimately show ?thesis using le by (auto simp: process_post_def intro: db_le_trans)
      qed
    qed
  qed
qed

section \<open>Consumer completions\<close>

text \<open>A \<open>db_Exec\<close> call that answers a count answers the statement's.\<close>

lemma db_Exec_Inr:
  assumes "db_Exec texts f w = (Inr ra, w')" "db_inv (pg_db w)"
  shows "\<exists>db n. db_inv db \<and> db_le (pg_db w) db \<and> f db = (Inr n, pg_db w') \<and> ra = rows_affected w n"
proof -
  obtain n where n: "pg_call no_tx texts f w = (Inr n, w')" "ra = rows_affected w n"
    using assms(1) by (auto simp: db_Exec_def split: prod.splits sum.splits)
  from pg_call_Inr[OF n(1) assms(2) tx_inv_no_tx] n(2) show ?thesis by auto
qed

lemma db_Query_Inr:
  assumes "db_Query texts f w = (Inr x, w')" "db_inv (pg_db w)"
  shows "\<exists>db. db_inv db \<and> db_le (pg_db w) db \<and> f db = (Inr x, pg_db w')"
  using pg_call_Inr[OF assms(1)[unfolded db_Query_def] assms(2) tx_inv_no_tx] by blast

lemma rows_affected_Inr [simp]: "rows_affected w n = Inr k \<Longrightarrow> k = n"
  by (auto simp: rows_affected_def split: fault.splits)

definition completion_is :: "string \<Rightarrow> string \<Rightarrow> string \<Rightarrow> int \<Rightarrow> database \<Rightarrow> bool" where
  "completion_is ev c st k db \<longleftrightarrow>
     (\<exists>row. consumer_completions db (ev, c) = Some row \<and> cc_status row = st \<and>
            cc_attempt_count row = k)"

text \<open>What a claim tells its caller of the row when it returns.\<close>

definition claim_post ::
  "string \<Rightarrow> string \<Rightarrow> CompletionClaim result \<Rightarrow> database \<Rightarrow> database \<Rightarrow> bool" where
  "claim_post ev c r db db' \<longleftrightarrow>
     (\<forall>cl. r = Inr cl \<longrightarrow>
        (claim_Action cl = CompletionClaimNew \<and> claim_AttemptCount cl = 1 \<and>
         consumer_completions db (ev, c) = None \<and>
         completion_is ev c CompletionProcessing 1 db') \<or>
        (claim_Action cl \<in> {CompletionClaimRetry, CompletionClaimRetryFromFailed} \<and>
         2 \<le> claim_AttemptCount cl \<and>
         completion_is ev c CompletionProcessing (claim_AttemptCount cl) db') \<or>
        (claim_Action cl = CompletionClaimAlreadyProcessed \<and>
         completion_is ev c CompletionProcessed (claim_AttemptCount cl) db'))"

lemma insert_completion_counts:
  assumes "sql_insert_completion ev c ty CompletionProcessing db = (Inr n, db')"
  shows "n = 0 \<and> db' = db \<and> consumer_completions db (ev, c) \<noteq> None \<or>
         n = 1 \<and> consumer_completions db (ev, c) = None \<and>
         completion_is ev c CompletionProcessing 1 db'"
  using assms by (auto simp: sql_insert_completion_def completion_is_def split: if_splits)

lemma returning_attempts_Inr:
  assumes "returning_attempts (update_completion ev c st_old f db) = (Inr k, db')"
  shows "\<exists>r. consumer_completions db (ev, c) = Some r \<and> cc_status r = st_old \<and>
     k = cc_attempt_count (f r) \<and> consumer_completions db' (ev, c) = Some (f r)"
  using assms by (auto simp: update_completion_def split: option.splits if_splits)

lemma attempts_positive:
  "db_inv db \<Longrightarrow> consumer_completions db k = Some r \<Longrightarrow> 1 \<le> cc_attempt_count r"
  by (auto simp: db_inv_def completion_row_ok_def ran_def simp del: split_paired_Ex)

lemma retry_result:
  assumes "db_Query texts (sql_retry_completion ev c CompletionProcessing) w = (Inr k, w')"
    "db_inv (pg_db w)"
  shows "2 \<le> k \<and> completion_is ev c CompletionProcessing k (pg_db w')"
proof -
  obtain db where db: "db_inv db"
    "sql_retry_completion ev c CompletionProcessing db = (Inr k, pg_db w')"
    using db_Query_Inr[OF assms] by blast
  from returning_attempts_Inr[OF db(2)[unfolded sql_retry_completion_def]] attempts_positive[OF db(1)]
  show ?thesis by (fastforce simp: completion_is_def)
qed

lemma reclaim_result:
  assumes "db_Query texts (sql_reclaim_completion CompletionProcessing ev c CompletionFailed) w =
      (Inr k, w')" "db_inv (pg_db w)"
  shows "2 \<le> k \<and> completion_is ev c CompletionProcessing k (pg_db w')"
proof -
  obtain db where db: "db_inv db"
    "sql_reclaim_completion CompletionProcessing ev c CompletionFailed db = (Inr k, pg_db w')"
    using db_Query_Inr[OF assms] by blast
  from returning_attempts_Inr[OF db(2)[unfolded sql_reclaim_completion_def]] attempts_positive[OF db(1)]
  show ?thesis by (fastforce simp: completion_is_def)
qed

lemma select_result:
  assumes "db_Query texts (sql_select_completion ev c) w = (Inr (st, k, m), w')" "db_inv (pg_db w)"
  shows "completion_is ev c st k (pg_db w')"
  using db_Query_Inr[OF assms]
  by (auto simp: sql_select_completion_def completion_is_def split: option.splits)

lemma ClaimConsumerCompletion_post:
  assumes op: "ClaimConsumerCompletion ev c ty w = (r, w')" and inv: "db_inv (pg_db w)"
  shows "claim_post ev c r (pg_db w) (pg_db w')"
proof -
  obtain r1 w1 where 1: "db_Exec [ev, c, ty, CompletionProcessing]
      (sql_insert_completion ev c ty CompletionProcessing) w = (r1, w1)" by fastforce
  obtain r2 w2 where 2: "db_Query [ev, c] (sql_select_completion ev c) w1 = (r2, w2)" by fastforce
  obtain r3 w3 where 3: "db_Query [ev, c, CompletionProcessing]
      (sql_retry_completion ev c CompletionProcessing) w2 = (r3, w3)" by fastforce
  obtain r4 w4 where 4: "db_Query [CompletionProcessing, ev, c, CompletionFailed]
      (sql_reclaim_completion CompletionProcessing ev c CompletionFailed) w2 = (r4, w4)" by fastforce
  note s1 = claim_calls(1)[OF 1 inv]
  note s2 = claim_calls(5)[OF 2 s1]
  from op 1 2 3 4 show ?thesis
  proof (cases rule: claim_paths)
    case new
    with 1 obtain db n where db: "db_le (pg_db w) db" "rows_affected w n = Inr 1"
      "sql_insert_completion ev c ty CompletionProcessing db = (Inr n, pg_db w1)"
      using db_Exec_Inr[of _ _ w "Inr 1" w1] inv by metis
    with insert_completion_counts[OF db(3)] have ins: "consumer_completions db (ev, c) = None"
      "completion_is ev c CompletionProcessing 1 (pg_db w1)"
      using rows_affected_Inr[OF db(2)] by auto
    moreover from ins(1) db_le_completion[OF db(1)] have "consumer_completions (pg_db w) (ev, c) = None"
      by (metis option.distinct(1) option.exhaust)
    ultimately show ?thesis using new by (simp add: claim_post_def)
  next
    case (processed k m)
    with select_result[of _ ev c w1 CompletionProcessed k m w2] 2 s1 show ?thesis
      by (simp add: claim_post_def)
  next
    case (retry k)
    with retry_result[of _ ev c w2 k w3] 3 s2 show ?thesis by (simp add: claim_post_def)
  next
    case (reclaim k)
    with reclaim_result[of _ ev c w2 k w4] 4 s2 show ?thesis by (simp add: claim_post_def)
  qed (simp add: claim_post_def)
qed

text \<open>The two marks.\<close>

lemma rows_of_update_Inr:
  assumes "rows_of (update_completion ev c st_old f db) = (Inr n, db')"
  shows "(n = 1 \<and> (\<exists>r. consumer_completions db (ev, c) = Some r \<and> cc_status r = st_old \<and>
            consumer_completions db' (ev, c) = Some (f r))) \<or>
         (n = 0 \<and> db' = db \<and> (\<forall>r. consumer_completions db (ev, c) = Some r \<longrightarrow> cc_status r \<noteq> st_old))"
  using assms by (auto simp: update_completion_def split: option.splits if_splits)

lemma MarkConsumerProcessed_post:
  assumes op: "MarkConsumerProcessed ev c w = (Inr b, w')" and inv: "db_inv (pg_db w)"
  shows "(b \<longrightarrow> (\<exists>r. consumer_completions (pg_db w') (ev, c) = Some r \<and>
            cc_status r = CompletionProcessed \<and> cc_error r = None)) \<and>
         (\<not> b \<longrightarrow> (\<forall>r. consumer_completions (pg_db w') (ev, c) = Some r \<longrightarrow>
            cc_status r \<noteq> CompletionProcessing))"
proof -
  obtain n where 1: "db_Exec [CompletionProcessed, ev, c, CompletionProcessing]
      (sql_mark_processed CompletionProcessed ev c CompletionProcessing) w = (Inr (Inr n), w')"
      "b = (n = 1)"
    using op by (auto simp: MarkConsumerProcessed_def split: prod.splits sum.splits)
  from db_Exec_Inr[OF 1(1) inv] obtain db m where
    "sql_mark_processed CompletionProcessed ev c CompletionProcessing db = (Inr m, pg_db w')"
    "Inr n = rows_affected w m" by blast
  with rows_affected_Inr[of w m n] rows_of_update_Inr[of ev c CompletionProcessing _ db n "pg_db w'"]
  show ?thesis using 1(2) by (fastforce simp: sql_mark_processed_def)
qed

lemma MarkConsumerFailed_post:
  assumes op: "MarkConsumerFailed ev c m w = (Inr b, w')" and inv: "db_inv (pg_db w)"
  shows "(b \<longrightarrow> (\<exists>r. consumer_completions (pg_db w') (ev, c) = Some r \<and>
            cc_status r = CompletionFailed \<and> cc_error r = Some m)) \<and>
         (\<not> b \<longrightarrow> (\<forall>r. consumer_completions (pg_db w') (ev, c) = Some r \<longrightarrow>
            cc_status r \<noteq> CompletionProcessing))"
proof -
  obtain n where 1: "db_Exec [CompletionFailed, m, ev, c, CompletionProcessing]
      (sql_mark_failed CompletionFailed m ev c CompletionProcessing) w = (Inr (Inr n), w')"
      "b = (n = 1)"
    using op by (auto simp: MarkConsumerFailed_def split: prod.splits sum.splits)
  from db_Exec_Inr[OF 1(1) inv] obtain db k where
    "sql_mark_failed CompletionFailed m ev c CompletionProcessing db = (Inr k, pg_db w')"
    "Inr n = rows_affected w k" by blast
  with rows_affected_Inr[of w k n] rows_of_update_Inr[of ev c CompletionProcessing _ db n "pg_db w'"]
  show ?thesis using 1(2) by (fastforce simp: sql_mark_failed_def)
qed

end
