(* ===== verification/Json.thy ===== *)
theory Json
  imports Go_Strings
begin

text \<open>
  What the code uses of encoding/json: \<open>json.Marshal\<close> and \<open>json.Unmarshal\<close> of a \<open>Job\<close> and of
  strings.  Texts are byte lists here.  The scanner is the state machine of the package
  (scanner.go): one step per byte over a stack of open brackets, so it is a structural
  recursion on the text.  Error texts are abbreviated: the code only logs them.
\<close>

section \<open>The scanner\<close>

datatype jstate =
    BeginValue | BeginValueOrEmpty | BeginString | BeginStringOrEmpty | EndValue | EndTop
  | InString | InStringEsc | InStringEscU nat
  | Neg | S0 | S1 | Dot | Dot0 | SE | SESign | E0
  | InLit "nat list"

datatype jparse = ObjectKey | ObjectValue | ArrayValue

definition json_space :: "nat \<Rightarrow> bool" where
  "json_space c \<longleftrightarrow> c = 32 \<or> c = 9 \<or> c = 10 \<or> c = 13"

definition json_digit :: "nat \<Rightarrow> bool" where
  "json_digit c \<longleftrightarrow> 48 \<le> c \<and> c \<le> 57"

definition json_hex :: "nat \<Rightarrow> bool" where
  "json_hex c \<longleftrightarrow> json_digit c \<or> 97 \<le> c \<and> c \<le> 102 \<or> 65 \<le> c \<and> c \<le> 70"

definition max_nesting :: nat where "max_nesting = 10000"

definition after_pop :: "jparse list \<Rightarrow> jstate" where
  "after_pop stk = (if stk = [] then EndTop else EndValue)"

fun end_value :: "jparse list \<Rightarrow> nat \<Rightarrow> (jstate \<times> jparse list) option" where
  "end_value [] c = (if json_space c then Some (EndTop, []) else None)"
| "end_value (ObjectKey # stk) c =
     (if json_space c then Some (EndValue, ObjectKey # stk)
      else if c = 58 then Some (BeginValue, ObjectValue # stk) else None)"
| "end_value (ObjectValue # stk) c =
     (if json_space c then Some (EndValue, ObjectValue # stk)
      else if c = 44 then Some (BeginString, ObjectKey # stk)
      else if c = 125 then Some (after_pop stk, stk) else None)"
| "end_value (ArrayValue # stk) c =
     (if json_space c then Some (EndValue, ArrayValue # stk)
      else if c = 44 then Some (BeginValue, ArrayValue # stk)
      else if c = 93 then Some (after_pop stk, stk) else None)"

definition push_state :: "jstate \<Rightarrow> jparse \<Rightarrow> jparse list \<Rightarrow> (jstate \<times> jparse list) option" where
  "push_state s p stk = (if length stk < max_nesting then Some (s, p # stk) else None)"

definition begin_value :: "jparse list \<Rightarrow> nat \<Rightarrow> (jstate \<times> jparse list) option" where
  "begin_value stk c =
     (if json_space c then Some (BeginValue, stk)
      else if c = 123 then push_state BeginStringOrEmpty ObjectKey stk
      else if c = 91 then push_state BeginValueOrEmpty ArrayValue stk
      else if c = 34 then Some (InString, stk)
      else if c = 45 then Some (Neg, stk)
      else if c = 48 then Some (S0, stk)
      else if c = 116 then Some (InLit [114, 117, 101], stk)
      else if c = 102 then Some (InLit [97, 108, 115, 101], stk)
      else if c = 110 then Some (InLit [117, 108, 108], stk)
      else if 49 \<le> c \<and> c \<le> 57 then Some (S1, stk)
      else None)"

definition begin_string :: "jparse list \<Rightarrow> nat \<Rightarrow> (jstate \<times> jparse list) option" where
  "begin_string stk c =
     (if json_space c then Some (BeginString, stk)
      else if c = 34 then Some (InString, stk) else None)"

definition after_int :: "jparse list \<Rightarrow> nat \<Rightarrow> (jstate \<times> jparse list) option" where
  "after_int stk c =
     (if c = 46 then Some (Dot, stk) else if c = 101 \<or> c = 69 then Some (SE, stk)
      else end_value stk c)"

definition exp_sign :: "jparse list \<Rightarrow> nat \<Rightarrow> (jstate \<times> jparse list) option" where
  "exp_sign stk c = (if json_digit c then Some (E0, stk) else None)"

fun step :: "jstate \<Rightarrow> jparse list \<Rightarrow> nat \<Rightarrow> (jstate \<times> jparse list) option" where
  "step BeginValue stk c = begin_value stk c"
| "step BeginValueOrEmpty stk c =
     (if json_space c then Some (BeginValueOrEmpty, stk)
      else if c = 93 then end_value stk c else begin_value stk c)"
| "step BeginString stk c = begin_string stk c"
| "step BeginStringOrEmpty stk c =
     (if json_space c then Some (BeginStringOrEmpty, stk)
      else if c = 125 then (case stk of [] \<Rightarrow> None | p # ps \<Rightarrow> end_value (ObjectValue # ps) c)
      else begin_string stk c)"
| "step EndValue stk c = end_value stk c"
| "step EndTop stk c = (if json_space c then Some (EndTop, stk) else None)"
| "step InString stk c =
     (if c = 34 then Some (EndValue, stk) else if c = 92 then Some (InStringEsc, stk)
      else if c < 32 then None else Some (InString, stk))"
| "step InStringEsc stk c =
     (if c \<in> {98, 102, 110, 114, 116, 92, 47, 34} then Some (InString, stk)
      else if c = 117 then Some (InStringEscU 4, stk) else None)"
| "step (InStringEscU n) stk c =
     (if json_hex c then Some (if n \<le> 1 then InString else InStringEscU (n - 1), stk) else None)"
| "step Neg stk c =
     (if c = 48 then Some (S0, stk) else if 49 \<le> c \<and> c \<le> 57 then Some (S1, stk) else None)"
| "step S1 stk c = (if json_digit c then Some (S1, stk) else after_int stk c)"
| "step S0 stk c = after_int stk c"
| "step Dot stk c = (if json_digit c then Some (Dot0, stk) else None)"
| "step Dot0 stk c =
     (if json_digit c then Some (Dot0, stk) else if c = 101 \<or> c = 69 then Some (SE, stk)
      else end_value stk c)"
| "step SE stk c = (if c = 43 \<or> c = 45 then Some (SESign, stk) else exp_sign stk c)"
| "step SESign stk c = exp_sign stk c"
| "step E0 stk c = (if json_digit c then Some (E0, stk) else end_value stk c)"
| "step (InLit ls) stk c =
     (case ls of
        [] \<Rightarrow> end_value stk c
      | l # ls' \<Rightarrow> if c = l then Some (if ls' = [] then EndValue else InLit ls', stk) else None)"

fun steps :: "jstate \<Rightarrow> jparse list \<Rightarrow> nat list \<Rightarrow> (jstate \<times> jparse list) option" where
  "steps s stk [] = Some (s, stk)"
| "steps s stk (c # cs) =
     (case step s stk c of None \<Rightarrow> None | Some (s', stk') \<Rightarrow> steps s' stk' cs)"

text \<open>\<open>checkValid\<close>: after the last byte the scanner is at the end of a value (\<open>eof\<close>).\<close>

definition json_valid :: "nat list \<Rightarrow> bool" where
  "json_valid bs =
     (case steps BeginValue [] bs of
        None \<Rightarrow> False
      | Some (s, stk) \<Rightarrow> s = EndTop \<or> (case step s stk 32 of Some (EndTop, _) \<Rightarrow> True | _ \<Rightarrow> False))"

section \<open>Strings\<close>

definition utf8_encode :: "nat \<Rightarrow> nat list" where
  "utf8_encode r =
     (if r < 128 then [r]
      else if r < 2048 then [192 + r div 64, 128 + r mod 64]
      else if 55296 \<le> r \<and> r \<le> 57343 \<or> 1114111 < r then [239, 191, 189]
      else if r < 65536 then [224 + r div 4096, 128 + r div 64 mod 64, 128 + r mod 64]
      else [240 + r div 262144, 128 + r div 4096 mod 64, 128 + r div 64 mod 64, 128 + r mod 64])"

definition hex_val :: "nat \<Rightarrow> nat" where
  "hex_val c = (if json_digit c then c - 48 else if 97 \<le> c then c - 87 else c - 55)"

fun getu4 :: "nat list \<Rightarrow> nat option" where
  "getu4 (b # u # h1 # h2 # h3 # h4 # bs) =
     (if b = 92 \<and> u = 117 \<and> json_hex h1 \<and> json_hex h2 \<and> json_hex h3 \<and> json_hex h4
      then Some (4096 * hex_val h1 + 256 * hex_val h2 + 16 * hex_val h3 + hex_val h4) else None)"
| "getu4 _ = None"

definition utf16_pair :: "nat \<Rightarrow> nat \<Rightarrow> nat option" where
  "utf16_pair r r1 =
     (if 55296 \<le> r \<and> r < 56320 \<and> 56320 \<le> r1 \<and> r1 < 57344
      then Some ((r - 55296) * 1024 + (r1 - 56320) + 65536) else None)"

definition esc_byte :: "nat \<Rightarrow> nat" where
  "esc_byte c = (if c = 98 then 8 else if c = 102 then 12 else if c = 110 then 10
     else if c = 114 then 13 else if c = 116 then 9 else c)"

text \<open>
  \<open>unquote\<close> of a string literal without its quotes: escapes are resolved, a lone surrogate or
  an invalid UTF-8 byte becomes U+FFFD.
\<close>

function unquote :: "nat list \<Rightarrow> nat list" where
  "unquote bs =
     (case bs of
        [] \<Rightarrow> []
      | c # cs \<Rightarrow>
          if c = 92 then
            (case getu4 bs of
               Some r \<Rightarrow>
                 (case getu4 (drop 6 bs) of
                    Some r1 \<Rightarrow>
                      (case utf16_pair r r1 of
                         Some d \<Rightarrow> utf8_encode d @ unquote (drop 12 bs)
                       | None \<Rightarrow> utf8_encode r @ unquote (drop 6 bs))
                  | None \<Rightarrow> utf8_encode r @ unquote (drop 6 bs))
             | None \<Rightarrow>
                 (case cs of [] \<Rightarrow> [] | e # cs' \<Rightarrow> esc_byte e # unquote cs'))
          else if c < 128 then c # unquote cs
          else if rune_size bs = 0 then [239, 191, 189] @ unquote cs
          else take (rune_size bs) bs @ unquote (drop (rune_size bs) bs))"
  by pat_completeness auto
termination
  by (relation "measure length") (auto split: if_splits)

declare unquote.simps [simp del]

definition hex_digit :: "nat \<Rightarrow> nat" where
  "hex_digit d = (if d < 10 then 48 + d else 87 + d)"

definition u00 :: "nat \<Rightarrow> nat list" where
  "u00 c = [92, 117, 48, 48, hex_digit (c div 16), hex_digit (c mod 16)]"

text \<open>The bytes of an ASCII character in a literal, HTML characters escaped.\<close>

definition quote_ascii :: "nat \<Rightarrow> nat list" where
  "quote_ascii c =
     (if c = 92 \<or> c = 34 then [92, c]
      else if c = 8 then [92, 98] else if c = 12 then [92, 102] else if c = 10 then [92, 110]
      else if c = 13 then [92, 114] else if c = 9 then [92, 116]
      else if c < 32 \<or> c = 60 \<or> c = 62 \<or> c = 38 then u00 c
      else [c])"

function quote_body :: "nat list \<Rightarrow> nat list" where
  "quote_body bs =
     (case bs of
        [] \<Rightarrow> []
      | c # cs \<Rightarrow>
          if c < 128 then quote_ascii c @ quote_body cs
          else if rune_size bs = 0 then [92, 117, 102, 102, 102, 100] @ quote_body cs
          else if take 3 bs = [226, 128, 168] \<or> take 3 bs = [226, 128, 169]
            then [92, 117, 50, 48, 50, hex_digit (bs ! 2 mod 16)] @ quote_body (drop 3 bs)
          else take (rune_size bs) bs @ quote_body (drop (rune_size bs) bs))"
  by pat_completeness auto
termination
  by (relation "measure length") (auto split: if_splits)

declare quote_body.simps [simp del]

definition json_quote :: "nat list \<Rightarrow> nat list" where
  "json_quote bs = [34] @ quote_body bs @ [34]"

text \<open>
  \<open>compact\<close>: white space outside strings goes, HTML characters and U+2028, U+2029 are escaped.
  The flags say whether the position is in a string and after a backslash.
\<close>

fun compact :: "bool \<Rightarrow> bool \<Rightarrow> nat list \<Rightarrow> nat list" where
  "compact ins esc [] = []"
| "compact ins esc (c # cs) =
     (if c = 60 \<or> c = 62 \<or> c = 38 then u00 c @ compact ins False cs
      else if take 3 (c # cs) = [226, 128, 168] \<or> take 3 (c # cs) = [226, 128, 169]
        then [92, 117, 50, 48, 50, hex_digit ((c # cs) ! 2 mod 16)] @ compact ins False (drop 2 cs)
      else if ins then
        c # compact (esc \<or> c \<noteq> 34) (\<not> esc \<and> c = 92) cs
      else if json_space c then compact False False cs
      else c # compact (c = 34) False cs)"

section \<open>Members of an object\<close>

fun skip_space :: "nat list \<Rightarrow> nat list" where
  "skip_space [] = []"
| "skip_space (c # cs) = (if json_space c then skip_space cs else c # cs)"

text \<open>
  The extent of a string literal after its opening quote, of a bracketed value (open brackets,
  in a string, after a backslash) and of a number or word, in a text the scanner accepted.
\<close>

fun string_len :: "bool \<Rightarrow> nat list \<Rightarrow> nat" where
  "string_len esc [] = 0"
| "string_len esc (c # cs) =
     Suc (if \<not> esc \<and> c = 34 then 0 else string_len (\<not> esc \<and> c = 92) cs)"

fun bracket_len :: "nat \<Rightarrow> bool \<Rightarrow> bool \<Rightarrow> nat list \<Rightarrow> nat" where
  "bracket_len d ins esc [] = 0"
| "bracket_len d ins esc (c # cs) =
     Suc (if ins then bracket_len d (esc \<or> c \<noteq> 34) (\<not> esc \<and> c = 92) cs
          else if c = 34 then bracket_len d True False cs
          else if c = 123 \<or> c = 91 then bracket_len (Suc d) False False cs
          else if c = 125 \<or> c = 93 then (if d \<le> 1 then 0 else bracket_len (d - 1) False False cs)
          else bracket_len d False False cs)"

fun word_len :: "nat list \<Rightarrow> nat" where
  "word_len [] = 0"
| "word_len (c # cs) =
     (if json_space c \<or> c = 44 \<or> c = 125 \<or> c = 93 then 0 else Suc (word_len cs))"

definition value_len :: "nat list \<Rightarrow> nat" where
  "value_len bs =
     (case bs of
        [] \<Rightarrow> 0
      | c # cs \<Rightarrow>
          if c = 34 then Suc (string_len False cs)
          else if c = 123 \<or> c = 91 then bracket_len 0 False False bs
          else word_len bs)"

lemma skip_space_length: "length (skip_space bs) \<le> length bs"
  by (induction bs) auto

lemma members_decrease:
  assumes "skip_space bs = 34 # cs"
  shows "length (skip_space (drop n (skip_space (tl (skip_space (drop (value_len (34 # cs)) (34 # cs)))))))
     - Suc 0 < length bs"
proof -
  let ?d = "drop (value_len (34 # cs)) (34 # cs)"
  let ?v = "skip_space (tl (skip_space ?d))"
  have "length (skip_space (drop n ?v)) \<le> length ?v"
    using skip_space_length[of "drop n ?v"] by simp
  also have "\<dots> \<le> length ?d"
    using skip_space_length[of "tl (skip_space ?d)"] skip_space_length[of ?d] by simp
  also have "\<dots> < length (34 # cs)" by (simp add: value_len_def)
  also have "\<dots> \<le> length bs" using assms skip_space_length[of bs] by simp
  finally show ?thesis by simp
qed

text \<open>
  The members of an object from a key on: raw key and raw value, in order.  (\<open>tl\<close> drops the
  colon and the comma or brace.)
\<close>

function members :: "nat list \<Rightarrow> (nat list \<times> nat list) list" where
  "members bs =
     (case skip_space bs of
        [] \<Rightarrow> []
      | c # cs \<Rightarrow>
          if c = 34 then
            (let v = skip_space (tl (skip_space (drop (value_len (c # cs)) (c # cs))))
             in (take (value_len (c # cs)) (c # cs), take (value_len v) v)
                # members (tl (skip_space (drop (value_len v) v))))
          else [])"
  by pat_completeness auto
termination
  by (relation "measure length") (auto intro!: members_decrease)

declare members.simps [simp del]

section \<open>Field names\<close>

text \<open>
  A key matches a field by name, or else up to case: ASCII letters, and the two other runes
  that fold to ASCII ones (long s and the Kelvin sign).
\<close>

function fold_name :: "nat list \<Rightarrow> nat list" where
  "fold_name bs =
     (case bs of
        [] \<Rightarrow> []
      | c # cs \<Rightarrow>
          if 97 \<le> c \<and> c \<le> 122 then (c - 32) # fold_name cs
          else if take 2 bs = [197, 191] then 83 # fold_name (drop 2 bs)
          else if take 3 bs = [226, 132, 170] then 75 # fold_name (drop 3 bs)
          else c # fold_name cs)"
  by pat_completeness auto
termination
  by (relation "measure length") auto

declare fold_name.simps [simp del]

end
