(* ===== verification/Engine.thy ===== *)
theory Engine
  imports Json
begin

text \<open>
  Package internal/engine: the job, the Stripe event and their JSON forms.  A
  \<open>json.RawMessage\<close> is an optional text (\<open>None\<close> is the nil slice).
\<close>

section \<open>Job and StripeEvent\<close>

record Job =
  StripeEventID :: string
  EventType :: string
  Payload :: "string option"

record StripeEventData =
  Object :: "string option"

record StripeEvent =
  ev_ID :: string
  ev_Type :: string
  ev_Data :: StripeEventData
  ev_Created :: int
  ev_Livemode :: bool

definition zero_Job :: Job where
  "zero_Job = \<lparr>StripeEventID = [], EventType = [], Payload = None\<rparr>"

definition zero_StripeEvent :: StripeEvent where
  "zero_StripeEvent = \<lparr>ev_ID = [], ev_Type = [], ev_Data = \<lparr>Object = None\<rparr>, ev_Created = 0,
     ev_Livemode = False\<rparr>"

definition JobFromStripeEvent :: "StripeEvent \<Rightarrow> Job" where
  "JobFromStripeEvent evt = \<lparr>StripeEventID = ev_ID evt, EventType = ev_Type evt,
     Payload = Object (ev_Data evt)\<rparr>"

section \<open>json.Marshal of a Job\<close>

definition string_of :: "nat list \<Rightarrow> string" where "string_of bs = map char_of bs"

lemma string_of_bytes_of [simp]: "string_of (bytes_of s) = s"
  by (simp add: string_of_def bytes_of_def comp_def)

abbreviation json_error :: go_error where "json_error \<equiv> ErrNew ''json: invalid text''"
abbreviation json_type_error :: go_error where
  "json_type_error \<equiv> ErrNew ''json: cannot unmarshal''"

text \<open>
  A nil \<open>RawMessage\<close> is written as null; another is compacted, and refused when it is not JSON.
\<close>

definition marshal_raw :: "string option \<Rightarrow> nat list result" where
  "marshal_raw m =
     (case m of
        None \<Rightarrow> Inr (bytes_of ''null'')
      | Some s \<Rightarrow>
          if json_valid (bytes_of s) then Inr (compact False False (bytes_of s)) else Inl json_error)"

definition field_key :: "string \<Rightarrow> nat list" where
  "field_key name = [34] @ bytes_of name @ [34, 58]"

definition Marshal_Job :: "Job \<Rightarrow> string result" where
  "Marshal_Job j =
     (case marshal_raw (Payload j) of
        Inl e \<Rightarrow> Inl e
      | Inr p \<Rightarrow> Inr (string_of
          ([123] @ field_key ''stripe_event_id'' @ json_quote (bytes_of (StripeEventID j)) @ [44] @
           field_key ''event_type'' @ json_quote (bytes_of (EventType j)) @ [44] @
           field_key ''payload'' @ p @ [125])))"

section \<open>json.Unmarshal\<close>

text \<open>
  Decoding into a struct goes over the members of the object.  A value of the wrong kind is
  remembered (the flag) and decoding goes on; the error comes at the end.  null leaves a
  field of kind string, int, bool or struct as it is.
\<close>

definition field_is :: "nat list \<Rightarrow> string \<Rightarrow> bool" where
  "field_is raw_key name \<longleftrightarrow>
     fold_name (unquote (butlast (tl raw_key))) = fold_name (bytes_of name)"

definition starts :: "nat \<Rightarrow> nat list \<Rightarrow> bool" where
  "starts c bs \<longleftrightarrow> (case bs of [] \<Rightarrow> False | b # _ \<Rightarrow> b = c)"

definition decode_string :: "nat list \<Rightarrow> string \<Rightarrow> string \<times> bool" where
  "decode_string item old =
     (if starts 34 item then (string_of (unquote (butlast (tl item))), False)
      else if starts 110 item then (old, False) else (old, True))"

definition decode_Job_member :: "nat list \<times> nat list \<Rightarrow> Job \<times> bool \<Rightarrow> Job \<times> bool" where
  "decode_Job_member kv acc =
     (case kv of (k, item) \<Rightarrow> case acc of (j, bad) \<Rightarrow>
        if field_is k ''stripe_event_id'' then
          (case decode_string item (StripeEventID j) of
             (s, b) \<Rightarrow> (j\<lparr>StripeEventID := s\<rparr>, bad \<or> b))
        else if field_is k ''event_type'' then
          (case decode_string item (EventType j) of (s, b) \<Rightarrow> (j\<lparr>EventType := s\<rparr>, bad \<or> b))
        else if field_is k ''payload'' then (j\<lparr>Payload := Some (string_of item)\<rparr>, bad)
        else (j, bad))"

definition decode_top :: "(nat list \<times> nat list \<Rightarrow> 'a \<times> bool \<Rightarrow> 'a \<times> bool) \<Rightarrow> 'a \<Rightarrow> string \<Rightarrow> 'a result"
where
  "decode_top member zero s =
     (let bs = bytes_of s; v = skip_space bs
      in if \<not> json_valid bs then Inl json_error
         else if starts 123 v then
           (case fold member (members (tl v)) (zero, False) of
              (x, bad) \<Rightarrow> if bad then Inl json_type_error else Inr x)
         else if starts 110 v then Inr zero
         else Inl json_type_error)"

definition Unmarshal_Job :: "string \<Rightarrow> Job result" where
  "Unmarshal_Job = decode_top decode_Job_member zero_Job"

text \<open>A number for an \<open>int64\<close>: an optional minus and digits, in range.\<close>

fun digits_val :: "int \<Rightarrow> nat list \<Rightarrow> int option" where
  "digits_val n [] = Some n"
| "digits_val n (c # cs) = (if json_digit c then digits_val (10 * n + int (c - 48)) cs else None)"

definition parse_int64 :: "nat list \<Rightarrow> int option" where
  "parse_int64 bs =
     (let neg = starts 45 bs; ds = (if neg then tl bs else bs)
      in case digits_val 0 ds of
           None \<Rightarrow> None
         | Some n \<Rightarrow>
             (let i = (if neg then - n else n)
              in if ds \<noteq> [] \<and> -9223372036854775808 \<le> i \<and> i \<le> 9223372036854775807
                 then Some i else None))"

definition decode_int64 :: "nat list \<Rightarrow> int \<Rightarrow> int \<times> bool" where
  "decode_int64 item old =
     (if starts 110 item then (old, False)
      else case parse_int64 item of None \<Rightarrow> (old, True) | Some i \<Rightarrow> (i, False))"

definition decode_bool :: "nat list \<Rightarrow> bool \<Rightarrow> bool \<times> bool" where
  "decode_bool item old =
     (if starts 110 item then (old, False)
      else if starts 116 item then (True, False)
      else if starts 102 item then (False, False) else (old, True))"

definition decode_Data_member ::
  "nat list \<times> nat list \<Rightarrow> StripeEventData \<times> bool \<Rightarrow> StripeEventData \<times> bool" where
  "decode_Data_member kv acc =
     (if field_is (fst kv) ''object''
      then ((fst acc)\<lparr>Object := Some (string_of (snd kv))\<rparr>, snd acc) else acc)"

definition decode_Data :: "nat list \<Rightarrow> StripeEventData \<Rightarrow> StripeEventData \<times> bool" where
  "decode_Data item old =
     (if starts 123 item then fold decode_Data_member (members (tl item)) (old, False)
      else if starts 110 item then (old, False) else (old, True))"

definition decode_Event_member ::
  "nat list \<times> nat list \<Rightarrow> StripeEvent \<times> bool \<Rightarrow> StripeEvent \<times> bool" where
  "decode_Event_member kv acc =
     (case kv of (k, item) \<Rightarrow> case acc of (ev, bad) \<Rightarrow>
        if field_is k ''id'' then
          (case decode_string item (ev_ID ev) of (s, b) \<Rightarrow> (ev\<lparr>ev_ID := s\<rparr>, bad \<or> b))
        else if field_is k ''type'' then
          (case decode_string item (ev_Type ev) of (s, b) \<Rightarrow> (ev\<lparr>ev_Type := s\<rparr>, bad \<or> b))
        else if field_is k ''data'' then
          (case decode_Data item (ev_Data ev) of (d, b) \<Rightarrow> (ev\<lparr>ev_Data := d\<rparr>, bad \<or> b))
        else if field_is k ''created'' then
          (case decode_int64 item (ev_Created ev) of (i, b) \<Rightarrow> (ev\<lparr>ev_Created := i\<rparr>, bad \<or> b))
        else if field_is k ''livemode'' then
          (case decode_bool item (ev_Livemode ev) of (i, b) \<Rightarrow> (ev\<lparr>ev_Livemode := i\<rparr>, bad \<or> b))
        else (ev, bad))"

definition ParseStripeEvent :: "string \<Rightarrow> StripeEvent result" where
  "ParseStripeEvent body =
     (case decode_top decode_Event_member zero_StripeEvent body of
        Inl e \<Rightarrow> Inl (ErrWrap ''parse stripe event'' e)
      | Inr ev \<Rightarrow> Inr ev)"

end
