(* ===== verification/Job_Errors.thy ===== *)
theory Job_Errors
  imports Go_Base
begin

text \<open>
  cmd/worker/job_error.go: the errors that decide between redelivery and giving up.  The
  struct and its \<open>Error\<close> method are in the prelude, with the other errors.
\<close>

definition JobError_IsRetryable :: "go_error job_error \<Rightarrow> bool" where
  "JobError_IsRetryable e = Retryable e"

definition isRetryableJobError :: "go_error \<Rightarrow> bool" where
  "isRetryableJobError err =
     (case errors_AsType_JobError err of Some je \<Rightarrow> Retryable je | None \<Rightarrow> True)"

definition classifyHTTPStatus :: "int \<Rightarrow> go_error" where
  "classifyHTTPStatus status =
     (if status \<ge> 500 \<or> status = 429 then
        ErrJob (JobError ''downstream error'' True status None)
      else if status = 400 \<or> status = 404 \<or> status = 422 then
        ErrJob (JobError ''downstream rejected job'' False status None)
      else ErrJob (JobError ''downstream unexpected status'' False status None))"

definition permanentJobError :: "string \<Rightarrow> go_error \<Rightarrow> go_error" where
  "permanentJobError msg cause = ErrJob (JobError msg False 0 (Some cause))"

definition retryableJobError :: "string \<Rightarrow> go_error \<Rightarrow> int \<Rightarrow> go_error" where
  "retryableJobError msg cause httpStatus = ErrJob (JobError msg True httpStatus (Some cause))"

lemma isRetryable_simps [simp]:
  "isRetryableJobError (ErrJob j) = Retryable j"
  "isRetryableJobError (ErrWrap p e) = isRetryableJobError e"
  "isRetryableJobError (ErrNew s)" "isRetryableJobError ErrNoRows" "isRetryableJobError ErrMaxBytes"
  by (simp_all add: isRetryableJobError_def)

lemma isRetryable_made [simp]:
  "\<not> isRetryableJobError (permanentJobError m c)" "isRetryableJobError (retryableJobError m c h)"
  by (simp_all add: permanentJobError_def retryableJobError_def)

lemma isRetryable_classify:
  "isRetryableJobError (classifyHTTPStatus s) \<longleftrightarrow> 500 \<le> s \<or> s = 429"
  by (simp add: classifyHTTPStatus_def)

end
