(* ===== verification/Worker.thy ===== *)
theory Worker
  imports Store_Facts Engine Job_Errors
begin

text \<open>
  cmd/worker: delivery of a job to the downstream service, the handling of one Kafka record and
  the poll loop.  The interfaces of the code (\<open>ConsumerCompletionStore\<close>, \<open>DownstreamClient\<close>) are
  records of operations on a world \<open>'w\<close>, passed as the code passes interface values.
\<close>

section \<open>Interfaces\<close>

record 'w completion_store =
  st_Claim :: "string \<Rightarrow> string \<Rightarrow> string \<Rightarrow> ('w, CompletionClaim) io"
  st_MarkProcessed :: "string \<Rightarrow> string \<Rightarrow> ('w, bool) io"
  st_MarkFailed :: "string \<Rightarrow> string \<Rightarrow> string \<Rightarrow> ('w, bool) io"

record 'w downstream_client =
  DeliverJob :: "Job \<Rightarrow> 'w \<Rightarrow> go_error option \<times> 'w"

text \<open>What the code reads of a \<open>kgo.Record\<close>.\<close>

record krecord =
  rec_Topic :: string
  rec_Partition :: int
  rec_Offset :: int
  rec_Key :: string
  rec_Value :: string

section \<open>downstream.go\<close>

text \<open>
  The HTTP client is the network's side: \<open>do_request\<close> is \<open>client.Do\<close>, which posts a body, follows
  redirects and answers the last status or an error.  \<open>new_request_err\<close> is what \<open>http.NewRequestWithContext\<close> answers for the URL.
\<close>

record http_request =
  req_URL :: string
  req_ContentType :: string
  req_Body :: string

record 'w http_downstream =
  baseURL :: string
  new_request_err :: "string \<Rightarrow> go_error option"
  do_request :: "http_request \<Rightarrow> ('w, int) io"

definition httpDownstream_DeliverJob ::
  "'w http_downstream \<Rightarrow> Job \<Rightarrow> 'w \<Rightarrow> go_error option \<times> 'w" where
  "httpDownstream_DeliverJob h job w =
     (case Marshal_Job job of
        Inl e \<Rightarrow> (Some (permanentJobError ''marshal job'' e), w)
      | Inr body \<Rightarrow>
     (case new_request_err h (baseURL h) of
        Some e \<Rightarrow> (Some (permanentJobError ''build request'' e), w)
      | None \<Rightarrow>
     (case do_request h \<lparr>req_URL = baseURL h, req_ContentType = ''application/json'',
                          req_Body = body\<rparr> w of
        (Inl e, w') \<Rightarrow> (Some (retryableJobError ''downstream request'' e 0), w')
      | (Inr statusCode, w') \<Rightarrow>
          if 200 \<le> statusCode \<and> statusCode < 300 then (None, w')
          else (Some (classifyHTTPStatus statusCode), w'))))"

definition NewHTTPDownstream :: "'w http_downstream \<Rightarrow> 'w downstream_client" where
  "NewHTTPDownstream h = \<lparr>DeliverJob = httpDownstream_DeliverJob h\<rparr>"

section \<open>handle_job.go\<close>

definition stripeJobConsumed :: string where
  [status_simps]: "stripeJobConsumed = ''stripe_job_consumed''"
definition stripeJobUnmarshalFailed :: string where
  [status_simps]: "stripeJobUnmarshalFailed = ''stripe_job_unmarshal_failed''"
definition stripeJobDuplicateSkipped :: string where
  [status_simps]: "stripeJobDuplicateSkipped = ''stripe_job_duplicate_skipped''"
definition stripeJobHandled :: string where
  [status_simps]: "stripeJobHandled = ''stripe_job_handled''"
definition stripeJobDownstreamFailed :: string where
  [status_simps]: "stripeJobDownstreamFailed = ''stripe_job_downstream_failed''"
definition consumerCompletionFailed :: string where
  [status_simps]: "consumerCompletionFailed = ''consumer_completion_failed''"
definition kafkaFetchFailed :: string where
  [status_simps]: "kafkaFetchFailed = ''kafka_fetch_failed''"
definition kafkaCommitFailed :: string where
  [status_simps]: "kafkaCommitFailed = ''kafka_commit_failed''"

definition handleJob ::
  "logger \<Rightarrow> 'a proc_scheme downstream_client \<Rightarrow> Job \<Rightarrow> 'a proc_scheme
   \<Rightarrow> go_error option \<times> 'a proc_scheme" where
  "handleJob log downstream job w =
     (case DeliverJob downstream job w of
        (Some err, w') \<Rightarrow>
          (let je = errors_AsType_JobError err;
               retryable = (case je of Some j \<Rightarrow> Retryable j | None \<Rightarrow> True);
               httpStatus = (case je of Some j \<Rightarrow> HTTPStatus j | None \<Rightarrow> 0)
           in (Some err, log_Error log stripeJobDownstreamFailed
                 [(''event_id'', LStr (StripeEventID job)),
                  (''event_type'', LStr (EventType job)),
                  (''retryable'', LBool retryable),
                  (''http_status'', LInt httpStatus),
                  (''error'', LStr (Error_string err))] w'))
      | (None, w') \<Rightarrow>
          (None, log_Info log stripeJobHandled
             [(''event_id'', LStr (StripeEventID job)),
              (''event_type'', LStr (EventType job))] w'))"

section \<open>handleRecord\<close>

text \<open>True when the record was handled, so that its offset is safe to commit.\<close>

definition handleRecord ::
  "logger \<Rightarrow> 'a proc_scheme completion_store \<Rightarrow> 'a proc_scheme downstream_client
   \<Rightarrow> string \<Rightarrow> krecord \<Rightarrow> 'a proc_scheme \<Rightarrow> bool \<times> 'a proc_scheme" where
  "handleRecord log st downstream consumerName rec w =
     (case Unmarshal_Job (rec_Value rec) of
        Inl e \<Rightarrow>
          (False, log_Error log stripeJobUnmarshalFailed [(''error'', LStr (Error_string e))] w)
      | Inr job \<Rightarrow>
     (if StripeEventID job = [] then
        (False, log_Error log stripeJobUnmarshalFailed
                  [(''error'', LStr ''missing stripe_event_id'')] w)
      else
     (case st_Claim st (StripeEventID job) consumerName (EventType job) w of
        (Inl e, w1) \<Rightarrow>
          (False, log_Error log consumerCompletionFailed
                    [(''event_id'', LStr (StripeEventID job)),
                     (''error'', LStr (Error_string e))] w1)
      | (Inr claim, w1) \<Rightarrow>
     (if claim_Action claim = CompletionClaimAlreadyProcessed then
        (True, log_Info log stripeJobDuplicateSkipped
                 [(''event_id'', LStr (StripeEventID job)),
                  (''event_type'', LStr (EventType job)),
                  (''partition'', LInt (rec_Partition rec)),
                  (''offset'', LInt (rec_Offset rec))] w1)
      else
     (case handleJob log downstream job w1 of
        (Some err, w2) \<Rightarrow>
          (case st_MarkFailed st (StripeEventID job) consumerName (Error_string err) w2 of
             (Inl markErr, w3) \<Rightarrow>
               (False, log_Error log consumerCompletionFailed
                         [(''event_id'', LStr (StripeEventID job)),
                          (''error'', LStr (Error_string markErr))] w3)
           | (Inr _, w3) \<Rightarrow> (\<not> isRetryableJobError err, w3))
      | (None, w2) \<Rightarrow>
     (case st_MarkProcessed st (StripeEventID job) consumerName w2 of
        (Inl e, w3) \<Rightarrow>
          (False, log_Error log consumerCompletionFailed
                    [(''event_id'', LStr (StripeEventID job)),
                     (''error'', LStr (Error_string e))] w3)
      | (Inr updated, w3) \<Rightarrow>
          if \<not> updated then
            (False, log_Error log consumerCompletionFailed
                      [(''event_id'', LStr (StripeEventID job)),
                       (''error'', LStr ''mark processed: row not processing'')] w3)
          else
            (True, log_Info log stripeJobConsumed
                     [(''event_id'', LStr (StripeEventID job)),
                      (''event_type'', LStr (EventType job)),
                      (''partition'', LInt (rec_Partition rec)),
                      (''offset'', LInt (rec_Offset rec))] w3)))))))"

section \<open>partition.go\<close>

fun recordsSafeToCommit ::
  "'r list \<Rightarrow> ('r \<Rightarrow> 'w \<Rightarrow> bool \<times> 'w) \<Rightarrow> 'w \<Rightarrow> 'r list \<times> 'w" where
  "recordsSafeToCommit [] handle w = ([], w)"
| "recordsSafeToCommit (rec # records) handle w =
     (case handle rec w of
        (False, w') \<Rightarrow> ([], w')
      | (True, w') \<Rightarrow>
          (case recordsSafeToCommit records handle w' of
             (committed, w'') \<Rightarrow> (rec # committed, w'')))"

section \<open>The poll loop of main\<close>

text \<open>
  The Kafka client (franz-go) is a parameter: what a poll fetched, and what committing records
  answers.  A poll also tells whether the context is done before its records are handled and
  at the end of the iteration.
\<close>

record fetch_error =
  fe_Err :: go_error
  fe_Topic :: string
  fe_Partition :: int

record fetch_partition =
  fp_Topic :: string
  fp_Partition :: int
  fp_Err :: "go_error option"
  fp_Records :: "krecord list"

record fetches =
  f_Errors :: "fetch_error list"
  f_Partitions :: "fetch_partition list"
  f_DoneBefore :: bool
  f_DoneAfter :: bool

fun log_fetch_errors ::
  "logger \<Rightarrow> fetch_error list \<Rightarrow> 'a proc_scheme \<Rightarrow> 'a proc_scheme" where
  "log_fetch_errors log [] w = w"
| "log_fetch_errors log (e # es) w =
     log_fetch_errors log es
       (log_Error log kafkaFetchFailed
          [(''error'', LStr (Error_string (fe_Err e))), (''topic'', LStr (fe_Topic e)),
           (''partition'', LInt (fe_Partition e))] w)"

definition handle_partition ::
  "logger \<Rightarrow> 'a proc_scheme completion_store \<Rightarrow> 'a proc_scheme downstream_client
   \<Rightarrow> (krecord list \<Rightarrow> ('a proc_scheme, unit) io) \<Rightarrow> string \<Rightarrow> fetch_partition
   \<Rightarrow> 'a proc_scheme \<Rightarrow> 'a proc_scheme" where
  "handle_partition log st downstream commit groupID p w =
     (case fp_Err p of
        Some e \<Rightarrow>
          log_Error log kafkaFetchFailed
            [(''error'', LStr (Error_string e)), (''topic'', LStr (fp_Topic p)),
             (''partition'', LInt (fp_Partition p))] w
      | None \<Rightarrow>
     (case recordsSafeToCommit (fp_Records p) (handleRecord log st downstream groupID) w of
        (committed, w') \<Rightarrow>
          if committed = [] then w'
          else (case commit committed w' of
                  (Inl e, w'') \<Rightarrow>
                    log_Error log kafkaCommitFailed [(''error'', LStr (Error_string e))] w''
                | (Inr _, w'') \<Rightarrow> w'')))"

fun handle_partitions ::
  "(fetch_partition \<Rightarrow> 'w \<Rightarrow> 'w) \<Rightarrow> fetch_partition list \<Rightarrow> 'w \<Rightarrow> 'w" where
  "handle_partitions f [] w = w"
| "handle_partitions f (p # ps) w = handle_partitions f ps (f p w)"

definition worker_iteration ::
  "logger \<Rightarrow> 'a proc_scheme completion_store \<Rightarrow> 'a proc_scheme downstream_client
   \<Rightarrow> (krecord list \<Rightarrow> ('a proc_scheme, unit) io) \<Rightarrow> string \<Rightarrow> fetches
   \<Rightarrow> 'a proc_scheme \<Rightarrow> 'a proc_scheme" where
  "worker_iteration log st downstream commit groupID f w =
     (if f_DoneBefore f then w
      else handle_partitions (handle_partition log st downstream commit groupID)
             (f_Partitions f) (log_fetch_errors log (f_Errors f) w))"

text \<open>
  The loop over the polls of a run, up to the first that finds the context done.  A run with
  no such poll in the list has not ended yet: the list is what has been polled so far.
\<close>

fun worker_loop ::
  "(fetches \<Rightarrow> 'w \<Rightarrow> 'w) \<Rightarrow> fetches list \<Rightarrow> 'w \<Rightarrow> 'w" where
  "worker_loop body [] w = w"
| "worker_loop body (f # fs) w =
     (if f_DoneAfter f then body f w else worker_loop body fs (body f w))"

end
