(* ===== verification/Worker_Facts.thy ===== *)
theory Worker_Facts
  imports Worker
begin

text \<open>
  What the worker may rely on of its store and its downstream client, as locales, and what it
  then guarantees; the interpretation on the Postgres store.
\<close>

section \<open>The committed prefix\<close>

text \<open>\<open>all_true h rs w w'\<close>: handling \<open>rs\<close> in order answers true each time, from \<open>w\<close> to \<open>w'\<close>.\<close>

fun all_true :: "('r \<Rightarrow> 'w \<Rightarrow> bool \<times> 'w) \<Rightarrow> 'r list \<Rightarrow> 'w \<Rightarrow> 'w \<Rightarrow> bool" where
  "all_true h [] w w' \<longleftrightarrow> w' = w"
| "all_true h (r # rs) w w' \<longleftrightarrow> fst (h r w) \<and> all_true h rs (snd (h r w)) w'"

lemma recordsSafeToCommit_iff:
  "recordsSafeToCommit rs h w = (cs, w') \<longleftrightarrow>
     (\<exists>rest w1. rs = cs @ rest \<and> all_true h cs w w1 \<and>
        (rest = [] \<and> w' = w1 \<or> (\<exists>r rest'. rest = r # rest' \<and> h r w1 = (False, w'))))"
proof (induction rs arbitrary: w cs)
  case (Cons r rs)
  obtain b w2 where h: "h r w = (b, w2)" by fastforce
  show ?case
  proof (cases b)
    case False
    with h show ?thesis by (cases cs) auto
  next
    case True
    with h have eq: "recordsSafeToCommit (r # rs) h w = (cs, w') \<longleftrightarrow>
        (\<exists>cs'. cs = r # cs' \<and> recordsSafeToCommit rs h w2 = (cs', w'))"
      by (auto split: prod.splits)
    show ?thesis
    proof (cases cs)
      case Nil
      with h True eq show ?thesis by auto
    next
      case (Cons r' cs')
      with h True show ?thesis unfolding eq Cons.IH[of w2] by auto
    qed
  qed
qed auto

section \<open>Contracts\<close>

definition rows_le :: "(string \<times> string \<rightharpoonup> completion_row) \<Rightarrow> (string \<times> string \<rightharpoonup> completion_row) \<Rightarrow> bool"
where
  "rows_le m m' \<longleftrightarrow> (\<forall>k r. m k = Some r \<longrightarrow> (\<exists>r'. m' k = Some r' \<and> completion_le r r'))"

lemma rows_le_refl [simp]: "rows_le m m"
  by (simp add: rows_le_def)

lemma rows_le_trans: "rows_le a b \<Longrightarrow> rows_le b c \<Longrightarrow> rows_le a c"
  unfolding rows_le_def by (meson completion_le_trans)

lemma rows_le_processed:
  "rows_le m m' \<Longrightarrow> m k = Some r \<Longrightarrow> cc_status r = CompletionProcessed \<Longrightarrow> m' k = Some r"
  unfolding rows_le_def completion_le_def by (metis (no_types, lifting))

lemma rows_le_exists: "rows_le m m' \<Longrightarrow> m k \<noteq> None \<Longrightarrow> m' k \<noteq> None"
  unfolding rows_le_def by fastforce

text \<open>
  \<open>row\<close> reads the completion rows of a world and \<open>outside\<close> what the store and the logger never
  touch: the downstream service and what was sent to it.
\<close>

locale completion_contract =
  fixes st :: "'a proc_scheme completion_store"
    and inv :: "'a proc_scheme \<Rightarrow> bool"
    and row :: "'a proc_scheme \<Rightarrow> string \<times> string \<rightharpoonup> completion_row"
    and outside :: "'a proc_scheme \<Rightarrow> 'o"
  assumes logs: "inv (w\<lparr>proc_logs := l\<rparr>) = inv w" "row (w\<lparr>proc_logs := l\<rparr>) = row w"
      "outside (w\<lparr>proc_logs := l\<rparr>) = outside w"
    and claim_keeps: "st_Claim st ev c ty w = (r, w') \<Longrightarrow> inv w \<Longrightarrow>
       inv w' \<and> rows_le (row w) (row w') \<and> outside w' = outside w"
    and claim_exists: "st_Claim st ev c ty w = (Inr cl, w') \<Longrightarrow> inv w \<Longrightarrow> row w' (ev, c) \<noteq> None"
    and claim_processed: "st_Claim st ev c ty w = (Inr cl, w') \<Longrightarrow> inv w \<Longrightarrow>
       claim_Action cl = CompletionClaimAlreadyProcessed \<longleftrightarrow>
       (\<exists>r. row w' (ev, c) = Some r \<and> cc_status r = CompletionProcessed)"
    and processed_keeps: "st_MarkProcessed st ev c w = (b, w') \<Longrightarrow> inv w \<Longrightarrow>
       inv w' \<and> rows_le (row w) (row w') \<and> outside w' = outside w"
    and processed_done: "st_MarkProcessed st ev c w = (Inr True, w') \<Longrightarrow> inv w \<Longrightarrow>
       \<exists>r. row w' (ev, c) = Some r \<and> cc_status r = CompletionProcessed"
    and failed_keeps: "st_MarkFailed st ev c m w = (b, w') \<Longrightarrow> inv w \<Longrightarrow>
       inv w' \<and> rows_le (row w) (row w') \<and> outside w' = outside w"
    and failed_done: "st_MarkFailed st ev c m w = (Inr u, w') \<Longrightarrow> inv w \<Longrightarrow>
       row w' (ev, c) = Some x \<Longrightarrow> cc_status x \<noteq> CompletionProcessing"
begin

lemma log_at_frame [simp]:
  "inv (log_at lvl l m as w) = inv w" "row (log_at lvl l m as w) = row w"
  "outside (log_at lvl l m as w) = outside w"
  by (simp_all add: log_at_def logs)

end

text \<open>With a downstream client that leaves the completion rows to the store.\<close>

locale worker_contract = completion_contract st inv row outside
  for st :: "'a proc_scheme completion_store"
    and inv :: "'a proc_scheme \<Rightarrow> bool"
    and row :: "'a proc_scheme \<Rightarrow> string \<times> string \<rightharpoonup> completion_row"
    and outside :: "'a proc_scheme \<Rightarrow> 'o" +
  fixes ds :: "'a proc_scheme downstream_client"
    and deliver :: "Job \<Rightarrow> 'o \<Rightarrow> go_error option \<times> 'o"
  assumes deliver_keeps: "DeliverJob ds job w = (e, w') \<Longrightarrow> inv w \<Longrightarrow>
      inv w' \<and> rows_le (row w) (row w') \<and> deliver job (outside w) = (e, outside w')"
begin

lemma handleJob_keeps:
  "handleJob log ds job w = (e, w') \<Longrightarrow> inv w \<Longrightarrow>
   inv w' \<and> rows_le (row w) (row w') \<and> deliver job (outside w) = (e, outside w')"
  using deliver_keeps[of job w]
  by (auto simp: handleJob_def Let_def split: prod.splits option.splits)

text \<open>
  The ways through \<open>handleRecord\<close> with what each leaves: refused before the claim, claim failed,
  duplicate, delivered and marked, or not delivered.
\<close>

lemma handleRecord_paths:
  assumes op: "handleRecord log st ds c rec w = (b, w')" and inv: "inv w"
  obtains
    (refused) "\<not> b" "inv w'" "row w' = row w" "outside w' = outside w"
  | (claim_failed) job where "Unmarshal_Job (rec_Value rec) = Inr job" "StripeEventID job \<noteq> []" "\<not> b"
      "inv w'" "rows_le (row w) (row w')" "outside w' = outside w"
  | (duplicate) job r where "Unmarshal_Job (rec_Value rec) = Inr job" "StripeEventID job \<noteq> []" "b"
      "inv w'" "rows_le (row w) (row w')" "outside w' = outside w"
      "row w' (StripeEventID job, c) = Some r" "cc_status r = CompletionProcessed"
  | (delivered) job m where "Unmarshal_Job (rec_Value rec) = Inr job" "StripeEventID job \<noteq> []"
      "inv w'" "rows_le (row w) m" "rows_le m (row w')"
      "\<nexists>r. m (StripeEventID job, c) = Some r \<and> cc_status r = CompletionProcessed"
      "deliver job (outside w) = (None, outside w')"
      "b \<Longrightarrow> \<exists>r. row w' (StripeEventID job, c) = Some r \<and> cc_status r = CompletionProcessed"
  | (rejected) job err m where "Unmarshal_Job (rec_Value rec) = Inr job" "StripeEventID job \<noteq> []"
      "inv w'" "rows_le (row w) m" "rows_le m (row w')"
      "\<nexists>r. m (StripeEventID job, c) = Some r \<and> cc_status r = CompletionProcessed"
      "deliver job (outside w) = (Some err, outside w')"
      "b \<Longrightarrow> \<not> isRetryableJobError err \<and> (\<exists>r. row w' (StripeEventID job, c) = Some r \<and>
         cc_status r \<noteq> CompletionProcessing)"
proof (cases "\<exists>job. Unmarshal_Job (rec_Value rec) = Inr job \<and> StripeEventID job \<noteq> []")
  case False
  with op inv refused show thesis
    by (cases "Unmarshal_Job (rec_Value rec)") (auto simp: handleRecord_def)
next
  case True
  then obtain job where job: "Unmarshal_Job (rec_Value rec) = Inr job" "StripeEventID job \<noteq> []" by blast
  obtain r w1 where 1: "st_Claim st (StripeEventID job) c (EventType job) w = (r, w1)" by fastforce
  note k1 = claim_keeps[OF 1 inv]
  note op1 = op[unfolded handleRecord_def job(1) sum.case 1 prod.case if_not_P[OF job(2)]]
  show thesis
  proof (cases r)
    case (Inl e)
    with op1 k1 claim_failed[OF job] show thesis by auto
  next
    case cl: (Inr cl)
    note ex = claim_exists[OF 1[unfolded cl] inv] and pr = claim_processed[OF 1[unfolded cl] inv]
    show thesis
    proof (cases "claim_Action cl = CompletionClaimAlreadyProcessed")
      case True
      with pr obtain x where "row w1 (StripeEventID job, c) = Some x" "cc_status x = CompletionProcessed"
        by blast
      with op1 cl True k1 duplicate[OF job] show thesis by auto
    next
      case False
      obtain e w2 where 2: "handleJob log ds job w1 = (e, w2)" by fastforce
      note k2 = handleJob_keeps[OF 2 conjunct1[OF k1]]
      have np: "\<nexists>r. row w1 (StripeEventID job, c) = Some r \<and> cc_status r = CompletionProcessed"
        using pr False by simp
      have d: "deliver job (outside w) = (e, outside w2)" using k1 k2 by simp
      note op2 = op1[unfolded cl sum.case if_not_P[OF False] 2 prod.case]
      show thesis
      proof (cases e)
        case None
        obtain u w3 where 3: "st_MarkProcessed st (StripeEventID job) c w2 = (u, w3)" by fastforce
        note k3 = processed_keeps[OF 3 conjunct1[OF k2]]
        note dn = processed_done[of "StripeEventID job" c w2 w3]
        have f: "inv w' = inv w3" "row w' = row w3" "outside w' = outside w3" "b \<longleftrightarrow> u = Inr True"
          using op2[unfolded None option.case 3 prod.case] by (auto split: sum.splits if_splits)
        show thesis
          by (rule delivered[OF job _ conjunct1[OF conjunct2[OF k1]] _ np])
             (use f k2 k3 d None 3 dn in \<open>auto intro: rows_le_trans\<close>)
      next
        case (Some err)
        obtain u w3 where 3: "st_MarkFailed st (StripeEventID job) c (Error_string err) w2 = (u, w3)"
          by fastforce
        note k3 = failed_keeps[OF 3 conjunct1[OF k2]]
        have f: "inv w' = inv w3" "row w' = row w3" "outside w' = outside w3"
          "b \<longleftrightarrow> (\<exists>x. u = Inr x) \<and> \<not> isRetryableJobError err"
          using op2[unfolded Some option.case 3 prod.case] by (auto split: sum.splits)
        have "row w3 (StripeEventID job, c) \<noteq> None"
          using ex k2 k3 rows_le_exists by metis
        then obtain x where x: "row w3 (StripeEventID job, c) = Some x" by blast
        have fin: "cc_status x \<noteq> CompletionProcessing" if "u = Inr y" for y
          using failed_done[OF 3[unfolded that] conjunct1[OF k2] x] .
        show thesis
          by (rule rejected[OF job _ conjunct1[OF conjunct2[OF k1]] _ np])
             (use f k2 k3 d Some x fin in \<open>auto intro: rows_le_trans\<close>)
      qed
    qed
  qed
qed

lemma handleRecord_keeps:
  assumes "handleRecord log st ds c rec w = (b, w')" "inv w"
  shows "inv w' \<and> rows_le (row w) (row w')"
  using assms by (cases rule: handleRecord_paths) (auto intro: rows_le_trans)

text \<open>
  A handled record is settled: the row of its event and this consumer is processed, or it is no
  longer in flight and this very delivery answered a permanent error.
\<close>

definition settled :: "krecord \<Rightarrow> string \<Rightarrow> 'a proc_scheme \<Rightarrow> 'a proc_scheme \<Rightarrow> bool" where
  "settled rec c w w' \<longleftrightarrow>
     (\<exists>job r. Unmarshal_Job (rec_Value rec) = Inr job \<and> StripeEventID job \<noteq> [] \<and>
        row w' (StripeEventID job, c) = Some r \<and>
        (cc_status r = CompletionProcessed \<or>
         cc_status r \<noteq> CompletionProcessing \<and>
         (\<exists>e. deliver job (outside w) = (Some e, outside w') \<and> \<not> isRetryableJobError e)))"

lemma handleRecord_settled:
  assumes "handleRecord log st ds c rec w = (True, w')" "inv w"
  shows "settled rec c w w'"
  using assms by (cases rule: handleRecord_paths) (auto simp: settled_def)

text \<open>At most one delivery, of the job in the record, and none when the row is processed.\<close>

lemma handleRecord_delivers:
  assumes "handleRecord log st ds c rec w = (b, w')" "inv w"
  shows "outside w' = outside w \<or>
    (\<exists>job e. Unmarshal_Job (rec_Value rec) = Inr job \<and> StripeEventID job \<noteq> [] \<and>
       deliver job (outside w) = (e, outside w') \<and>
       (\<forall>r. row w (StripeEventID job, c) = Some r \<longrightarrow> cc_status r \<noteq> CompletionProcessed))"
  using assms
proof (cases rule: handleRecord_paths)
  case (delivered job m)
  then have "\<forall>r. row w (StripeEventID job, c) = Some r \<longrightarrow> cc_status r \<noteq> CompletionProcessed"
    using rows_le_processed by metis
  with delivered show ?thesis by blast
next
  case (rejected job err m)
  then have "\<forall>r. row w (StripeEventID job, c) = Some r \<longrightarrow> cc_status r \<noteq> CompletionProcessed"
    using rows_le_processed by metis
  with rejected show ?thesis by blast
qed auto

text \<open>Every record of the committed prefix of a batch was settled when it was handled.\<close>

lemma batch_settled:
  assumes "recordsSafeToCommit rs (handleRecord log st ds c) w = (cs, w')" "inv w"
  shows "inv w' \<and> rows_le (row w) (row w') \<and>
    (\<forall>rec \<in> set cs. \<exists>v v'. handleRecord log st ds c rec v = (True, v') \<and> settled rec c v v' \<and>
       rows_le (row v') (row w'))"
  using assms
proof (induction rs arbitrary: w w' cs)
  case (Cons rec rs)
  obtain b w1 where h: "handleRecord log st ds c rec w = (b, w1)" by fastforce
  note k = handleRecord_keeps[OF h Cons.prems(2)]
  show ?case
  proof (cases b)
    case False
    with Cons.prems(1) h k show ?thesis by auto
  next
    case True
    obtain cs' w2 where r: "recordsSafeToCommit rs (handleRecord log st ds c) w1 = (cs', w2)"
      by fastforce
    note ih = Cons.IH[OF r conjunct1[OF k]]
    have s: "settled rec c w w1"
      using handleRecord_settled[of log c rec w w1] h True Cons.prems(2) by simp
    have "cs = rec # cs'" "w' = w2" using Cons.prems(1) h True r by auto
    with ih k s h True show ?thesis by (auto intro: rows_le_trans)
  qed
qed auto

end

section \<open>The Postgres store\<close>

definition pg_completion_store :: "'s session_scheme completion_store" where
  "pg_completion_store = \<lparr>st_Claim = ClaimConsumerCompletion,
     st_MarkProcessed = MarkConsumerProcessed, st_MarkFailed = MarkConsumerFailed\<rparr>"

lemma pg_completion_store_sel [simp]:
  "st_Claim pg_completion_store = ClaimConsumerCompletion"
  "st_MarkProcessed pg_completion_store = MarkConsumerProcessed"
  "st_MarkFailed pg_completion_store = MarkConsumerFailed"
  by (simp_all add: pg_completion_store_def)

abbreviation pg_inv :: "'s session_scheme \<Rightarrow> bool" where "pg_inv w \<equiv> db_inv (pg_db w)"

abbreviation pg_rows :: "'s session_scheme \<Rightarrow> string \<times> string \<rightharpoonup> completion_row" where
  "pg_rows w \<equiv> consumer_completions (pg_db w)"

lemma db_le_rows: "db_le a b \<Longrightarrow> rows_le (consumer_completions a) (consumer_completions b)"
  using db_le_completion by (auto simp: rows_le_def)

interpretation pg: completion_contract pg_completion_store pg_inv pg_rows session.more
proof unfold_locales
  fix w w' :: "'s session_scheme" and ev c ty m :: string and r :: "CompletionClaim result"
    and r' :: "bool result" and l
  show "pg_inv (w\<lparr>proc_logs := l\<rparr>) = pg_inv w" "pg_rows (w\<lparr>proc_logs := l\<rparr>) = pg_rows w"
    by simp_all
  show "session.more (w\<lparr>proc_logs := l\<rparr>) = session.more w" by (cases w) simp
  show "st_Claim pg_completion_store ev c ty w = (r, w') \<Longrightarrow> pg_inv w \<Longrightarrow>
      pg_inv w' \<and> rows_le (pg_rows w) (pg_rows w') \<and> session.more w' = session.more w"
    using preservesD[OF preserves_Claim, of ev c ty w r w'] by (simp add: db_le_rows)
  show "st_MarkProcessed pg_completion_store ev c w = (r', w') \<Longrightarrow> pg_inv w \<Longrightarrow>
      pg_inv w' \<and> rows_le (pg_rows w) (pg_rows w') \<and> session.more w' = session.more w"
    using preservesD[OF preserves_MarkConsumerProcessed, of ev c w r' w'] by (simp add: db_le_rows)
  show "st_MarkFailed pg_completion_store ev c m w = (r', w') \<Longrightarrow> pg_inv w \<Longrightarrow>
      pg_inv w' \<and> rows_le (pg_rows w) (pg_rows w') \<and> session.more w' = session.more w"
    using preservesD[OF preserves_MarkConsumerFailed, of ev c m w r' w'] by (simp add: db_le_rows)
next
  fix w w' :: "'s session_scheme" and ev c ty :: string and cl
  assume op: "st_Claim pg_completion_store ev c ty w = (Inr cl, w')" "pg_inv w"
  then have post: "claim_post ev c (Inr cl) (pg_db w) (pg_db w')"
    by (simp add: ClaimConsumerCompletion_post)
  then show "pg_rows w' (ev, c) \<noteq> None" by (auto simp: claim_post_def completion_is_def)
  show "claim_Action cl = CompletionClaimAlreadyProcessed \<longleftrightarrow>
      (\<exists>r. pg_rows w' (ev, c) = Some r \<and> cc_status r = CompletionProcessed)"
    using post by (auto simp: claim_post_def completion_is_def)
next
  fix w w' :: "'s session_scheme" and ev c :: string
  assume "st_MarkProcessed pg_completion_store ev c w = (Inr True, w')" "pg_inv w"
  then show "\<exists>r. pg_rows w' (ev, c) = Some r \<and> cc_status r = CompletionProcessed"
    using MarkConsumerProcessed_post[of ev c w True w'] by auto
next
  fix w w' :: "'s session_scheme" and ev c m :: string and b r
  assume "st_MarkFailed pg_completion_store ev c m w = (Inr b, w')" "pg_inv w"
    "pg_rows w' (ev, c) = Some r"
  then show "cc_status r \<noteq> CompletionProcessing"
    using MarkConsumerFailed_post[of ev c m w b w'] by (cases b) auto
qed

end
