(* ===== verification/Store_Correct.thy ===== *)
theory Store_Correct
  imports Store_Facts
begin

text \<open>
  The properties of the store: what its operations guarantee under every schedule of faults and
  of other clients' transactions, and their exact behaviour when they run alone.
\<close>

section \<open>Reachable databases\<close>

lemma db_inv_empty [simp]: "db_inv (empty_database cast)"
  by (simp add: db_inv_def empty_database_def outbox_complete_def)

lemma outbox_rows_of_event:
  assumes "db_inv db"
  shows "length (filter (\<lambda>r. ob_event_id r = ev) (outbox_events db)) =
     (if \<exists>l. processed_events db ev = Some l \<and> pe_status l = StatusAccepted then 1 else 0)"
proof (cases "\<exists>l. processed_events db ev = Some l \<and> pe_status l = StatusAccepted")
  case True
  with assms obtain r where r: "r \<in> set (outbox_events db)" "ob_event_id r = ev"
    unfolding db_inv_def outbox_complete_def by blast
  with assms have "filter (\<lambda>x. ob_event_id x = ob_event_id r) (outbox_events db) = [r]"
    by (intro filter_eq_singleton_iff_distinct) (auto simp: db_inv_def)
  with True r show ?thesis by simp
next
  case False
  then have "filter (\<lambda>r. ob_event_id r = ev) (outbox_events db) = []"
    using assms by (auto simp: filter_empty_conv db_inv_def accepted_as_def)
  with False show ?thesis by simp
qed

lemma preserves_AcceptEvent: "preserves (AcceptEvent ev ty p)"
  by (rule preservesI) (use AcceptEvent_facts in blast)

lemma fn_keeps_None [simp]: "fn_keeps None"
  by (simp add: fn_keeps_def)

lemma fn_keeps_answer [simp]: "fn_keeps (map_option Pair fn)"
  by (cases fn) (simp_all add: fn_keeps_def)

text \<open>
  Any client: a sequence of calls of the operations of the store, each statement by statement.
  The callback of \<open>ProcessEvent\<close> may be missing or answer as it likes.
\<close>

datatype store_call =
    CallAccept string string string
  | CallProcess string string "go_error option option"
  | CallStatus string
  | CallOutboxStatus string
  | CallNext
  | CallMark string
  | CallClaim string string string
  | CallProcessed string string
  | CallFailed string string string
  | CallCompletionStatus string string
  | CallPing

fun run_call :: "store_call \<Rightarrow> 's session_scheme \<Rightarrow> 's session_scheme" where
  "run_call (CallAccept ev ty p) w = snd (AcceptEvent ev ty p w)"
| "run_call (CallProcess ev ty fn) w = snd (ProcessEvent ev ty (map_option Pair fn) w)"
| "run_call (CallStatus ev) w = snd (Status ev w)"
| "run_call (CallOutboxStatus ev) w = snd (OutboxStatus_of ev w)"
| "run_call CallNext w = snd (NextPendingOutbox w)"
| "run_call (CallMark ev) w = snd (MarkOutboxPublished ev w)"
| "run_call (CallClaim ev c ty) w = snd (ClaimConsumerCompletion ev c ty w)"
| "run_call (CallProcessed ev c) w = snd (MarkConsumerProcessed ev c w)"
| "run_call (CallFailed ev c m) w = snd (MarkConsumerFailed ev c m w)"
| "run_call (CallCompletionStatus ev c) w = snd (CompletionStatus_of ev c w)"
| "run_call CallPing w = snd (Ping w)"

fun run_calls :: "store_call list \<Rightarrow> 's session_scheme \<Rightarrow> 's session_scheme" where
  "run_calls [] w = w"
| "run_calls (x # xs) w = run_calls xs (run_call x w)"

lemma preserves_snd: "preserves op \<Longrightarrow> db_inv (pg_db w) \<Longrightarrow> db_inv (pg_db (snd (op w)))"
  by (rule preservesD(1)[OF _ prod.collapse[symmetric]])

lemmas preserves_calls =
  preserves_AcceptEvent preserves_Status preserves_OutboxStatus preserves_NextPendingOutbox
  preserves_MarkOutboxPublished preserves_Claim preserves_MarkConsumerProcessed
  preserves_MarkConsumerFailed preserves_CompletionStatus preserves_Ping

lemma run_call_inv: "db_inv (pg_db w) \<Longrightarrow> db_inv (pg_db (run_call x w))"
proof (cases x)
  case (CallProcess ev ty fn)
  assume "db_inv (pg_db w)"
  with CallProcess ProcessEvent_facts[OF prod.collapse[symmetric] this fn_keeps_answer] show ?thesis by simp
qed (simp_all add: preserves_snd preserves_calls)

lemma run_calls_inv: "db_inv (pg_db w) \<Longrightarrow> db_inv (pg_db (run_calls xs w))"
  by (induction xs arbitrary: w) (simp_all add: run_call_inv)

definition session_on :: "database \<Rightarrow> slot list \<Rightarrow> session" where
  "session_on db ss = \<lparr>proc_logs = [], pg_db = db, pg_slots = ss\<rparr>"

lemma session_on_sel [simp]:
  "pg_db (session_on db ss) = db" "pg_slots (session_on db ss) = ss" "proc_logs (session_on db ss) = []"
  by (simp_all add: session_on_def)

text \<open>
  C8: Start from an empty schema and make any calls of the operations of the store, in any order
  and number, with any faults (of a single statement, of a commit, of everything from some moment
  on) and any transactions of other clients between the statements: an event has exactly one
  outbox row if the ledger holds it as accepted, and none otherwise. The transactional outbox
  neither loses nor invents an event.
\<close>

theorem outbox_matches_ledger:
  "let db = pg_db (run_calls calls (session_on (empty_database cast) slots)) in
     length (filter (\<lambda>r. ob_event_id r = ev) (outbox_events db)) =
       (if \<exists>l. processed_events db ev = Some l \<and> pe_status l = StatusAccepted then 1 else 0)"
  unfolding Let_def by (rule outbox_rows_of_event) (simp add: run_calls_inv)

text \<open>
  C22: Every operation of the store except ProcessEvent keeps the schema invariant and only makes
  progress (db_le: ledger rows immutable, published outbox rows and processed completions final,
  attempt counts never lower), whatever faults and concurrent transactions the schedule holds.
\<close>

theorem store_operations_preserve:
  "preserves (AcceptEvent ev ty p) \<and> preserves (Status ev) \<and> preserves (OutboxStatus_of ev) \<and>
   preserves NextPendingOutbox \<and> preserves (MarkOutboxPublished ev) \<and>
   preserves (ClaimConsumerCompletion ev c ty) \<and> preserves (MarkConsumerProcessed ev c) \<and>
   preserves (MarkConsumerFailed ev c m) \<and> preserves (CompletionStatus_of ev c) \<and> preserves Ping"
  by (simp add: preserves_calls)

section \<open>AcceptEvent\<close>

text \<open>A session with nothing scheduled, for the witnesses.\<close>

definition test_cast :: "string \<Rightarrow> string option" where "test_cast s = Some s"

lemmas call_defs =
  BeginTx_def Commit_def tx_Exec_def db_Exec_def db_Query_def pg_call_def rows_affected_def
  after_fault_def quiet_def Let_def

lemmas sql_defs =
  sql_insert_ledger_def sql_insert_outbox_def sql_commit_def sql_select_status_def
  sql_update_ledger_def sql_insert_completion_def sql_select_completion_def
  sql_retry_completion_def sql_reclaim_completion_def sql_mark_processed_def sql_mark_failed_def
  sql_mark_outbox_def sql_next_outbox_def sql_select_outbox_def update_completion_def tx_start_def

lemmas text_eval =
  pg_text_ok_def bytes_of_def is_cont_def

lemma pg_text_ok_consts [simp]:
  "pg_text_ok StatusAccepted" "pg_text_ok StatusProcessing" "pg_text_ok StatusProcessed"
  "pg_text_ok OutboxPending" "pg_text_ok OutboxPublished"
  "pg_text_ok CompletionProcessing" "pg_text_ok CompletionProcessed" "pg_text_ok CompletionFailed"
  by (simp_all add: status_simps text_eval)

text \<open>
  C10: AcceptEvent that answers true has made the event durable: it was not in the ledger, and the
  database now holds its accepted ledger row together with a pending outbox row with the job.
  This holds under every schedule.
\<close>

theorem AcceptEvent_claimed:
  assumes "db_inv (pg_db w)" "AcceptEvent ev ty p w = (Inr True, w')"
  shows "processed_events (pg_db w) ev = None \<and>
    (\<exists>l. processed_events (pg_db w') ev = Some l \<and> pe_status l = StatusAccepted \<and>
         pe_event_type l = ty) \<and>
    (\<exists>row \<in> set (outbox_events (pg_db w')). ob_event_id row = ev \<and> ob_event_type row = ty \<and>
         ob_status row = OutboxPending \<and> jsonb_cast (pg_db w') p = Some (ob_payload row))"
  using AcceptEvent_facts[OF assms(2,1)] by (simp add: accept_post_def)

text \<open>What \<open>AcceptEvent\<close> does alone on a database: the result and the new database.\<close>

definition accepted_db :: "string \<Rightarrow> string \<Rightarrow> string \<Rightarrow> database \<Rightarrow> database" where
  "accepted_db ev ty j db = db\<lparr>
     processed_events := (processed_events db)(ev \<mapsto>
       \<lparr>pe_event_type = ty, pe_status = StatusAccepted, pe_received_at = db_now db,
        pe_processed_at = None, pe_failed_at = None, pe_error_message = None\<rparr>),
     outbox_events := outbox_events db @
       [\<lparr>ob_id = outbox_seq db, ob_event_id = ev, ob_event_type = ty, ob_payload = j,
         ob_status = OutboxPending, ob_created_at = db_now db, ob_published_at = None\<rparr>],
     outbox_seq := Suc (outbox_seq db)\<rparr>"

lemma AcceptEvent_alone_new:
  assumes "pg_slots w = []" "pg_text_ok ev" "pg_text_ok ty" "pg_text_ok p" "db_inv (pg_db w)"
    and "processed_events (pg_db w) ev = None" "jsonb_cast (pg_db w) p = Some j"
  shows "AcceptEvent ev ty p w = (Inr True, w\<lparr>pg_db := accepted_db ev ty j (pg_db w)\<rparr>)"
proof -
  have "ev \<notin> ob_event_id ` set (outbox_events (pg_db w))"
    using assms(5,6) by (auto simp: db_inv_def accepted_as_def)
  with assms show ?thesis
    by (cases w) (simp add: AcceptEvent_def call_defs sql_defs accepted_db_def)
qed

lemma AcceptEvent_alone_known:
  assumes "pg_slots w = []" "pg_text_ok ev" "pg_text_ok ty" "processed_events (pg_db w) ev \<noteq> None"
  shows "AcceptEvent ev ty p w = (Inr False, w)"
  using assms by (cases w) (auto simp: AcceptEvent_def call_defs sql_defs)

section \<open>More on AcceptEvent\<close>

text \<open>
  C11: Once an event was accepted, no later AcceptEvent of the same id answers true, whatever
  transactions committed in between and whatever faults happen: a Stripe retry never makes a
  second outbox row.
\<close>

theorem AcceptEvent_once:
  assumes "db_inv (pg_db w)" "AcceptEvent ev ty p w = (Inr True, w1)"
    and "pg_db w2 = run_txns no_tx xs (pg_db w1)"
    and "AcceptEvent ev ty' p' w2 = (r, w3)"
  shows "r \<noteq> Inr True"
proof
  have inv2: "db_inv (pg_db w2)" and le: "db_le (pg_db w1) (pg_db w2)"
    using run_txns_inv[of "pg_db w1" no_tx xs] AcceptEvent_facts[OF assms(2,1)] assms(3) by auto
  assume "r = Inr True"
  then have "processed_events (pg_db w2) ev = None"
    using AcceptEvent_facts[OF assms(4) inv2] by (simp add: accept_post_def)
  moreover from AcceptEvent_facts[OF assms(2,1)] obtain l where
    "processed_events (pg_db w1) ev = Some l" by (auto simp: accept_post_def)
  ultimately show False using db_le_ledger[OF le] by simp
qed

definition example_db :: database where
  "example_db = accepted_db ''evt_1'' ''invoice.paid'' ''{}'' (empty_database test_cast)"

lemma text_ok_examples [simp]:
  "pg_text_ok ''evt_1''" "pg_text_ok ''invoice.paid''" "pg_text_ok ''{}''" "pg_text_ok ''svc''"
  by (simp_all add: text_eval)

lemma empty_sel [simp]:
  "processed_events (empty_database c) = Map.empty" "outbox_events (empty_database c) = []"
  "outbox_seq (empty_database c) = 1" "consumer_completions (empty_database c) = Map.empty"
  "db_now (empty_database c) = 0" "jsonb_cast (empty_database c) = c"
  by (simp_all add: empty_database_def)

lemma accept_example:
  "AcceptEvent ''evt_1'' ''invoice.paid'' ''{}'' (session_on (empty_database test_cast) []) =
     (Inr True, session_on example_db [])"
  by (subst AcceptEvent_alone_new[where j = "''{}''"])
     (simp_all add: test_cast_def example_db_def session_on_def)

lemma example_db_inv [simp]: "db_inv example_db"
  using preservesD(1)[of "AcceptEvent ''evt_1'' ''invoice.paid'' ''{}''"
      "session_on (empty_database test_cast) []" "Inr True" "session_on example_db []"]
  AcceptEvent_facts[OF accept_example] accept_example by simp

lemma accept_again:
  "AcceptEvent ''evt_1'' ''invoice.paid'' ''{}'' (session_on example_db []) =
     (Inr False, session_on example_db [])"
  by (rule AcceptEvent_alone_known) (simp_all add: example_db_def accepted_db_def)

text \<open>A schedule on which no other client commits: only the faults of our own calls.\<close>

definition undisturbed :: "'s session_scheme \<Rightarrow> bool" where
  "undisturbed w \<longleftrightarrow> (\<forall>s \<in> set (pg_slots w). sl_others s = [])"

lemma undisturbed_call:
  assumes "pg_call t texts f w = (r, w')" "undisturbed w"
  shows "undisturbed w' \<and> (pg_db w' = pg_db w \<or> pg_db w' = snd (f (pg_db w))) \<and>
    (\<forall>x. r = Inr x \<longrightarrow> f (pg_db w) = (Inr x, pg_db w'))"
proof -
  have "sl_others (head_slot (pg_slots w)) = []" "set (tl (pg_slots w)) \<subseteq> set (pg_slots w)"
    using assms(2) by (cases "pg_slots w"; auto simp: undisturbed_def quiet_def)+
  then show ?thesis
    using assms by (cases "f (pg_db w)")
      (auto simp: pg_call_def Let_def undisturbed_def after_fault_def split: fault.splits if_splits)
qed

lemma undisturbed_Exec:
  assumes "tx_Exec t texts f w = (r, w')" "undisturbed w"
  shows "undisturbed w' \<and> (pg_db w' = pg_db w \<or> pg_db w' = snd (f t (pg_db w))) \<and>
    (\<forall>x t'. r = Inr (x, t') \<longrightarrow> (\<exists>n. f t (pg_db w) = (Inr (n, t'), pg_db w') \<and> x = rows_affected w n))"
  using assms undisturbed_call[of t texts "f t" w]
  by (fastforce simp: tx_Exec_def split: prod.splits sum.splits)

lemma insert_ledger_db [simp]: "snd (sql_insert_ledger ev ty st t db) = db"
  by (simp add: sql_insert_ledger_def)

lemma insert_outbox_db: "\<exists>n. snd (sql_insert_outbox ev ty p st t db) = db\<lparr>outbox_seq := n\<rparr>"
proof -
  have "\<exists>n. db = db\<lparr>outbox_seq := n\<rparr>" by (rule exI[of _ "outbox_seq db"]) simp
  then show ?thesis by (auto simp: sql_insert_outbox_def Let_def split: option.splits)
qed

lemma insert_ledger_fresh:
  assumes "sql_insert_ledger ev ty st t db = (Inr (n, t1), db')" "n \<noteq> 0"
  shows "db' = db \<and> processed_events db ev = None \<and> t1 = t\<lparr>tx_ledger := (tx_ledger t)(ev \<mapsto>
      \<lparr>pe_event_type = ty, pe_status = st, pe_received_at = tx_now t,
       pe_processed_at = None, pe_failed_at = None, pe_error_message = None\<rparr>)\<rparr>"
  using assms by (auto simp: sql_insert_ledger_def split: if_splits)

lemma insert_outbox_ok:
  assumes "sql_insert_outbox ev ty p st t db = (Inr (n, t1), db')"
  shows "\<exists>j. jsonb_cast db p = Some j \<and> db' = db\<lparr>outbox_seq := Suc (outbox_seq db)\<rparr> \<and>
    t1 = t\<lparr>tx_outbox := tx_outbox t @ [\<lparr>ob_id = outbox_seq db, ob_event_id = ev, ob_event_type = ty,
      ob_payload = j, ob_status = st, ob_created_at = tx_now t, ob_published_at = None\<rparr>]\<rparr>"
  using assms by (auto simp: sql_insert_outbox_def Let_def split: option.splits if_splits)

text \<open>The part of \<open>AcceptEvent\<close> after the claim, in a transaction that holds the ledger row.\<close>

definition accept_outcome ::
  "string \<Rightarrow> string \<Rightarrow> string \<Rightarrow> database \<Rightarrow> bool result \<Rightarrow> database \<Rightarrow> bool" where
  "accept_outcome ev ty p db r db' \<longleftrightarrow>
     (r \<noteq> Inr True \<and> (\<exists>n. db' = db\<lparr>outbox_seq := n\<rparr>)) \<or>
     (\<exists>j. processed_events db ev = None \<and> jsonb_cast db p = Some j \<and>
          db' = accepted_db ev ty j db \<and> (r = Inr True \<or> (\<exists>e. r = Inl (ErrWrap ''store: commit'' e))))"

lemma accept_outcome_same: "r \<noteq> Inr True \<Longrightarrow> accept_outcome ev ty p db r db"
  unfolding accept_outcome_def by (intro disjI1 conjI exI[of _ "outbox_seq db"]) simp_all

lemma accept_tail_atomic:
  assumes op: "(case tx_Exec t1 [ev, ty, p, OutboxPending]
             (sql_insert_outbox ev ty p OutboxPending) w2 of
        (Inl e, w3) \<Rightarrow> (Inl (ErrWrap ''store: insert outbox'' e), w3)
      | (Inr (_, t2), w3) \<Rightarrow>
          (case Commit t2 w3 of
             (Inl e, w4) \<Rightarrow> (Inl (ErrWrap ''store: commit'' e), w4)
           | (Inr _, w4) \<Rightarrow> (Inr True, w4))) = (r, w')"
    and w2: "undisturbed w2" "pg_db w2 = db" and fresh: "processed_events db ev = None"
    and t1: "t1 = (tx_start db)\<lparr>tx_ledger := [ev \<mapsto>
      \<lparr>pe_event_type = ty, pe_status = StatusAccepted, pe_received_at = db_now db,
       pe_processed_at = None, pe_failed_at = None, pe_error_message = None\<rparr>]\<rparr>"
  shows "accept_outcome ev ty p db r (pg_db w')"
proof -
  obtain r3 w3 where 3: "tx_Exec t1 [ev, ty, p, OutboxPending]
      (sql_insert_outbox ev ty p OutboxPending) w2 = (r3, w3)" by fastforce
  note f3 = undisturbed_Exec[OF 3 w2(1), unfolded w2(2)]
  show ?thesis
  proof (cases r3)
    case (Inl e)
    then have "r \<noteq> Inr True \<and> w' = w3" using op 3 by auto
    moreover have "\<exists>n. pg_db w3 = db\<lparr>outbox_seq := n\<rparr>"
      using conjunct1[OF conjunct2[OF f3]] insert_outbox_db[of ev ty p OutboxPending t1 db]
      by (auto intro: exI[of _ "outbox_seq db"])
    ultimately show ?thesis by (simp add: accept_outcome_def)
  next
    case (Inr y)
    obtain x t2 where y: "y = (x, t2)" by fastforce
    from conjunct2[OF conjunct2[OF f3]] Inr y obtain k where
      "sql_insert_outbox ev ty p OutboxPending t1 db = (Inr (k, t2), pg_db w3)" by blast
    from insert_outbox_ok[OF this] obtain j where j: "jsonb_cast db p = Some j"
      "pg_db w3 = db\<lparr>outbox_seq := Suc (outbox_seq db)\<rparr>"
      "snd (sql_commit t2 (pg_db w3)) = accepted_db ev ty j db"
      using t1 by (auto simp: sql_commit_def accepted_db_def tx_start_def)
    obtain r4 w4 where 4: "Commit t2 w3 = (r4, w4)" by fastforce
    note f4 = undisturbed_call[OF 4[unfolded Commit_def] conjunct1[OF f3], unfolded j(3)]
    have res: "w' = w4" "r = (case r4 of Inl e \<Rightarrow> Inl (ErrWrap ''store: commit'' e) | Inr u \<Rightarrow> Inr True)"
      using op 3 4 Inr y by (auto split: sum.splits)
    have fin: "pg_db w4 = accepted_db ev ty j db" if "r4 = Inr u" for u
      using conjunct2[OF conjunct2[OF f4]] that j(3) by simp
    show ?thesis
      using conjunct1[OF conjunct2[OF f4]] fin res j(1,2) fresh
      by (cases r4) (auto simp: accept_outcome_def)
  qed
qed

text \<open>
  C12: Ledger row and outbox row are all or nothing. With any faults of its own calls,
  AcceptEvent leaves either the tables as they were (only the sequence may have moved) or
  exactly the accepted event with both rows; it answers true only in the second case, and
  the one error after which the rows may exist is that of the commit.
\<close>

theorem AcceptEvent_atomic:
  assumes "undisturbed w" "AcceptEvent ev ty p w = (r, w')"
  shows "(r \<noteq> Inr True \<and> (\<exists>n. pg_db w' = (pg_db w)\<lparr>outbox_seq := n\<rparr>)) \<or>
    (\<exists>j. processed_events (pg_db w) ev = None \<and> jsonb_cast (pg_db w) p = Some j \<and>
         pg_db w' = accepted_db ev ty j (pg_db w) \<and>
         (r = Inr True \<or> (\<exists>e. r = Inl (ErrWrap ''store: commit'' e))))"
proof (unfold accept_outcome_def[symmetric])
  obtain r1 w1 where 1: "BeginTx w = (r1, w1)" by fastforce
  note f1 = undisturbed_call[OF 1[unfolded BeginTx_def] assms(1)]
  have d1: "pg_db w1 = pg_db w" using conjunct1[OF conjunct2[OF f1]] by auto
  show "accept_outcome ev ty p (pg_db w) r (pg_db w')"
  proof (cases r1)
    case (Inl e)
    then have "r \<noteq> Inr True \<and> w' = w1" using assms(2) 1 by (auto simp: AcceptEvent_def)
    with d1 show ?thesis by (simp add: accept_outcome_same)
  next
    case (Inr t)
    obtain r2 w2 where 2: "tx_Exec t [ev, ty, StatusAccepted]
        (sql_insert_ledger ev ty StatusAccepted) w1 = (r2, w2)" by fastforce
    note f2 = undisturbed_Exec[OF 2 conjunct1[OF f1], unfolded d1]
    have t: "t = tx_start (pg_db w)" using conjunct2[OF conjunct2[OF f1]] Inr by auto
    have d2: "pg_db w2 = pg_db w" using conjunct1[OF conjunct2[OF f2]] by simp
    show ?thesis
    proof (cases "\<exists>n t1. r2 = Inr (Inr n, t1) \<and> n \<noteq> 0")
      case False
      then have "r \<noteq> Inr True \<and> w' = w2"
        using assms(2) 1 2 Inr by (cases r2) (auto simp: AcceptEvent_def split: sum.splits if_splits)
      with d2 show ?thesis by (simp add: accept_outcome_same)
    next
      case True
      then obtain n t1 where n: "r2 = Inr (Inr n, t1)" "n \<noteq> 0" by blast
      then obtain m where m: "sql_insert_ledger ev ty StatusAccepted t (pg_db w) = (Inr (m, t1), pg_db w2)"
        "Inr n = rows_affected w1 m" using conjunct2[OF conjunct2[OF f2]] by blast
      then have "m \<noteq> 0" using n(2) rows_affected_Inr[OF m(2)[symmetric]] by simp
      note t1 = insert_ledger_fresh[OF m(1) this]
      show ?thesis
        by (rule accept_tail_atomic[of t1 ev ty p w2 r w'])
          (use assms(2) 1 2 Inr n f2 d2 t t1 in \<open>simp_all add: AcceptEvent_def tx_start_def\<close>)
    qed
  qed
qed

section \<open>Calls that run alone\<close>

lemma pg_call_alone_eq:
  "pg_slots w = [] \<Longrightarrow> pg_call t texts f w =
     (if list_all pg_text_ok texts then (fst (f (pg_db w)), w\<lparr>pg_db := snd (f (pg_db w))\<rparr>)
      else (Inl invalid_text, w))"
  by (cases w) (simp add: pg_call_def quiet_def after_fault_def Let_def)

lemma rows_affected_alone [simp]: "pg_slots w = [] \<Longrightarrow> rows_affected w n = Inr n"
  by (simp add: rows_affected_def quiet_def)

lemmas alone_defs = db_Exec_def db_Query_def pg_call_alone_eq

lemma pg_db_update_same [simp]: "w\<lparr>pg_db := pg_db w\<rparr> = (w::'s session_scheme)"
  by simp

text \<open>Claims\<close>

definition put_completion :: "string \<Rightarrow> string \<Rightarrow> completion_row \<Rightarrow> database \<Rightarrow> database" where
  "put_completion ev c r db = db\<lparr>consumer_completions := (consumer_completions db)((ev, c) \<mapsto> r)\<rparr>"

text \<open>
  C25: What a claim answers and writes, on every state of the row: new, retry,
  retry_from_failed and already_processed, with the attempt number, and the integer overflow
  of attempt_count as the error of the retrying statement.
\<close>

theorem ClaimConsumerCompletion_alone:
  assumes "pg_slots w = []" "db_inv (pg_db w)" "pg_text_ok ev" "pg_text_ok c" "pg_text_ok ty"
  shows "ClaimConsumerCompletion ev c ty w =
    (let db = pg_db w; done = (\<lambda>a k d. (Inr \<lparr>claim_Action = a, claim_AttemptCount = k\<rparr>, w\<lparr>pg_db := d\<rparr>))
     in case consumer_completions db (ev, c) of
       None \<Rightarrow> done CompletionClaimNew 1 (put_completion ev c
         \<lparr>cc_event_type = ty, cc_status = CompletionProcessing, cc_error = None, cc_attempt_count = 1,
          cc_created_at = db_now db, cc_updated_at = db_now db, cc_processed_at = None\<rparr> db)
     | Some r \<Rightarrow>
         let next = r\<lparr>cc_status := CompletionProcessing, cc_error := None,
               cc_attempt_count := cc_attempt_count r + 1, cc_updated_at := db_now db\<rparr>
         in if cc_status r = CompletionProcessed
            then done CompletionClaimAlreadyProcessed (cc_attempt_count r) db
            else if cc_attempt_count r = int4_max
            then (Inl (ErrWrap (if cc_status r = CompletionProcessing
                    then ''store: retry consumer completion''
                    else ''store: reclaim failed consumer completion'') integer_out_of_range), w)
            else done (if cc_status r = CompletionProcessing then CompletionClaimRetry
                       else CompletionClaimRetryFromFailed)
                   (cc_attempt_count r + 1) (put_completion ev c next db))"
proof (cases "consumer_completions (pg_db w) (ev, c)")
  case None
  with assms show ?thesis
    by (simp add: ClaimConsumerCompletion_def alone_defs sql_insert_completion_def put_completion_def Let_def)
next
  case (Some r)
  with assms(2) have ok: "completion_row_ok r" by (auto simp: db_inv_def intro: ranI)
  then consider "cc_status r = CompletionProcessed" |
    "cc_status r = CompletionProcessing" "cc_error r = None" | "cc_status r = CompletionFailed"
    by (auto simp: completion_row_ok_def completion_status_check_def status_simps)
  then show ?thesis
    using Some assms ok
    by cases (cases r; auto simp: ClaimConsumerCompletion_def alone_defs sql_insert_completion_def
        sql_select_completion_def sql_retry_completion_def sql_reclaim_completion_def
        update_completion_def put_completion_def completion_row_ok_def Let_def)+
qed

lemma attempt_query_grows:
  assumes q: "db_Query texts stmt w = (Inr k, w')" "db_inv (pg_db w)"
    and stmt: "\<And>db x. stmt db = (Inr k, x) \<Longrightarrow>
      \<exists>r. consumer_completions db (ev, c) = Some r \<and> k = cc_attempt_count r + 1"
    and row: "consumer_completions (pg_db w) (ev, c) = Some row"
  shows "cc_attempt_count row < k"
proof -
  obtain db where db: "db_le (pg_db w) db" "stmt db = (Inr k, pg_db w')"
    using db_Query_Inr[OF q] by blast
  from db_le_completion[OF db(1) row] stmt[OF db(2)] show ?thesis by (auto simp: completion_le_def)
qed

lemma claim_attempts_grow:
  assumes op: "ClaimConsumerCompletion ev c ty w = (Inr cl, w')" and inv: "db_inv (pg_db w)"
    and act: "claim_Action cl \<noteq> CompletionClaimAlreadyProcessed"
    and row: "consumer_completions (pg_db w) (ev, c) = Some row"
  shows "cc_attempt_count row < claim_AttemptCount cl"
proof -
  obtain r1 w1 where 1: "db_Exec [ev, c, ty, CompletionProcessing]
      (sql_insert_completion ev c ty CompletionProcessing) w = (r1, w1)" by fastforce
  obtain r2 w2 where 2: "db_Query [ev, c] (sql_select_completion ev c) w1 = (r2, w2)" by fastforce
  obtain r3 w3 where 3: "db_Query [ev, c, CompletionProcessing]
      (sql_retry_completion ev c CompletionProcessing) w2 = (r3, w3)" by fastforce
  obtain r4 w4 where 4: "db_Query [CompletionProcessing, ev, c, CompletionFailed]
      (sql_reclaim_completion CompletionProcessing ev c CompletionFailed) w2 = (r4, w4)" by fastforce
  note s1 = claim_calls(1-2)[OF 1 inv]
  note s2 = claim_calls(5-6)[OF 2 s1(1)]
  obtain row2 where row2: "consumer_completions (pg_db w2) (ev, c) = Some row2" "completion_le row row2"
    using db_le_completion[OF db_le_trans[OF s1(2) s2(2)] row] by blast
  have le: "cc_attempt_count row \<le> cc_attempt_count row2" using row2(2) by (simp add: completion_le_def)
  from op 1 2 3 4 show ?thesis
  proof (cases rule: claim_paths)
    case new
    with ClaimConsumerCompletion_post[OF op inv] row show ?thesis
      by (auto simp: claim_post_def)
  next
    case (retry k)
    have "cc_attempt_count row2 < k"
      by (rule attempt_query_grows[OF 3[unfolded retry(1)] s2(1) _ row2(1)])
         (auto simp: sql_retry_completion_def dest!: returning_attempts_Inr)
    with le retry show ?thesis by simp
  next
    case (reclaim k)
    have "cc_attempt_count row2 < k"
      by (rule attempt_query_grows[OF 4[unfolded reclaim(1)] s2(1) _ row2(1)])
         (auto simp: sql_reclaim_completion_def dest!: returning_attempts_Inr)
    with le reclaim show ?thesis by simp
  qed (use act in auto)
qed

lemma claim_row_after:
  assumes "ClaimConsumerCompletion ev c ty w = (Inr cl, w')" "db_inv (pg_db w)"
  shows "\<exists>row. consumer_completions (pg_db w') (ev, c) = Some row \<and>
    cc_attempt_count row = claim_AttemptCount cl"
  using ClaimConsumerCompletion_post[OF assms] by (auto simp: claim_post_def completion_is_def)

text \<open>
  C20: After a successful claim of an event and consumer, whatever commits in between, a later
  successful claim is not new; it answers already_processed with a number that is not lower (the
  attempts made so far, which may be the number of the first claim), or it is a further attempt
  and carries a greater number.
\<close>

theorem claims_numbered_once:
  assumes "db_inv (pg_db w)" "ClaimConsumerCompletion ev c ty w = (Inr cl1, w1)"
    and "pg_db w2 = run_txns no_tx xs (pg_db w1)"
    and "ClaimConsumerCompletion ev c ty' w2 = (Inr cl2, w3)"
  shows "claim_Action cl2 \<noteq> CompletionClaimNew \<and>
    (if claim_Action cl2 = CompletionClaimAlreadyProcessed
     then claim_AttemptCount cl1 \<le> claim_AttemptCount cl2
     else claim_AttemptCount cl1 < claim_AttemptCount cl2)"
proof -
  have inv1: "db_inv (pg_db w1)" using preservesD(1)[OF preserves_Claim assms(2,1)] .
  have inv2: "db_inv (pg_db w2)" and le: "db_le (pg_db w1) (pg_db w2)"
    using run_txns_inv[OF inv1 tx_inv_no_tx] assms(3) by auto
  obtain row where row: "consumer_completions (pg_db w1) (ev, c) = Some row"
    "cc_attempt_count row = claim_AttemptCount cl1" using claim_row_after[OF assms(2,1)] by blast
  obtain row2 where row2: "consumer_completions (pg_db w2) (ev, c) = Some row2" "completion_le row row2"
    using db_le_completion[OF le row(1)] by blast
  have first: "claim_AttemptCount cl1 \<le> cc_attempt_count row2" using row(2) row2(2) by (simp add: completion_le_def)
  have "claim_AttemptCount cl1 < claim_AttemptCount cl2" if "claim_Action cl2 \<noteq> CompletionClaimAlreadyProcessed"
    using claim_attempts_grow[OF assms(4) inv2 that row2(1)] first by simp
  moreover have "claim_AttemptCount cl1 \<le> claim_AttemptCount cl2"
    using db_le_completion[OF preservesD(2)[OF preserves_Claim assms(4) inv2] row2(1)]
      claim_row_after[OF assms(4) inv2] first by (auto simp: completion_le_def)
  moreover have "claim_Action cl2 \<noteq> CompletionClaimNew"
    using ClaimConsumerCompletion_post[OF assms(4) inv2] row2(1) by (auto simp: claim_post_def)
  ultimately show ?thesis by simp
qed

text \<open>
  C21: After MarkConsumerProcessed answered true, every later successful claim answers
  already_processed, whatever commits in between: a handled job is not handled again.
\<close>

theorem processed_is_final:
  assumes "db_inv (pg_db w)" "MarkConsumerProcessed ev c w = (Inr True, w1)"
    and "pg_db w2 = run_txns no_tx xs (pg_db w1)"
    and "ClaimConsumerCompletion ev c ty w2 = (Inr cl, w3)"
  shows "claim_Action cl = CompletionClaimAlreadyProcessed"
proof -
  obtain row where row: "consumer_completions (pg_db w1) (ev, c) = Some row" "cc_status row = CompletionProcessed"
    using MarkConsumerProcessed_post[OF assms(2,1)] by auto
  have inv1: "db_inv (pg_db w1)" using preservesD(1)[OF preserves_MarkConsumerProcessed assms(2,1)] .
  have inv2: "db_inv (pg_db w2)" and le: "db_le (pg_db w1) (pg_db w2)"
    using run_txns_inv[OF inv1 tx_inv_no_tx] assms(3) by auto
  have inv3: "db_le (pg_db w2) (pg_db w3)" using preservesD(2)[OF preserves_Claim assms(4) inv2] .
  have "consumer_completions (pg_db w3) (ev, c) = Some row"
    by (rule db_le_processed[OF db_le_trans[OF le inv3] row])
  with row ClaimConsumerCompletion_post[OF assms(4) inv2] show ?thesis
    by (auto simp: claim_post_def completion_is_def)
qed

section \<open>Outbox\<close>

lemma least_id_None [simp]: "least_id rs = None \<longleftrightarrow> rs = []"
  by (cases rs) (auto split: option.splits)

lemma least_id_Some:
  "least_id rs = Some m \<Longrightarrow> m \<in> set rs \<and> (\<forall>r \<in> set rs. ob_id m \<le> ob_id r)"
  by (induction rs arbitrary: m) (force split: option.splits if_splits)+

lemma db_Query_NoRows:
  assumes "db_Query texts f w = (Inl e, w')" "errors_Is_NoRows e"
  shows "\<exists>db. f db = (Inl e, pg_db w')"
proof -
  define db where "db = run_txns no_tx (sl_others (head_slot (pg_slots w))) (pg_db w)"
  have "f db = (Inl e, pg_db w')"
    using assms by (cases "f db") (auto simp: db_Query_def pg_call_def Let_def after_fault_def
        db_def[symmetric] split: fault.splits if_splits)
  then show ?thesis ..
qed

lemma next_pending:
  assumes "db_inv (pg_db w)" "NextPendingOutbox w = (Inr x, w')"
  shows "case x of
      None \<Rightarrow> \<forall>r \<in> set (outbox_events (pg_db w')). ob_status r \<noteq> OutboxPending
    | Some row \<Rightarrow> \<exists>r \<in> set (outbox_events (pg_db w')).
        ob_status r = OutboxPending \<and> or_EventID row = ob_event_id r \<and> or_Payload row = ob_payload r \<and>
        (\<forall>q \<in> set (outbox_events (pg_db w')). ob_status q = OutboxPending \<longrightarrow> ob_id r \<le> ob_id q)"
proof (cases "db_Query [OutboxPending] (sql_next_outbox OutboxPending) w")
  case (Pair r w1)
  show ?thesis
  proof (cases r)
    case (Inl e)
    with assms(2) Pair have e: "errors_Is_NoRows e" "x = None" "w' = w1"
      by (auto simp: NextPendingOutbox_def split: if_splits)
    with db_Query_NoRows[OF Pair[unfolded Inl]] show ?thesis
      by (auto simp: sql_next_outbox_def filter_empty_conv split: option.splits)
  next
    case (Inr y)
    obtain ev p where y: "y = (ev, p)" by fastforce
    with assms(2) Pair Inr have x: "x = Some \<lparr>or_EventID = ev, or_Payload = p\<rparr>" "w' = w1"
      by (auto simp: NextPendingOutbox_def)
    from db_Query_Inr[OF Pair[unfolded Inr y] assms(1)] obtain m where
      "least_id (filter (\<lambda>r. ob_status r = OutboxPending) (outbox_events (pg_db w1))) = Some m"
      "ev = ob_event_id m" "p = ob_payload m"
      by (auto simp: sql_next_outbox_def split: option.splits)
    with least_id_Some[OF this(1)] x show ?thesis by fastforce
  qed
qed

lemma next_pending_row:
  assumes "db_inv (pg_db w)" "NextPendingOutbox w = (Inr (Some row), w')"
  shows "\<exists>r \<in> set (outbox_events (pg_db w')). or_EventID row = ob_event_id r \<and> or_Payload row = ob_payload r"
  using next_pending[OF assms] by auto

text \<open>
  C26: NextPendingOutbox answers the pending row of least id of the outbox it read, and nil
  only when no row is pending.
\<close>

theorem NextPendingOutbox_least:
  assumes "db_inv (pg_db w)" "NextPendingOutbox w = (Inr x, w')"
  shows "case x of
      None \<Rightarrow> \<forall>r \<in> set (outbox_events (pg_db w')). ob_status r \<noteq> OutboxPending
    | Some row \<Rightarrow> \<exists>r \<in> set (outbox_events (pg_db w')).
        ob_status r = OutboxPending \<and> or_EventID row = ob_event_id r \<and> or_Payload row = ob_payload r \<and>
        (\<forall>q \<in> set (outbox_events (pg_db w')). ob_status q = OutboxPending \<longrightarrow> ob_id r \<le> ob_id q)"
  by (rule next_pending[OF assms])

lemma mark_outbox_result:
  assumes "sql_mark_outbox OutboxPublished ev OutboxPending db = (Inr n, db')"
  shows "\<forall>r \<in> set (outbox_events db'). ob_event_id r = ev \<longrightarrow> ob_status r \<noteq> OutboxPending"
    "n \<noteq> 0 \<Longrightarrow> \<exists>r \<in> set (outbox_events db'). ob_event_id r = ev \<and> ob_status r = OutboxPublished"
proof -
  define hit :: "outbox_row \<Rightarrow> bool" where "hit = (\<lambda>r. ob_event_id r = ev \<and> ob_status r = OutboxPending)"
  define g :: "outbox_row \<Rightarrow> outbox_row" where "g = (\<lambda>r. if hit r
     then r\<lparr>ob_status := OutboxPublished, ob_published_at := Some (db_now db)\<rparr> else r)"
  have res: "sql_mark_outbox OutboxPublished ev OutboxPending db =
      (Inr (length (filter hit (outbox_events db))), db\<lparr>outbox_events := map g (outbox_events db)\<rparr>)"
    unfolding sql_mark_outbox_def hit_def[symmetric] Let_def g_def[symmetric] by simp
  have n: "n = length (filter hit (outbox_events db))"
    using assms unfolding res by simp
  have out: "outbox_events db' = map g (outbox_events db)"
    using assms unfolding res by auto
  have "ob_status (g r) \<noteq> OutboxPending" if "ob_event_id (g r) = ev" for r
    using that by (cases "hit r") (simp_all add: g_def, simp add: hit_def)
  then show "\<forall>r \<in> set (outbox_events db'). ob_event_id r = ev \<longrightarrow> ob_status r \<noteq> OutboxPending"
    by (simp add: out)
  assume "n \<noteq> 0"
  then have "filter hit (outbox_events db) \<noteq> []" by (simp add: n)
  then obtain r where "r \<in> set (outbox_events db)" "hit r" unfolding filter_empty_conv by blast
  then have "g r \<in> set (outbox_events db')" "ob_event_id (g r) = ev" "ob_status (g r) = OutboxPublished"
    by (simp_all add: out g_def) (simp add: hit_def)
  then show "\<exists>r \<in> set (outbox_events db'). ob_event_id r = ev \<and> ob_status r = OutboxPublished" by blast
qed

text \<open>
  After MarkOutboxPublished answered, no row of the event is pending any more, and an
  answer of true means that its row is published.
\<close>

theorem MarkOutboxPublished_marks:
  assumes "db_inv (pg_db w)" "MarkOutboxPublished ev w = (Inr b, w')"
  shows "(b \<longrightarrow> (\<exists>r \<in> set (outbox_events (pg_db w')). ob_event_id r = ev \<and> ob_status r = OutboxPublished)) \<and>
         (\<forall>r \<in> set (outbox_events (pg_db w')). ob_event_id r = ev \<longrightarrow> ob_status r = OutboxPublished)"
proof -
  obtain ra where ra: "db_Exec [OutboxPublished, ev, OutboxPending]
      (sql_mark_outbox OutboxPublished ev OutboxPending) w = (Inr (Inr ra), w')" "b = (ra = 1)"
    using assms(2) by (auto simp: MarkOutboxPublished_def split: prod.splits sum.splits)
  obtain db n where db: "sql_mark_outbox OutboxPublished ev OutboxPending db = (Inr n, pg_db w')"
    "Inr ra = rows_affected w n" using db_Exec_Inr[OF ra(1) assms(1)] by blast
  have "ra = n" using rows_affected_Inr[OF db(2)[symmetric]] .
  moreover have "\<forall>r \<in> set (outbox_events (pg_db w')). outbox_row_ok r"
    using preservesD(1)[OF preserves_MarkOutboxPublished assms(2,1)] by (simp add: db_inv_def)
  ultimately show ?thesis
    using mark_outbox_result[OF db(1)] ra(2) by (auto simp: outbox_row_ok_def)
qed

text \<open>
  C28: ProcessEvent answers true only when the event was new and is now processed, and false
  only when the ledger holds the event; processing is never committed. The callback may run
  any operations that keep the invariant.
\<close>

theorem ProcessEvent_claimed:
  assumes "db_inv (pg_db w)" "fn_keeps fn" "ProcessEvent ev ty fn w = (Inr claimed, w')"
  shows "if claimed
    then processed_events (pg_db w) ev = None \<and>
      (\<exists>l. processed_events (pg_db w') ev = Some l \<and> pe_status l = StatusProcessed \<and>
           pe_event_type l = ty \<and> pe_processed_at l \<noteq> None)
    else processed_events (pg_db w') ev \<noteq> None"
  using ProcessEvent_facts[OF assms(3,1,2)] by (auto simp: process_post_def)

section \<open>The properties at concrete inputs\<close>

lemma session_on_update [simp]: "session_on db ss\<lparr>pg_db := db'\<rparr> = session_on db' ss"
  by (simp add: session_on_def)

lemma undisturbed_session_on [simp]:
  "undisturbed (session_on db ss) \<longleftrightarrow> (\<forall>s \<in> set ss. sl_others s = [])"
  by (simp add: undisturbed_def)

theorem AcceptEvent_claimed_witness:
  "processed_events example_db ''evt_1'' \<noteq> None \<and>
   (\<exists>row \<in> set (outbox_events example_db). ob_event_id row = ''evt_1'' \<and> ob_status row = OutboxPending)"
  using AcceptEvent_claimed[OF _ accept_example] by auto

theorem AcceptEvent_once_witness:
  "fst (AcceptEvent ''evt_1'' ''invoice.paid'' ''{}'' (session_on example_db [])) \<noteq> Inr True"
  using AcceptEvent_once[OF _ accept_example _ accept_again, of "[]"] accept_again by simp

text \<open>The insert into the outbox fails after the ledger row was inserted.\<close>

lemma accept_outbox_fails:
  "AcceptEvent ''evt_1'' ''invoice.paid'' ''{}''
     (session_on (empty_database test_cast) [quiet, quiet, \<lparr>sl_others = [], sl_fault = FailBefore ''x''\<rparr>]) =
   (Inl (ErrWrap ''store: insert outbox'' (ErrNew ''x'')), session_on (empty_database test_cast) [])"
  by (simp add: AcceptEvent_def call_defs sql_defs session_on_def empty_database_def)

theorem AcceptEvent_atomic_witness:
  "snd (AcceptEvent ''evt_1'' ''invoice.paid'' ''{}''
     (session_on (empty_database test_cast) [quiet, quiet, \<lparr>sl_others = [], sl_fault = FailBefore ''x''\<rparr>])) =
   session_on (empty_database test_cast) [] \<and>
   (\<exists>n. empty_database test_cast = empty_database test_cast\<lparr>outbox_seq := n\<rparr>)"
  using AcceptEvent_atomic[OF _ accept_outbox_fails] accept_outbox_fails by (simp add: quiet_def)

definition claimed_row_at :: "int \<Rightarrow> completion_row" where
  "claimed_row_at k = \<lparr>cc_event_type = ''invoice.paid'', cc_status = CompletionProcessing, cc_error = None,
     cc_attempt_count = k, cc_created_at = 0, cc_updated_at = 0, cc_processed_at = None\<rparr>"

definition done_row :: completion_row where
  "done_row = \<lparr>cc_event_type = ''invoice.paid'', cc_status = CompletionProcessed, cc_error = None,
     cc_attempt_count = 1, cc_created_at = 0, cc_updated_at = 0, cc_processed_at = Some 0\<rparr>"

abbreviation "example_with r \<equiv> put_completion ''evt_1'' ''svc'' r example_db"

lemma example_db_sel [simp]:
  "consumer_completions example_db = Map.empty" "db_now example_db = 0"
  by (simp_all add: example_db_def accepted_db_def)

lemma put_completion_sel [simp]:
  "consumer_completions (put_completion ev c r db) = (consumer_completions db)((ev, c) \<mapsto> r)"
  "db_now (put_completion ev c r db) = db_now db"
  by (simp_all add: put_completion_def)

lemma put_completion_put [simp]:
  "put_completion ev c r (put_completion ev c r' db) = put_completion ev c r db"
  by (simp add: put_completion_def)

lemma put_completion_inv: "db_inv db \<Longrightarrow> completion_row_ok r \<Longrightarrow> db_inv (put_completion ev c r db)"
  by (auto simp: db_inv_def put_completion_def ran_def simp del: split_paired_All split_paired_Ex)

lemma example_with_inv [simp]: "db_inv (example_with (claimed_row_at 1))" "db_inv (example_with done_row)"
  by (auto intro!: put_completion_inv simp: completion_row_ok_def claimed_row_at_def done_row_def int4_max_def)

lemma claim_example:
  "ClaimConsumerCompletion ''evt_1'' ''svc'' ''invoice.paid'' (session_on example_db []) =
     (Inr \<lparr>claim_Action = CompletionClaimNew, claim_AttemptCount = 1\<rparr>,
      session_on (example_with (claimed_row_at 1)) [])"
  by (simp add: ClaimConsumerCompletion_def alone_defs sql_insert_completion_def claimed_row_at_def
      put_completion_def)

lemma claim_example_retry:
  "ClaimConsumerCompletion ''evt_1'' ''svc'' ''invoice.paid''
     (session_on (example_with (claimed_row_at 1)) []) =
     (Inr \<lparr>claim_Action = CompletionClaimRetry, claim_AttemptCount = 2\<rparr>,
      session_on (example_with (claimed_row_at 2)) [])"
  by (simp add: ClaimConsumerCompletion_def alone_defs sql_insert_completion_def
      sql_select_completion_def sql_retry_completion_def update_completion_def claimed_row_at_def
      int4_max_def) (simp add: put_completion_def)

lemma processed_example:
  "MarkConsumerProcessed ''evt_1'' ''svc'' (session_on (example_with (claimed_row_at 1)) []) =
     (Inr True, session_on (example_with done_row) [])"
  by (simp add: MarkConsumerProcessed_def alone_defs sql_mark_processed_def update_completion_def
      claimed_row_at_def done_row_def int4_max_def) (simp add: put_completion_def)

lemma claim_example_done:
  "ClaimConsumerCompletion ''evt_1'' ''svc'' ''invoice.paid'' (session_on (example_with done_row) []) =
     (Inr \<lparr>claim_Action = CompletionClaimAlreadyProcessed, claim_AttemptCount = 1\<rparr>,
      session_on (example_with done_row) [])"
  by (simp add: ClaimConsumerCompletion_def alone_defs sql_insert_completion_def
      sql_select_completion_def done_row_def)

theorem ClaimConsumerCompletion_alone_witness:
  "ClaimConsumerCompletion ''evt_1'' ''svc'' ''invoice.paid'' (session_on (example_with (claimed_row_at 1)) []) =
     (Inr \<lparr>claim_Action = CompletionClaimRetry, claim_AttemptCount = 2\<rparr>,
      session_on (example_with (claimed_row_at 2)) [])"
  by (subst ClaimConsumerCompletion_alone) (simp_all add: Let_def claimed_row_at_def int4_max_def
      put_completion_inv completion_row_ok_def)

theorem claims_numbered_once_witness:
  "(\<exists>cl1 w1 cl2 w2. ClaimConsumerCompletion ''evt_1'' ''svc'' ''invoice.paid'' (session_on example_db []) =
       (Inr cl1, w1) \<and>
     ClaimConsumerCompletion ''evt_1'' ''svc'' ''invoice.paid'' w1 = (Inr cl2, w2) \<and>
     claim_AttemptCount cl1 < claim_AttemptCount cl2)"
  using claims_numbered_once[OF _ claim_example _ claim_example_retry, of "[]"] claim_example
    claim_example_retry by simp

theorem processed_is_final_witness:
  "\<exists>w1 cl w2. MarkConsumerProcessed ''evt_1'' ''svc'' (session_on (example_with (claimed_row_at 1)) []) =
       (Inr True, w1) \<and>
     ClaimConsumerCompletion ''evt_1'' ''svc'' ''invoice.paid'' w1 = (Inr cl, w2) \<and>
     claim_Action cl = CompletionClaimAlreadyProcessed"
  using processed_is_final[OF _ processed_example _ claim_example_done, of "[]"] processed_example
    claim_example_done by simp

lemma next_example:
  "NextPendingOutbox (session_on example_db []) =
     (Inr (Some \<lparr>or_EventID = ''evt_1'', or_Payload = ''{}''\<rparr>), session_on example_db [])"
  by (simp add: NextPendingOutbox_def alone_defs sql_next_outbox_def example_db_def accepted_db_def)

theorem NextPendingOutbox_least_witness:
  "\<exists>r \<in> set (outbox_events example_db). ob_status r = OutboxPending \<and> ob_event_id r = ''evt_1''"
  using NextPendingOutbox_least[OF _ next_example] by auto

lemma mark_example:
  "\<exists>w'. MarkOutboxPublished ''evt_1'' (session_on example_db []) = (Inr True, w')"
  by (simp add: MarkOutboxPublished_def alone_defs sql_mark_outbox_def Let_def example_db_def accepted_db_def)

theorem MarkOutboxPublished_marks_witness:
  "\<exists>r \<in> set (outbox_events (pg_db (snd (MarkOutboxPublished ''evt_1'' (session_on example_db []))))).
     ob_event_id r = ''evt_1'' \<and> ob_status r = OutboxPublished"
  using mark_example MarkOutboxPublished_marks[of "session_on example_db []" "''evt_1''"] by fastforce

lemma process_example:
  "\<exists>w'. ProcessEvent ''evt_1'' ''invoice.paid'' None (session_on (empty_database test_cast) []) = (Inr True, w')"
  by (simp add: ProcessEvent_def call_defs sql_defs)

theorem ProcessEvent_claimed_witness:
  "\<exists>l. processed_events (pg_db (snd (ProcessEvent ''evt_1'' ''invoice.paid'' None
      (session_on (empty_database test_cast) [])))) ''evt_1'' = Some l \<and> pe_status l = StatusProcessed"
  using process_example ProcessEvent_claimed[of "session_on (empty_database test_cast) []" None "''evt_1''" "''invoice.paid''" True]
  by fastforce

end
