(* ===== verification/Worker_Correct.thy ===== *)
theory Worker_Correct
  imports Worker_Facts Store_Correct
begin

text \<open>
  The worker on the Postgres store, an HTTP network and a Kafka group: the instance of its
  contracts, and its properties.
\<close>

section \<open>The network and the group\<close>

text \<open>
  The world of a worker process.  \<open>net_answers\<close> schedules what \<open>client.Do\<close> answers to each call (the
  final status after the redirects it followed, or its error), \<open>net_sent\<close> lists the requests it was
  called with; the requests a call sends are the matter of \<open>Http_Client\<close>.
  \<open>commit_answers\<close> schedules what \<open>CommitRecords\<close> answers, \<open>group_commits\<close> lists the records of
  each successful commit.
\<close>

record worker_world = session +
  net_answers :: "int result list"
  net_sent :: "http_request list"
  commit_answers :: "go_error option list"
  group_commits :: "krecord list list"

type_synonym net = "int result list \<times> http_request list"

definition net_step :: "http_request \<Rightarrow> (net, int) io" where
  "net_step rq n =
     (case n of
        ([], sent) \<Rightarrow> (Inl (ErrNew ''connection refused''), ([], sent @ [rq]))
      | (a # as, sent) \<Rightarrow> (a, (as, sent @ [rq])))"

definition net_of :: "'s worker_world_scheme \<Rightarrow> net" where
  "net_of w = (net_answers w, net_sent w)"

definition net_do :: "http_request \<Rightarrow> ('s worker_world_scheme, int) io" where
  "net_do rq w =
     (case net_step rq (net_of w) of
        (r, (as, sent)) \<Rightarrow> (r, w\<lparr>net_answers := as, net_sent := sent\<rparr>))"

definition net_downstream ::
  "(string \<Rightarrow> go_error option) \<Rightarrow> string \<Rightarrow> 's worker_world_scheme downstream_client" where
  "net_downstream nre url =
     NewHTTPDownstream \<lparr>baseURL = url, new_request_err = nre, do_request = net_do\<rparr>"

definition net_deliver ::
  "(string \<Rightarrow> go_error option) \<Rightarrow> string \<Rightarrow> Job \<Rightarrow> net \<Rightarrow> go_error option \<times> net" where
  "net_deliver nre url =
     httpDownstream_DeliverJob \<lparr>baseURL = url, new_request_err = nre, do_request = net_step\<rparr>"

definition group_commit :: "krecord list \<Rightarrow> ('s worker_world_scheme, unit) io" where
  "group_commit rs w =
     (case commit_answers w of
        Some e # as \<Rightarrow> (Inl e, w\<lparr>commit_answers := as\<rparr>)
      | as \<Rightarrow> (Inr (), w\<lparr>commit_answers := tl as, group_commits := group_commits w @ [rs]\<rparr>))"

text \<open>What only the network and the Kafka client touch.\<close>

definition group_of :: "'s worker_world_scheme \<Rightarrow> go_error option list \<times> krecord list list" where
  "group_of w = (commit_answers w, group_commits w)"

lemma net_of_logs [simp]: "net_of (w\<lparr>proc_logs := l\<rparr>) = net_of w" "group_of (w\<lparr>proc_logs := l\<rparr>) = group_of w"
  by (simp_all add: net_of_def group_of_def)

lemma net_of_more:
  "session.more w' = session.more w \<Longrightarrow> net_of w' = net_of w \<and> group_of w' = group_of w"
  by (cases w; cases w') (simp add: net_of_def group_of_def)

lemma net_do_frame:
  "net_do rq w = (r, w') \<Longrightarrow>
   pg_db w' = pg_db w \<and> group_of w' = group_of w \<and> net_step rq (net_of w) = (r, net_of w')"
  by (auto simp: net_do_def net_of_def group_of_def split: prod.splits)

lemma net_downstream_deliver:
  "DeliverJob (net_downstream nre url) job w = (e, w') \<Longrightarrow>
   pg_db w' = pg_db w \<and> group_of w' = group_of w \<and>
   net_deliver nre url job (net_of w) = (e, net_of w')"
  by (auto simp: net_downstream_def NewHTTPDownstream_def net_deliver_def
      httpDownstream_DeliverJob_def split: sum.splits option.splits prod.splits if_splits
      dest!: net_do_frame)

definition world_of where "world_of w = (net_of w, group_of w)"

definition world_deliver where
  "world_deliver nre url job ng =
     (case net_deliver nre url job (fst ng) of (e, n) \<Rightarrow> (e, (n, snd ng)))"

lemma world_deliver_iff [simp]:
  "world_deliver nre url job (world_of w) = (e, world_of w') \<longleftrightarrow>
   net_deliver nre url job (net_of w) = (e, net_of w') \<and> group_of w' = group_of w"
  by (auto simp: world_deliver_def world_of_def split: prod.splits)


interpretation net: worker_contract pg_completion_store pg_inv pg_rows world_of
  "net_downstream nre url" "world_deliver nre url"
proof unfold_locales
  fix w w' :: "'s worker_world_scheme" and ev c ty m :: string and r :: "CompletionClaim result"
    and r' :: "bool result" and l job e
  show "pg_inv (w\<lparr>proc_logs := l\<rparr>) = pg_inv w" "pg_rows (w\<lparr>proc_logs := l\<rparr>) = pg_rows w"
    "world_of (w\<lparr>proc_logs := l\<rparr>) = world_of w" by (simp_all add: world_of_def)
  show "st_Claim pg_completion_store ev c ty w = (r, w') \<Longrightarrow> pg_inv w \<Longrightarrow>
      pg_inv w' \<and> rows_le (pg_rows w) (pg_rows w') \<and> world_of w' = world_of w"
    unfolding world_of_def using pg.claim_keeps net_of_more by blast
  show "st_MarkProcessed pg_completion_store ev c w = (r', w') \<Longrightarrow> pg_inv w \<Longrightarrow>
      pg_inv w' \<and> rows_le (pg_rows w) (pg_rows w') \<and> world_of w' = world_of w"
    unfolding world_of_def using pg.processed_keeps net_of_more by blast
  show "st_MarkFailed pg_completion_store ev c m w = (r', w') \<Longrightarrow> pg_inv w \<Longrightarrow>
      pg_inv w' \<and> rows_le (pg_rows w) (pg_rows w') \<and> world_of w' = world_of w"
    unfolding world_of_def using pg.failed_keeps net_of_more by blast
  show "DeliverJob (net_downstream nre url) job w = (e, w') \<Longrightarrow> pg_inv w \<Longrightarrow>
      pg_inv w' \<and> rows_le (pg_rows w) (pg_rows w') \<and> world_deliver nre url job (world_of w) = (e, world_of w')"
    using net_downstream_deliver[of nre url job w e w'] by simp
qed (erule (1) pg.claim_exists | erule (1) pg.claim_processed | erule (1) pg.processed_done |
     erule (2) pg.failed_done)+

section \<open>Delivery and its classification\<close>

text \<open>
  For a job that marshals and a URL that parses, a delivery sends exactly one request
  with the JSON of the job and touches no row. It answers no error exactly for a 2xx status,
  a retryable error exactly for a transport error, a 429 or a status of 500 and more, and a
  permanent error for every other status; the error carries the status.
\<close>

theorem DeliverJob_outcome:
  assumes "Marshal_Job job = Inr body" "nre url = None" "net_answers w = a # as"
  shows "\<exists>e w'. DeliverJob (net_downstream nre url) job w = (e, w') \<and>
    net_sent w' = net_sent w @
      [\<lparr>req_URL = url, req_ContentType = ''application/json'', req_Body = body\<rparr>] \<and>
    pg_db w' = pg_db w \<and>
    (e = None \<longleftrightarrow> (\<exists>s. a = Inr s \<and> 200 \<le> s \<and> s < 300)) \<and>
    (e \<noteq> None \<and> isRetryableJobError (the e) \<longleftrightarrow>
       (case a of Inl _ \<Rightarrow> True | Inr s \<Rightarrow> 500 \<le> s \<or> s = 429)) \<and>
    (\<forall>s. a = Inr s \<longrightarrow> e \<noteq> None \<longrightarrow>
       (\<exists>je. errors_AsType_JobError (the e) = Some je \<and> HTTPStatus je = s \<and> Cause je = None))"
  using assms
  by (cases a) (auto simp: net_downstream_def NewHTTPDownstream_def httpDownstream_DeliverJob_def
      net_do_def net_step_def net_of_def isRetryable_classify classifyHTTPStatus_def)

lemma net_deliver_cases:
  assumes "net_deliver nre url job n = (e, n')"
  shows "(n' = n \<and> (\<exists>m c. e = Some (permanentJobError m c)) \<and>
      ((\<exists>c. Marshal_Job job = Inl c) \<or> nre url \<noteq> None)) \<or>
    (\<exists>body. Marshal_Job job = Inr body \<and> nre url = None \<and>
       snd n' = snd n @ [\<lparr>req_URL = url, req_ContentType = ''application/json'', req_Body = body\<rparr>] \<and>
       (case fst n of
          Inr s # _ \<Rightarrow> e = (if 200 \<le> s \<and> s < 300 then None else Some (classifyHTTPStatus s))
        | Inl c # _ \<Rightarrow> e = Some (retryableJobError ''downstream request'' c 0)
        | [] \<Rightarrow> \<exists>c. e = Some (retryableJobError ''downstream request'' c 0)))"
  using assms
  by (cases n; cases "fst n")
     (auto simp: net_deliver_def httpDownstream_DeliverJob_def net_step_def
      split: sum.splits option.splits if_splits)

text \<open>A permanent answer, as the worker counts it.\<close>

definition permanent_status :: "int \<Rightarrow> bool" where
  "permanent_status s \<longleftrightarrow> \<not> (200 \<le> s \<and> s < 300) \<and> s < 500 \<and> s \<noteq> 429"

definition undeliverable :: "(string \<Rightarrow> go_error option) \<Rightarrow> string \<Rightarrow> Job \<Rightarrow> bool" where
  "undeliverable nre url job \<longleftrightarrow> (\<exists>c. Marshal_Job job = Inl c) \<or> nre url \<noteq> None"

lemma deliver_permanent:
  assumes "net_deliver nre url job n = (Some e, n')" "\<not> isRetryableJobError e"
  shows "undeliverable nre url job \<or> (\<exists>s as. fst n = Inr s # as \<and> permanent_status s)"
  using net_deliver_cases[OF assms(1)] assms(2)
  by (auto simp: undeliverable_def permanent_status_def isRetryable_classify
      split: list.splits sum.splits if_splits)

section \<open>handleRecord\<close>

text \<open>
  \<open>record_settled\<close>: in the database after the record was handled its completion row is processed,
  or no longer in flight after a permanent answer (the first of \<open>answers\<close>) or a job that no
  request can carry.
\<close>

definition record_settled ::
  "(string \<Rightarrow> go_error option) \<Rightarrow> string \<Rightarrow> string \<Rightarrow> krecord \<Rightarrow> int result list \<Rightarrow> database \<Rightarrow> bool"
where
  "record_settled nre url c rec answers db \<longleftrightarrow>
    (\<exists>job r. Unmarshal_Job (rec_Value rec) = Inr job \<and> StripeEventID job \<noteq> [] \<and>
       consumer_completions db (StripeEventID job, c) = Some r \<and>
       (cc_status r = CompletionProcessed \<or>
        cc_status r \<noteq> CompletionProcessing \<and>
        (undeliverable nre url job \<or> (\<exists>s as. answers = Inr s # as \<and> permanent_status s))))"

lemma handled_settled:
  assumes "handleRecord log pg_completion_store (net_downstream nre url) c rec w = (True, w')"
    and "db_inv (pg_db w)"
  shows "record_settled nre url c rec (net_answers w) (pg_db w')"
proof -
  obtain job r where *: "Unmarshal_Job (rec_Value rec) = Inr job" "StripeEventID job \<noteq> []"
    "consumer_completions (pg_db w') (StripeEventID job, c) = Some r"
    "cc_status r = CompletionProcessed \<or> cc_status r \<noteq> CompletionProcessing \<and>
       (\<exists>e. net_deliver nre url job (net_of w) = (Some e, net_of w') \<and> \<not> isRetryableJobError e)"
    using net.handleRecord_settled[OF assms] unfolding net.settled_def world_deliver_iff by blast
  then show ?thesis
    using deliver_permanent[of nre url job "net_of w"]
    unfolding record_settled_def by (fastforce simp: net_of_def)
qed

text \<open>
  C5: handleRecord answers true (the offset may be committed) only when the record is
  settled: the completion row of its event is processed, or it is out of flight after a
  permanent answer of the downstream to this very delivery. This holds under every schedule
  of database faults, concurrent clients and answers.
\<close>

theorem handleRecord_true_settled:
  assumes "db_inv (pg_db w)"
    and "handleRecord log pg_completion_store (net_downstream nre url) c rec w = (True, w')"
  shows "record_settled nre url c rec (net_answers w) (pg_db w')"
  using handled_settled[OF assms(2,1)] .

text \<open>
  C18: Handling a record calls the HTTP client at most once, with a request to the configured URL
  with the JSON of the job in the record, and not at all when the completion row is already
  processed. (Redirects that the client follows within the call are not counted.)
\<close>

theorem handleRecord_one_delivery:
  assumes "db_inv (pg_db w)"
    and "handleRecord log pg_completion_store (net_downstream nre url) c rec w = (b, w')"
  shows "net_sent w' = net_sent w \<or>
    (\<exists>job body. Unmarshal_Job (rec_Value rec) = Inr job \<and> Marshal_Job job = Inr body \<and>
       net_sent w' = net_sent w @
         [\<lparr>req_URL = url, req_ContentType = ''application/json'', req_Body = body\<rparr>] \<and>
       (\<forall>r. consumer_completions (pg_db w) (StripeEventID job, c) = Some r \<longrightarrow>
          cc_status r \<noteq> CompletionProcessed))"
  using net.handleRecord_delivers[OF assms(2,1)] unfolding world_deliver_iff
proof (elim disjE exE conjE)
  fix job e
  assume *: "Unmarshal_Job (rec_Value rec) = Inr job"
    "net_deliver nre url job (net_of w) = (e, net_of w')"
    "\<forall>r. consumer_completions (pg_db w) (StripeEventID job, c) = Some r \<longrightarrow>
       cc_status r \<noteq> CompletionProcessed"
  from net_deliver_cases[OF *(2)] *(1,3) show ?thesis by (auto simp: net_of_def)
qed (simp add: world_of_def net_of_def)

text \<open>A record that met a transport error, a 429 or a 5xx is refused, whatever the database does.\<close>

definition retryable_answer :: "int result \<Rightarrow> bool" where
  "retryable_answer a \<longleftrightarrow> (case a of Inl c \<Rightarrow> True | Inr s \<Rightarrow> 500 \<le> s \<or> s = 429)"

lemma retryable_refused:
  assumes "db_inv (pg_db w)"
    and "handleRecord log pg_completion_store (net_downstream nre url) c rec w = (b, w')"
    and "net_sent w' \<noteq> net_sent w" "net_answers w = a # as" "retryable_answer a"
  shows "\<not> b"
  using assms(2,1)
proof (cases rule: net.handleRecord_paths)
  case (delivered job m)
  with net_deliver_cases[OF conjunct1[OF delivered(7)[unfolded world_deliver_iff]]] assms(3-5) show ?thesis
    by (auto simp: net_of_def retryable_answer_def split: sum.splits if_splits)
next
  case (rejected job err m)
  with net_deliver_cases[OF conjunct1[OF rejected(7)[unfolded world_deliver_iff]]] assms(3-5) show ?thesis
    by (auto simp: net_of_def isRetryable_classify retryable_answer_def split: sum.splits if_splits)
qed (use assms(3) in \<open>auto simp: world_of_def net_of_def\<close>)

definition malformed :: "krecord \<Rightarrow> bool" where
  "malformed rec \<longleftrightarrow> (\<forall>job. Unmarshal_Job (rec_Value rec) = Inr job \<longrightarrow> StripeEventID job = [])"

lemma handleRecord_malformed:
  "malformed rec \<Longrightarrow> \<exists>m. handleRecord log st ds c rec w =
     (False, log_Error log stripeJobUnmarshalFailed [(''error'', LStr m)] w)"
  by (cases "Unmarshal_Job (rec_Value rec)") (auto simp: handleRecord_def malformed_def)

section \<open>A fetched partition\<close>

text \<open>What a handler answers to each of some records in order, each from the world the last one left.\<close>

fun answers :: "('r \<Rightarrow> 'w \<Rightarrow> bool \<times> 'w) \<Rightarrow> 'r list \<Rightarrow> 'w \<Rightarrow> bool list" where
  "answers h [] w = []"
| "answers h (r # rs) w = fst (h r w) # answers h rs (snd (h r w))"

text \<open>
  C29: For every handler, stateful as handleRecord is: recordsSafeToCommit returns the longest
  prefix of the records to which the handler, run on them in order, answers true; and it has run
  the handler on this prefix and on the first refused record, and on nothing after it.
\<close>

theorem recordsSafeToCommit_takeWhile:
  "let n = length (takeWhile id (answers handle records w)) in
     recordsSafeToCommit records handle w =
       (take n records, fold (\<lambda>r w. snd (handle r w)) (take (Suc n) records) w)"
  unfolding Let_def by (induction records arbitrary: w) (auto split: prod.splits bool.splits)

text \<open>
  C30: A record that is not a job, or has no stripe_event_id, at the head of a fetched
  partition blocks it: the iteration logs one error, touches neither store nor downstream,
  and commits nothing.
\<close>

theorem malformed_head_blocks:
  assumes "malformed rec" "fp_Records p = rec # rest" "fp_Err p = None"
  shows "\<exists>m. handle_partition log st ds commit c p w =
     log_Error log stripeJobUnmarshalFailed [(''error'', LStr m)] w"
  using handleRecord_malformed[OF assms(1), of log st ds c w] assms
  by (auto simp: handle_partition_def)

lemma world_of_eq: "world_of w' = world_of w \<Longrightarrow> net_of w' = net_of w \<and> group_of w' = group_of w"
  by (simp add: world_of_def)

lemma handleRecord_group:
  assumes "handleRecord log pg_completion_store (net_downstream nre url) c rec w = (b, w')"
    and "db_inv (pg_db w)"
  shows "group_of w' = group_of w"
  using net.handleRecord_delivers[OF assms] by (auto dest: world_of_eq)

lemma batch_group:
  assumes "recordsSafeToCommit rs (handleRecord log pg_completion_store (net_downstream nre url) c) w =
      (cs, w')" "db_inv (pg_db w)"
  shows "group_of w' = group_of w"
  using assms
proof (induction rs arbitrary: w cs w')
  case (Cons rec rs)
  obtain b w1 where h: "handleRecord log pg_completion_store (net_downstream nre url) c rec w = (b, w1)"
    by fastforce
  note g = handleRecord_group[OF h Cons.prems(2)] and k = net.handleRecord_keeps[OF h Cons.prems(2)]
  obtain cs' w2 where r: "recordsSafeToCommit rs
      (handleRecord log pg_completion_store (net_downstream nre url) c) w1 = (cs', w2)" by fastforce
  from Cons.IH[OF r conjunct1[OF k]] g h r Cons.prems(1) show ?case by (cases b) auto
qed simp

lemma batch_prefix:
  "recordsSafeToCommit rs h w = (cs, w') \<Longrightarrow> \<exists>rest. rs = cs @ rest"
  using recordsSafeToCommit_iff[of rs h w cs w'] by blast

lemma group_commit_cases:
  assumes "group_commit rs w = (r, w')"
  shows "pg_db w' = pg_db w \<and> (group_commits w' = group_commits w \<or>
    r = Inr () \<and> group_commits w' = group_commits w @ [rs])"
  using assms by (auto simp: group_commit_def split: list.splits option.splits)


lemma log_at_group [simp]: "group_commits (log_at l lg m as w) = group_commits w"
  "pg_db (log_at l lg m as w) = pg_db w"
  by (simp_all add: log_at_def)

lemma all_true_settled:
  assumes "all_true (handleRecord log pg_completion_store (net_downstream nre url) c) (pre @ rec # post) w w1"
    and "db_inv (pg_db w)"
  shows "\<exists>v v'. all_true (handleRecord log pg_completion_store (net_downstream nre url) c) pre w v \<and>
    handleRecord log pg_completion_store (net_downstream nre url) c rec v = (True, v') \<and>
    record_settled nre url c rec (net_answers v) (pg_db v')"
  using assms
proof (induction pre arbitrary: w)
  case Nil
  then show ?case
    using handled_settled[of log nre url c rec w] by (auto simp: prod_eq_iff)
next
  case (Cons r pre)
  then obtain w2 where h: "handleRecord log pg_completion_store (net_downstream nre url) c r w = (True, w2)"
    by (auto simp: prod_eq_iff)
  from net.handleRecord_keeps[OF h Cons.prems(2)] Cons.IH[of w2] Cons.prems(1) h show ?case
    by auto
qed

text \<open>
  C6: When a fetched partition commits, it had no fetch error and commits once, a non-empty prefix
  of its records: all of them were handled in order with the answer true, the record after them,
  if there is one, was refused (so no longer prefix was handled), and each record of the prefix
  was settled when it was handled.
\<close>

theorem partition_commit_settled:
  fixes log c nre url
  defines "h \<equiv> handleRecord log pg_completion_store (net_downstream nre url) c"
  assumes "db_inv (pg_db w)"
    and "handle_partition log pg_completion_store (net_downstream nre url) group_commit c p w = w'"
    and "group_commits w' \<noteq> group_commits w"
  shows "\<exists>cs rest w1. fp_Err p = None \<and> fp_Records p = cs @ rest \<and> cs \<noteq> [] \<and>
    group_commits w' = group_commits w @ [cs] \<and> all_true h cs w w1 \<and>
    (\<forall>rec rest'. rest = rec # rest' \<longrightarrow> \<not> fst (h rec w1)) \<and>
    (\<forall>pre rec post. cs = pre @ rec # post \<longrightarrow>
       (\<exists>v v'. all_true h pre w v \<and> h rec v = (True, v') \<and>
          record_settled nre url c rec (net_answers v) (pg_db v')))"
proof -
  from assms(3,4) have err: "fp_Err p = None"
    by (auto simp: handle_partition_def split: option.splits)
  obtain cs w2 where b: "recordsSafeToCommit (fp_Records p) h w = (cs, w2)" by fastforce
  have g: "group_commits w2 = group_commits w"
    using batch_group[OF b[unfolded h_def] assms(2)] by (simp add: group_of_def)
  obtain r w3 where c: "group_commit cs w2 = (r, w3)" by fastforce
  have w': "cs \<noteq> []" "group_commits w' = group_commits w3"
    using assms(3,4) err b g c by (auto simp: handle_partition_def h_def split: if_splits sum.splits)
  from group_commit_cases[OF c] w' g assms(4) have cm: "group_commits w' = group_commits w @ [cs]"
    by auto
  from b obtain rest w1 where rest: "fp_Records p = cs @ rest" "all_true h cs w w1"
    "\<forall>rec rest'. rest = rec # rest' \<longrightarrow> \<not> fst (h rec w1)"
    unfolding recordsSafeToCommit_iff by fastforce
  have "\<forall>pre rec post. cs = pre @ rec # post \<longrightarrow>
       (\<exists>v v'. all_true h pre w v \<and> h rec v = (True, v') \<and>
          record_settled nre url c rec (net_answers v) (pg_db v'))"
    using all_true_settled[OF _ assms(2)] rest(2) unfolding h_def by blast
  with err rest w'(1) cm show ?thesis by blast
qed

lemma all_true_inv:
  "all_true (handleRecord log pg_completion_store (net_downstream nre url) c) rs w v \<Longrightarrow> db_inv (pg_db w) \<Longrightarrow>
     db_inv (pg_db v)"
proof (induction rs arbitrary: w)
  case (Cons r rs)
  then show ?case
    using net.handleRecord_keeps[OF prod.collapse[symmetric], of w log nre url c r] by (auto simp: prod_eq_iff)
qed simp

lemma partition_commits:
  assumes "recordsSafeToCommit (fp_Records p) (handleRecord log pg_completion_store (net_downstream nre url) c) w = (cs, w1)"
    and "db_inv (pg_db w)"
  shows "group_commits (handle_partition log pg_completion_store (net_downstream nre url) group_commit c p w) = group_commits w \<or>
    cs \<noteq> [] \<and>
    group_commits (handle_partition log pg_completion_store (net_downstream nre url) group_commit c p w) = group_commits w @ [cs]"
proof -
  have g: "group_commits w1 = group_commits w" using batch_group[OF assms] by (simp add: group_of_def)
  obtain r w2 where c: "group_commit cs w1 = (r, w2)" by fastforce
  show ?thesis
    using assms(1) g c group_commit_cases[OF c]
    by (cases r) (auto simp: handle_partition_def split: option.split)
qed

text \<open>
  C19: When the one request of a record met a transport error, a 429 or a 5xx, handleRecord
  answers false, whatever the database does, and handling the partition it came in commits at
  most the records before it: neither its offset nor a later one of this batch. (A later poll of
  the session may still commit past it.)
\<close>

theorem handleRecord_retryable_kept:
  fixes log c nre url
  defines "h \<equiv> handleRecord log pg_completion_store (net_downstream nre url) c"
  assumes "db_inv (pg_db w)" "fp_Records p = pre @ rec # rest" "all_true h pre w v" "h rec v = (b, v')"
    and "net_sent v' \<noteq> net_sent v" "net_answers v = a # as" "retryable_answer a"
    and "w' = handle_partition log pg_completion_store (net_downstream nre url) group_commit c p w"
  shows "\<not> b \<and> (group_commits w' = group_commits w \<or> pre \<noteq> [] \<and> group_commits w' = group_commits w @ [pre])"
proof -
  have "\<not> b"
    using retryable_refused[OF all_true_inv[OF assms(4)[unfolded h_def] assms(2)] assms(5)[unfolded h_def] assms(6-8)] .
  with assms(3-5) have "recordsSafeToCommit (fp_Records p) h w = (pre, v')"
    unfolding recordsSafeToCommit_iff by auto
  from partition_commits[OF this[unfolded h_def] assms(2)] \<open>\<not> b\<close> show ?thesis unfolding assms(9) by blast
qed

section \<open>A record handled without faults\<close>

text \<open>The claim of an open row, and the two marks of a row in flight, when they run alone.\<close>

lemma claim_alone_open:
  assumes "pg_slots w = []" "db_inv (pg_db w)" "list_all pg_text_ok [ev, c, ty]"
    and "\<And>r. consumer_completions (pg_db w) (ev, c) = Some r \<Longrightarrow>
      cc_status r \<noteq> CompletionProcessed \<and> cc_attempt_count r < int4_max"
  shows "\<exists>cl r. ClaimConsumerCompletion ev c ty w = (Inr cl, w\<lparr>pg_db := put_completion ev c r (pg_db w)\<rparr>) \<and>
    claim_Action cl \<noteq> CompletionClaimAlreadyProcessed \<and> cc_status r = CompletionProcessing \<and>
    cc_attempt_count r = (case consumer_completions (pg_db w) (ev, c) of
       None \<Rightarrow> 1 | Some r \<Rightarrow> cc_attempt_count r + 1) \<and>
    completion_row_ok r"
proof (cases "consumer_completions (pg_db w) (ev, c)")
  case None
  with assms show ?thesis
    by (auto simp: ClaimConsumerCompletion_def alone_defs sql_insert_completion_def put_completion_def
        completion_row_ok_def int4_max_def)
next
  case (Some r)
  with assms(2) have ok: "completion_row_ok r" by (auto simp: db_inv_def intro: ranI)
  with assms(4)[OF Some] consider
    "cc_status r = CompletionProcessing" "cc_error r = None" | "cc_status r = CompletionFailed"
    by (auto simp: completion_row_ok_def completion_status_check_def status_simps)
  then show ?thesis
    using Some assms(1,3) assms(4)[OF Some] ok
    by cases (auto simp: ClaimConsumerCompletion_def alone_defs sql_insert_completion_def
        sql_select_completion_def sql_retry_completion_def sql_reclaim_completion_def
        update_completion_def put_completion_def completion_row_ok_def)
qed

lemma mark_alone:
  assumes "pg_slots w = []" "list_all pg_text_ok [ev, c]" "completion_row_ok r"
    and "pg_db w = put_completion ev c r db" "cc_status r = CompletionProcessing"
    and "\<And>err. e = Some err \<Longrightarrow> pg_text_ok (Error_string err)"
  shows "\<exists>r'. (case e of None \<Rightarrow> MarkConsumerProcessed ev c w
       | Some err \<Rightarrow> MarkConsumerFailed ev c (Error_string err) w) =
         (Inr True, w\<lparr>pg_db := put_completion ev c r' db\<rparr>) \<and>
    cc_status r' = (if e = None then CompletionProcessed else CompletionFailed) \<and>
    cc_error r' = map_option Error_string e \<and> cc_attempt_count r' = cc_attempt_count r"
  using assms
  by (cases e) (auto simp: MarkConsumerProcessed_def MarkConsumerFailed_def alone_defs
      sql_mark_processed_def sql_mark_failed_def update_completion_def put_completion_def
      completion_row_ok_def)

lemma log_at_ex: "\<exists>es. log_at lvl l m as w = w\<lparr>proc_logs := es\<rparr>"
proof (cases "min_level l \<le> lvl")
  case False
  then show ?thesis by (intro exI[of _ "proc_logs w"]) (cases w, simp add: log_at_def)
qed (auto simp: log_at_def)

lemma handleJob_world:
  "\<exists>es. handleJob log ds job w =
     (fst (DeliverJob ds job w), (snd (DeliverJob ds job w))\<lparr>proc_logs := es\<rparr>)"
  using log_at_ex
  by (cases "DeliverJob ds job w"; cases "fst (DeliverJob ds job w)") (auto simp: handleJob_def Let_def)

definition delivery_error :: "int result \<Rightarrow> go_error option" where
  "delivery_error a =
     (case a of
        Inl c \<Rightarrow> Some (retryableJobError ''downstream request'' c 0)
      | Inr s \<Rightarrow> if 200 \<le> s \<and> s < 300 then None else Some (classifyHTTPStatus s))"

lemma deliver_alone:
  assumes "Marshal_Job job = Inr body" "nre url = None" "net_answers w = a # as"
  shows "DeliverJob (net_downstream nre url) job w =
    (delivery_error a, w\<lparr>net_answers := as, net_sent := net_sent w @
      [\<lparr>req_URL = url, req_ContentType = ''application/json'', req_Body = body\<rparr>]\<rparr>)"
  using assms
  by (cases a) (auto simp: net_downstream_def NewHTTPDownstream_def httpDownstream_DeliverJob_def
      net_do_def net_step_def net_of_def delivery_error_def)

definition attempts_after :: "completion_row option \<Rightarrow> int" where
  "attempts_after r = (case r of None \<Rightarrow> 1 | Some r \<Rightarrow> cc_attempt_count r + 1)"

lemma session_updates [simp]:
  "pg_db (w\<lparr>net_answers := as\<rparr>) = pg_db w" "pg_db (w\<lparr>net_sent := s\<rparr>) = pg_db w"
  "pg_slots (w\<lparr>net_answers := as\<rparr>) = pg_slots w" "pg_slots (w\<lparr>net_sent := s\<rparr>) = pg_slots w"
  by (cases w; simp)+

text \<open>A record that is claimed, delivered and marked: the world but for the log lines.\<close>

lemma handleRecord_eval:
  assumes "Unmarshal_Job (rec_Value rec) = Inr job" "StripeEventID job \<noteq> []"
    and "st_Claim st (StripeEventID job) c (EventType job) w = (Inr cl, w1)"
    and "claim_Action cl \<noteq> CompletionClaimAlreadyProcessed"
    and "handleJob log ds job w1 = (e, w2)"
    and "(case e of None \<Rightarrow> st_MarkProcessed st (StripeEventID job) c w2
       | Some err \<Rightarrow> st_MarkFailed st (StripeEventID job) c (Error_string err) w2) = (Inr True, w3)"
  shows "\<exists>es. handleRecord log st ds c rec w =
    (case e of None \<Rightarrow> True | Some err \<Rightarrow> \<not> isRetryableJobError err, w3\<lparr>proc_logs := es\<rparr>)"
proof (cases e)
  case None
  with assms show ?thesis using log_at_ex by (auto simp: handleRecord_def)
next
  case (Some err)
  then have "handleRecord log st ds c rec w = (\<not> isRetryableJobError err, w3)"
    using assms by (simp add: handleRecord_def)
  then show ?thesis using Some by (intro exI[of _ "proc_logs w3"]) (cases w3, simp)
qed

lemma worker_world_frame [simp]:
  "net_answers (w\<lparr>proc_logs := l\<rparr>) = net_answers w" "net_sent (w\<lparr>proc_logs := l\<rparr>) = net_sent w"
  "net_answers (w\<lparr>pg_db := d\<rparr>) = net_answers w" "net_sent (w\<lparr>pg_db := d\<rparr>) = net_sent w"
  "group_of (w\<lparr>pg_db := d\<rparr>) = group_of w" "group_of (w\<lparr>net_answers := a\<rparr>) = group_of w"
  "group_of (w\<lparr>net_sent := q\<rparr>) = group_of w"
  by (cases w; simp add: group_of_def)+

lemma handled_alone:
  assumes alone: "pg_slots w = []" "db_inv (pg_db w)"
    and job: "Unmarshal_Job (rec_Value rec) = Inr job" "StripeEventID job \<noteq> []"
    and texts: "list_all pg_text_ok [StripeEventID job, c, EventType job]"
    and open_row: "\<And>r. consumer_completions (pg_db w) (StripeEventID job, c) = Some r \<Longrightarrow>
      cc_status r \<noteq> CompletionProcessed \<and> cc_attempt_count r < int4_max"
    and net: "Marshal_Job job = Inr body" "nre url = None" "net_answers w = a # as"
    and err_text: "\<And>e. delivery_error a = Some e \<Longrightarrow> pg_text_ok (Error_string e)"
  shows "\<exists>w' r. handleRecord log pg_completion_store (net_downstream nre url) c rec w =
      (case delivery_error a of None \<Rightarrow> True | Some e \<Rightarrow> \<not> isRetryableJobError e, w') \<and>
    pg_db w' = put_completion (StripeEventID job) c r (pg_db w) \<and>
    cc_status r = (if delivery_error a = None then CompletionProcessed else CompletionFailed) \<and>
    cc_error r = map_option Error_string (delivery_error a) \<and>
    cc_attempt_count r =
      attempts_after (consumer_completions (pg_db w) (StripeEventID job, c)) \<and>
    pg_slots w' = [] \<and> net_answers w' = as \<and> group_of w' = group_of w \<and>
    net_sent w' = net_sent w @
      [\<lparr>req_URL = url, req_ContentType = ''application/json'', req_Body = body\<rparr>]"
proof -
  let ?id = "StripeEventID job" and ?db = "pg_db w"
  let ?rq = "\<lparr>req_URL = url, req_ContentType = ''application/json'', req_Body = body\<rparr>"
  obtain cl r where 1: "ClaimConsumerCompletion ?id c (EventType job) w =
      (Inr cl, w\<lparr>pg_db := put_completion ?id c r ?db\<rparr>)"
    and cl: "claim_Action cl \<noteq> CompletionClaimAlreadyProcessed"
    and r: "cc_status r = CompletionProcessing" "completion_row_ok r" "cc_attempt_count r =
      attempts_after (consumer_completions ?db (?id, c))"
    using claim_alone_open[OF alone texts open_row] unfolding attempts_after_def by blast
  define w1 where "w1 = w\<lparr>pg_db := put_completion ?id c r ?db\<rparr>"
  define w2 where "w2 = w1\<lparr>net_answers := as, net_sent := net_sent w1 @ [?rq]\<rparr>"
  have a1: "net_answers w1 = a # as" using net(3) by (simp add: w1_def)
  note d = deliver_alone[of job body nre url w1 a as, OF net(1,2) a1, folded w2_def]
  obtain es where 2: "handleJob log (net_downstream nre url) job w1 =
      (delivery_error a, w2\<lparr>proc_logs := es\<rparr>)"
    using handleJob_world[of log "net_downstream nre url" job w1] unfolding d by auto
  define w3 where "w3 = w2\<lparr>proc_logs := es\<rparr>"
  have w3: "pg_db w3 = put_completion ?id c r ?db" "pg_slots w3 = []" "net_answers w3 = as"
    "net_sent w3 = net_sent w @ [?rq]" "group_of w3 = group_of w"
    using alone(1) by (simp_all add: w3_def w2_def w1_def)
  obtain r' where m: "(case delivery_error a of None \<Rightarrow> MarkConsumerProcessed ?id c w3
       | Some err \<Rightarrow> MarkConsumerFailed ?id c (Error_string err) w3) =
         (Inr True, w3\<lparr>pg_db := put_completion ?id c r' ?db\<rparr>)"
    "cc_status r' = (if delivery_error a = None then CompletionProcessed else CompletionFailed)"
    "cc_error r' = map_option Error_string (delivery_error a)"
    "cc_attempt_count r' = cc_attempt_count r"
    using mark_alone[OF w3(2) _ r(2) w3(1) r(1) err_text] texts by auto
  obtain fs where "handleRecord log pg_completion_store (net_downstream nre url) c rec w =
      (case delivery_error a of None \<Rightarrow> True | Some err \<Rightarrow> \<not> isRetryableJobError err,
       w3\<lparr>pg_db := put_completion ?id c r' ?db, proc_logs := fs\<rparr>)"
    using handleRecord_eval[OF job _ cl 2[folded w3_def], of pg_completion_store c w,
        unfolded pg_completion_store_sel, OF 1[folded w1_def] m(1)] by blast
  with m(2-4) r(3) w3 show ?thesis
    by (intro exI[of _ "w3\<lparr>pg_db := put_completion ?id c r' ?db, proc_logs := fs\<rparr>"] exI[of _ r'])
       simp
qed

text \<open>
  C15: Without database faults a record of an open event is handled as follows: one request;
  on 2xx the row becomes processed and the answer is true; on an error the row becomes
  failed with the error text and the answer is false exactly when the error is retryable.
  The attempt count is one more than before, or one.
\<close>

theorem handleRecord_alone:
  assumes alone: "pg_slots w = []" "db_inv (pg_db w)"
    and job: "Unmarshal_Job (rec_Value rec) = Inr job" "StripeEventID job \<noteq> []"
    and texts: "list_all pg_text_ok [StripeEventID job, c, EventType job]"
    and open_row: "\<And>r. consumer_completions (pg_db w) (StripeEventID job, c) = Some r \<Longrightarrow>
      cc_status r \<noteq> CompletionProcessed \<and> cc_attempt_count r < int4_max"
    and net: "Marshal_Job job = Inr body" "nre url = None" "net_answers w = a # as"
    and err_text: "\<And>e. delivery_error a = Some e \<Longrightarrow> pg_text_ok (Error_string e)"
  shows "\<exists>w' r. handleRecord log pg_completion_store (net_downstream nre url) c rec w =
      (case delivery_error a of None \<Rightarrow> True | Some e \<Rightarrow> \<not> isRetryableJobError e, w') \<and>
    pg_db w' = put_completion (StripeEventID job) c r (pg_db w) \<and>
    cc_status r = (if delivery_error a = None then CompletionProcessed else CompletionFailed) \<and>
    cc_error r = map_option Error_string (delivery_error a) \<and>
    cc_attempt_count r =
      attempts_after (consumer_completions (pg_db w) (StripeEventID job, c)) \<and>
    pg_slots w' = [] \<and> net_answers w' = as \<and> group_of w' = group_of w \<and>
    net_sent w' = net_sent w @
      [\<lparr>req_URL = url, req_ContentType = ''application/json'', req_Body = body\<rparr>]"
  by (rule handled_alone) (use assms in auto)

section \<open>Two polls\<close>

text \<open>A record of a job that can be claimed, sent and marked for the group \<open>c\<close>.\<close>

definition open_job :: "string \<Rightarrow> database \<Rightarrow> krecord \<Rightarrow> Job \<Rightarrow> bool" where
  "open_job c db rec job \<longleftrightarrow> Unmarshal_Job (rec_Value rec) = Inr job \<and> StripeEventID job \<noteq> [] \<and>
     list_all pg_text_ok [StripeEventID job, c, EventType job] \<and> (\<exists>body. Marshal_Job job = Inr body) \<and>
     (\<forall>r. consumer_completions db (StripeEventID job, c) = Some r \<longrightarrow>
        cc_status r \<noteq> CompletionProcessed \<and> cc_attempt_count r < int4_max)"

lemma open_job_handled:
  assumes "open_job c (pg_db w) rec job" "pg_slots w = []" "db_inv (pg_db w)" "nre url = None" "net_answers w = a # as"
    and "\<And>e. delivery_error a = Some e \<Longrightarrow> pg_text_ok (Error_string e)"
  shows "\<exists>w' r. handleRecord log pg_completion_store (net_downstream nre url) c rec w =
      (case delivery_error a of None \<Rightarrow> True | Some e \<Rightarrow> \<not> isRetryableJobError e, w') \<and>
    pg_db w' = put_completion (StripeEventID job) c r (pg_db w) \<and> db_inv (pg_db w') \<and>
    cc_status r = (if delivery_error a = None then CompletionProcessed else CompletionFailed) \<and>
    pg_slots w' = [] \<and> net_answers w' = as \<and> group_of w' = group_of w"
proof -
  obtain body where "Marshal_Job job = Inr body" using assms(1) by (auto simp: open_job_def)
  from handled_alone[where nre = nre and url = url and rec = rec and c = c and log = log,
      OF assms(2,3) _ _ _ _ this assms(4-6)] assms(1)
  obtain w' r where w': "handleRecord log pg_completion_store (net_downstream nre url) c rec w =
      (case delivery_error a of None \<Rightarrow> True | Some e \<Rightarrow> \<not> isRetryableJobError e, w')"
    "pg_db w' = put_completion (StripeEventID job) c r (pg_db w)"
    "cc_status r = (if delivery_error a = None then CompletionProcessed else CompletionFailed)"
    "pg_slots w' = []" "net_answers w' = as" "group_of w' = group_of w"
    unfolding open_job_def by blast
  with conjunct1[OF net.handleRecord_keeps[OF w'(1) assms(3)]] show ?thesis by blast
qed

definition clean_poll :: "fetches \<Rightarrow> krecord list \<Rightarrow> bool" where
  "clean_poll f rs \<longleftrightarrow> f_Errors f = [] \<and> \<not> f_DoneBefore f \<and> \<not> f_DoneAfter f \<and>
     (\<exists>p. f_Partitions f = [p] \<and> fp_Err p = None \<and> fp_Records p = rs)"

lemma clean_poll_iteration:
  "clean_poll f rs \<Longrightarrow> worker_iteration log st ds commit c f w =
     (case recordsSafeToCommit rs (handleRecord log st ds c) w of
        (committed, w') \<Rightarrow> if committed = [] then w'
          else (case commit committed w' of
                  (Inl e, w'') \<Rightarrow> log_Error log kafkaCommitFailed [(''error'', LStr (Error_string e))] w''
                | (Inr u, w'') \<Rightarrow> w''))"
  by (auto simp: clean_poll_def worker_iteration_def handle_partition_def)

text \<open>
  C31: The prefix rule holds within one batch only. Whenever a poll of a partition starts with a
  record that meets a transport error, a 429 or a 5xx, and the next poll of the same session hands
  out another record that is delivered (the client goes on behind what it has fetched), the second
  poll commits the later record, although the first one failed and its row says so: the failed
  record is skipped for the group. (No database faults, commits confirmed.)
\<close>

theorem later_poll_commits_past_failure:
  assumes alone: "pg_slots w = []" "db_inv (pg_db w)" "commit_answers w = []" "nre url = None"
    and polls: "clean_poll f1 (rec1 # rest)" "clean_poll f2 [rec2]"
    and jobs: "open_job c (pg_db w) rec1 job1" "open_job c (pg_db w) rec2 job2" "StripeEventID job1 \<noteq> StripeEventID job2"
    and net: "net_answers w = a # Inr s # as" "delivery_error a = Some e" "isRetryableJobError e"
      "pg_text_ok (Error_string e)" "200 \<le> s" "s < 300"
  shows "let w' = worker_loop (worker_iteration log pg_completion_store (net_downstream nre url) group_commit c) [f1, f2] w in
    group_commits w' = group_commits w @ [[rec2]] \<and>
    (\<exists>r1 r2. consumer_completions (pg_db w') (StripeEventID job1, c) = Some r1 \<and> cc_status r1 = CompletionFailed \<and>
       consumer_completions (pg_db w') (StripeEventID job2, c) = Some r2 \<and> cc_status r2 = CompletionProcessed)"
proof -
  let ?h = "handleRecord log pg_completion_store (net_downstream nre url) c"
  obtain w1 r1 where 1: "?h rec1 w = (False, w1)" "pg_db w1 = put_completion (StripeEventID job1) c r1 (pg_db w)"
    "db_inv (pg_db w1)" "cc_status r1 = CompletionFailed" "pg_slots w1 = []" "net_answers w1 = Inr s # as"
    "group_of w1 = group_of w"
    using open_job_handled[where nre = nre and url = url and log = log, OF jobs(1) alone(1,2,4) net(1)] net(2-4) by auto
  have "open_job c (pg_db w1) rec2 job2" using jobs(2,3) by (simp add: open_job_def 1(2) put_completion_def)
  moreover have "delivery_error (Inr s) = None" using net(5,6) by (simp add: delivery_error_def)
  ultimately obtain w2 r2 where 2: "?h rec2 w1 = (True, w2)"
    "pg_db w2 = put_completion (StripeEventID job2) c r2 (pg_db w1)" "cc_status r2 = CompletionProcessed"
    "group_of w2 = group_of w"
    using open_job_handled[where nre = nre and url = url and log = log and c = c and rec = rec2 and job = job2,
        OF _ 1(5,3) alone(4) 1(6)] 1(7) by auto
  have w2: "commit_answers w2 = []" "group_commits w2 = group_commits w" using 2(4) alone(3) by (simp_all add: group_of_def)
  then have "group_commit [rec2] w2 = (Inr (), w2\<lparr>commit_answers := [], group_commits := group_commits w @ [[rec2]]\<rparr>)"
    by (simp add: group_commit_def)
  moreover have "\<not> f_DoneAfter f1" "\<not> f_DoneAfter f2" using polls by (simp_all add: clean_poll_def)
  ultimately have "worker_loop (worker_iteration log pg_completion_store (net_downstream nre url) group_commit c) [f1, f2] w =
      w2\<lparr>commit_answers := [], group_commits := group_commits w @ [[rec2]]\<rparr>"
    using 1(1) 2(1) by (simp add: clean_poll_iteration[OF polls(1)] clean_poll_iteration[OF polls(2)])
  then show ?thesis using 1(2,4) 2(2,3) jobs(3) by (simp add: put_completion_def)
qed

section \<open>The properties at concrete inputs\<close>

definition body_of :: "string \<Rightarrow> string" where
  "body_of ev = ''{\"stripe_event_id\":\"'' @ ev @ ''\",\"event_type\":\"invoice.paid\",\"payload\":{}}''"

definition job_of :: "string \<Rightarrow> Job" where
  "job_of ev = \<lparr>StripeEventID = ev, EventType = ''invoice.paid'', Payload = Some ''{}''\<rparr>"

definition record_at :: "int \<Rightarrow> string \<Rightarrow> krecord" where
  "record_at off ev = \<lparr>rec_Topic = ''jobs'', rec_Partition = 0, rec_Offset = off, rec_Key = ev,
     rec_Value = body_of ev\<rparr>"

definition partition_of :: "krecord list \<Rightarrow> fetch_partition" where
  "partition_of rs = \<lparr>fp_Topic = ''jobs'', fp_Partition = 0, fp_Err = None, fp_Records = rs\<rparr>"

definition poll_of :: "krecord list \<Rightarrow> fetches" where
  "poll_of rs = \<lparr>f_Errors = [], f_Partitions = [partition_of rs], f_DoneBefore = False, f_DoneAfter = False\<rparr>"

definition worker_on :: "database \<Rightarrow> int result list \<Rightarrow> worker_world" where
  "worker_on db as = \<lparr>proc_logs = [], pg_db = db, pg_slots = [], net_answers = as, net_sent = [],
     commit_answers = [], group_commits = []\<rparr>"

definition no_url_error :: "string \<Rightarrow> go_error option" where "no_url_error u = None"

definition example_worker :: "krecord \<Rightarrow> worker_world \<Rightarrow> bool \<times> worker_world" where
  "example_worker = handleRecord (NewJSONLogger None) pg_completion_store
     (net_downstream no_url_error ''http://svc/'') ''svc''"

lemma decode_examples:
  "Unmarshal_Job (body_of ''evt_1'') = Inr (job_of ''evt_1'')"
  "Marshal_Job (job_of ''evt_1'') = Inr (body_of ''evt_1'')"
  by code_simp+

lemma worker_on_sel [simp]:
  "pg_db (worker_on db as) = db" "pg_slots (worker_on db as) = []" "net_answers (worker_on db as) = as"
  "net_sent (worker_on db as) = []" "group_commits (worker_on db as) = []"
  by (simp_all add: worker_on_def)

abbreviation "empty_worker as \<equiv> worker_on (empty_database test_cast) as"

lemma example_handled:
  "fst (example_worker (record_at 0 ''evt_1'') (empty_worker [Inr 200])) = True"
  by code_simp

lemma example_refused:
  "fst (example_worker (record_at 0 ''evt_1'') (empty_worker [Inr 503])) = False"
  by code_simp

lemma example_sent:
  "length (net_sent (snd (example_worker (record_at 0 ''evt_1'') (empty_worker [Inr 503])))) = 1"
  by code_simp

lemma example_sent_some:
  "net_sent (snd (example_worker (record_at 0 ''evt_1'') (empty_worker [Inr 503]))) \<noteq> []"
  using example_sent by auto

lemma split_result: "fst p = b \<Longrightarrow> p = (b, snd p)" by auto

theorem DeliverJob_outcome_witness:
  "\<exists>e w'. DeliverJob (net_downstream no_url_error ''http://svc/'') (job_of ''evt_1'') (empty_worker [Inr 404]) = (e, w') \<and>
     e \<noteq> None \<and> \<not> isRetryableJobError (the e)"
  using DeliverJob_outcome[OF decode_examples(2), of no_url_error "''http://svc/''" "empty_worker [Inr 404]" "Inr 404" "[]"]
  by (auto simp: no_url_error_def)

theorem handleRecord_true_settled_witness:
  "record_settled no_url_error ''http://svc/'' ''svc'' (record_at 0 ''evt_1'') [Inr 200]
     (pg_db (snd (example_worker (record_at 0 ''evt_1'') (empty_worker [Inr 200]))))"
  using handleRecord_true_settled[OF _ split_result[OF example_handled[unfolded example_worker_def]]]
  by (simp add: example_worker_def)

theorem handleRecord_one_delivery_witness:
  "\<exists>body. net_sent (snd (example_worker (record_at 0 ''evt_1'') (empty_worker [Inr 503]))) =
     [\<lparr>req_URL = ''http://svc/'', req_ContentType = ''application/json'', req_Body = body\<rparr>]"
  using handleRecord_one_delivery[OF _ split_result[OF example_refused[unfolded example_worker_def]]]
    example_sent_some
  by (auto simp: example_worker_def)

theorem handleRecord_retryable_kept_witness:
  "\<not> fst (example_worker (record_at 0 ''evt_1'') (empty_worker [Inr 503])) \<and>
   group_commits (handle_partition (NewJSONLogger None) pg_completion_store (net_downstream no_url_error ''http://svc/'')
     group_commit ''svc'' (partition_of [record_at 0 ''evt_1'', record_at 1 ''evt_2'']) (empty_worker [Inr 503])) = []"
  using handleRecord_retryable_kept[of "empty_worker [Inr 503]" "partition_of [record_at 0 ''evt_1'', record_at 1 ''evt_2'']"
      "[]" "record_at 0 ''evt_1''" "[record_at 1 ''evt_2'']" "NewJSONLogger None" no_url_error "''http://svc/''" "''svc''"
      "empty_worker [Inr 503]" False _ "Inr 503" "[]", OF _ _ _ split_result[OF example_refused[unfolded example_worker_def]]]
    example_refused example_sent_some
  by (simp add: example_worker_def partition_of_def retryable_answer_def)

lemma open_examples:
  "open_job ''svc'' (empty_database test_cast) (record_at 0 ''evt_1'') (job_of ''evt_1'')"
  "open_job ''svc'' (empty_database test_cast) (record_at 1 ''evt_2'') (job_of ''evt_2'')"
proof -
  have "Unmarshal_Job (body_of ''evt_2'') = Inr (job_of ''evt_2'')" "Marshal_Job (job_of ''evt_2'') = Inr (body_of ''evt_2'')"
    "list_all pg_text_ok [''evt_1'', ''svc'', ''invoice.paid'', ''evt_2'']"
    by code_simp+
  then show "open_job ''svc'' (empty_database test_cast) (record_at 0 ''evt_1'') (job_of ''evt_1'')"
    "open_job ''svc'' (empty_database test_cast) (record_at 1 ''evt_2'') (job_of ''evt_2'')"
    using decode_examples by (simp_all add: open_job_def record_at_def job_of_def empty_database_def)
qed

theorem later_poll_commits_past_failure_witness:
  "group_commits (worker_loop (worker_iteration (NewJSONLogger None) pg_completion_store
       (net_downstream no_url_error ''http://svc/'') group_commit ''svc'')
     [poll_of [record_at 0 ''evt_1''], poll_of [record_at 1 ''evt_2'']] (empty_worker [Inr 503, Inr 200])) =
   [[record_at 1 ''evt_2'']]"
proof -
  let ?w = "empty_worker [Inr 503, Inr 200]" and ?e = "classifyHTTPStatus 503"
  have w: "pg_slots ?w = []" "db_inv (pg_db ?w)" "commit_answers ?w = []" "no_url_error ''http://svc/'' = None"
    "clean_poll (poll_of [record_at 0 ''evt_1'']) [record_at 0 ''evt_1'']"
    "clean_poll (poll_of [record_at 1 ''evt_2'']) [record_at 1 ''evt_2'']"
    "open_job ''svc'' (pg_db ?w) (record_at 0 ''evt_1'') (job_of ''evt_1'')"
    "open_job ''svc'' (pg_db ?w) (record_at 1 ''evt_2'') (job_of ''evt_2'')"
    "StripeEventID (job_of ''evt_1'') \<noteq> StripeEventID (job_of ''evt_2'')"
    "net_answers ?w = Inr 503 # Inr 200 # []" "delivery_error (Inr 503) = Some ?e"
    using open_examples by (simp_all add: worker_on_def no_url_error_def clean_poll_def poll_of_def partition_of_def
        delivery_error_def job_of_def)
  have e: "isRetryableJobError ?e" "pg_text_ok (Error_string ?e)" by code_simp+
  from later_poll_commits_past_failure[where nre = no_url_error and url = "''http://svc/''" and log = "NewJSONLogger None",
      OF w e] show ?thesis
    by (simp add: Let_def worker_on_def)
qed

definition broken_record :: krecord where
  "broken_record = (record_at 0 ''evt_1'')\<lparr>rec_Value := ''{}''\<rparr>"

lemma broken_malformed: "malformed broken_record"
proof -
  have "Unmarshal_Job (rec_Value broken_record) = Inr zero_Job" by code_simp
  then show ?thesis by (simp add: malformed_def zero_Job_def)
qed

theorem malformed_head_blocks_witness:
  "\<exists>m. handle_partition (NewJSONLogger None) pg_completion_store (net_downstream no_url_error ''http://svc/'')
       group_commit ''svc'' (partition_of [broken_record, record_at 1 ''evt_1'']) (empty_worker [Inr 200]) =
     log_Error (NewJSONLogger None) stripeJobUnmarshalFailed [(''error'', LStr m)] (empty_worker [Inr 200])"
  by (rule malformed_head_blocks[OF broken_malformed]) (simp_all add: partition_of_def)

lemma example_committed:
  "group_commits (handle_partition (NewJSONLogger None) pg_completion_store
     (net_downstream no_url_error ''http://svc/'') group_commit ''svc''
     (partition_of [record_at 0 ''evt_1'']) (empty_worker [Inr 200])) \<noteq> []"
proof -
  have "length (group_commits (handle_partition (NewJSONLogger None) pg_completion_store
     (net_downstream no_url_error ''http://svc/'') group_commit ''svc''
     (partition_of [record_at 0 ''evt_1'']) (empty_worker [Inr 200]))) = 1"
    by code_simp
  then show ?thesis by auto
qed

theorem partition_commit_settled_witness:
  "\<exists>cs. cs \<noteq> [] \<and> group_commits (handle_partition (NewJSONLogger None) pg_completion_store
     (net_downstream no_url_error ''http://svc/'') group_commit ''svc''
     (partition_of [record_at 0 ''evt_1'']) (empty_worker [Inr 200])) = [cs]"
  using partition_commit_settled[OF _ refl, of "empty_worker [Inr 200]"] example_committed by fastforce

theorem handleRecord_alone_witness:
  "\<exists>w' r. example_worker (record_at 0 ''evt_1'') (empty_worker [Inr 404]) = (True, w') \<and>
     consumer_completions (pg_db w') (''evt_1'', ''svc'') = Some r \<and> cc_status r = CompletionFailed \<and>
     cc_attempt_count r = 1"
proof -
  have "pg_text_ok ''downstream rejected job''" by code_simp
  with handleRecord_alone[of "empty_worker [Inr 404]" "record_at 0 ''evt_1''" "job_of ''evt_1''" "''svc''"
      "body_of ''evt_1''" no_url_error "''http://svc/''" "Inr 404" "[]" "NewJSONLogger None"] decode_examples
  show ?thesis
    by (auto simp: example_worker_def record_at_def no_url_error_def delivery_error_def
        classifyHTTPStatus_def attempts_after_def put_completion_def job_of_def)
qed

end
