(* ===== verification/Http_Client.thy ===== *)
theory Http_Client
  imports Worker_Correct
begin

text \<open>
  \<open>Client.Do\<close> of net/http, as the worker uses it: a \<open>POST\<close> with a body that can be read again, no
  \<open>CheckRedirect\<close> of its own, so up to 10 requests are sent and redirects are followed; and the
  worker's contracts on a network seen hop by hop.
\<close>

section \<open>Redirects\<close>

text \<open>
  One request on the wire, and what came back: a transport error, or a status with its
  \<open>Location\<close> header (none, one that does not parse, or the URL it resolves to).
\<close>

record hop =
  hop_Method :: string
  hop_URL :: string
  hop_Body :: "string option"

datatype location = NoLocation | BadLocation string | Location string
datatype reply = NoReply string | Reply int location

type_synonym exchange = "hop \<times> reply"

text \<open>The method of the next request, and whether it keeps the body.\<close>

definition redirectBehavior :: "string \<Rightarrow> int \<Rightarrow> (string \<times> bool) option" where
  "redirectBehavior reqMethod status =
     (if status \<in> {301, 302, 303} then
        Some (if reqMethod = ''GET'' \<or> reqMethod = ''HEAD'' then reqMethod else ''GET'', False)
      else if status \<in> {307, 308} then Some (reqMethod, True)
      else None)"

definition maxRequests :: nat where "maxRequests = 10"

text \<open>
  \<open>sent\<close> counts the requests including \<open>h\<close>; the list holds the replies to come.  A redirect
  without \<open>Location\<close> is the answer.
\<close>

fun client_follow :: "nat \<Rightarrow> hop \<Rightarrow> reply list \<Rightarrow> int result \<times> reply list \<times> exchange list" where
  "client_follow sent h [] =
     (Inl (ErrNew ''connection refused''), [], [(h, NoReply ''connection refused'')])"
| "client_follow sent h (NoReply m # rs) = (Inl (ErrNew m), rs, [(h, NoReply m)])"
| "client_follow sent h (Reply status loc # rs) =
     (case (redirectBehavior (hop_Method h) status, loc) of
        (None, _) \<Rightarrow> (Inr status, rs, [(h, Reply status loc)])
      | (_, NoLocation) \<Rightarrow> (Inr status, rs, [(h, Reply status loc)])
      | (_, BadLocation m) \<Rightarrow> (Inl (ErrNew m), rs, [(h, Reply status loc)])
      | (Some (method, withBody), Location u) \<Rightarrow>
          if maxRequests \<le> sent then
            (Inl (ErrNew ''stopped after 10 redirects''), rs, [(h, Reply status loc)])
          else
            (case client_follow (Suc sent) \<lparr>hop_Method = method, hop_URL = u,
                    hop_Body = (if withBody then hop_Body h else None)\<rparr> rs of
               (r, rs', xs) \<Rightarrow> (r, rs', (h, Reply status loc) # xs)))"

definition first_hop :: "http_request \<Rightarrow> hop" where
  "first_hop rq = \<lparr>hop_Method = ''POST'', hop_URL = req_URL rq, hop_Body = Some (req_Body rq)\<rparr>"

definition client_Do :: "http_request \<Rightarrow> reply list \<Rightarrow> int result \<times> reply list \<times> exchange list" where
  "client_Do rq rs = client_follow 1 (first_hop rq) rs"

text \<open>Every request but the first is what the reply before it asked for.\<close>

definition asked_by :: "exchange \<Rightarrow> hop \<Rightarrow> bool" where
  "asked_by x h \<longleftrightarrow> (\<exists>s u. snd x = Reply s (Location u) \<and> hop_URL h = u \<and>
     (s \<in> {301, 302, 303} \<and> hop_Method h \<in> {''GET'', ''HEAD''} \<and> hop_Body h = None \<or>
      s \<in> {307, 308} \<and> hop_Method h = hop_Method (fst x) \<and> hop_Body h = hop_Body (fst x)))"

fun redirects_ok :: "exchange list \<Rightarrow> bool" where
  "redirects_ok (x # y # xs) \<longleftrightarrow> asked_by x (fst y) \<and> redirects_ok (y # xs)"
| "redirects_ok xs \<longleftrightarrow> True"

lemma client_follow_hops:
  assumes "client_follow sent h rs = (r, rs', xs)" "sent \<le> maxRequests"
  shows "xs \<noteq> [] \<and> fst (hd xs) = h \<and> redirects_ok xs \<and> length xs + sent \<le> Suc maxRequests"
  using assms
proof (induction sent h rs arbitrary: r rs' xs rule: client_follow.induct)
  case (3 sent h status loc rs)
  show ?case
  proof (cases "\<exists>mb u. redirectBehavior (hop_Method h) status = Some mb \<and> loc = Location u \<and> sent < maxRequests")
    case False
    then have "xs = [(h, Reply status loc)]"
      using "3.prems"(1) by (auto split: option.splits location.splits)
    with "3.prems"(2) show ?thesis by simp
  next
    case True
    then obtain m b u where t: "redirectBehavior (hop_Method h) status = Some (m, b)" "loc = Location u" "sent < maxRequests"
      by auto
    let ?h = "\<lparr>hop_Method = m, hop_URL = u, hop_Body = (if b then hop_Body h else None)\<rparr>"
    obtain r2 rs2 ys where f: "client_follow (Suc sent) ?h rs = (r2, rs2, ys)" by (cases "client_follow (Suc sent) ?h rs") auto
    have xs: "xs = (h, Reply status loc) # ys" using "3.prems"(1) t f by simp
    have ys: "ys \<noteq> [] \<and> fst (hd ys) = ?h \<and> redirects_ok ys \<and> length ys + Suc sent \<le> Suc maxRequests"
      by (rule "3.IH"[OF refl _ refl t(2)]) (use t f in auto)
    have "asked_by (h, Reply status loc) ?h"
      using t(1,2) by (auto simp: asked_by_def redirectBehavior_def split: if_splits)
    with xs ys show ?thesis by (cases ys) auto
  qed
qed (auto simp: maxRequests_def)

lemma client_Do_hops:
  "client_Do rq rs = (r, rs', xs) \<Longrightarrow>
     xs \<noteq> [] \<and> fst (hd xs) = first_hop rq \<and> redirects_ok xs \<and> length xs \<le> maxRequests"
  unfolding client_Do_def using client_follow_hops[of 1 "first_hop rq" rs r rs' xs] by (simp add: maxRequests_def)

section \<open>The worker on this network\<close>

text \<open>\<open>wire_sent\<close> has one list of exchanges for each call of \<open>client.Do\<close>.\<close>

record wire_world = worker_world +
  wire_replies :: "reply list"
  wire_sent :: "exchange list list"

type_synonym wire = "reply list \<times> exchange list list"

definition wire_step :: "http_request \<Rightarrow> (wire, int) io" where
  "wire_step rq n =
     (case client_Do rq (fst n) of (r, rs, xs) \<Rightarrow> (r, (rs, snd n @ [xs])))"

definition wire_of :: "'s wire_world_scheme \<Rightarrow> wire" where
  "wire_of w = (wire_replies w, wire_sent w)"

definition wire_do :: "http_request \<Rightarrow> ('s wire_world_scheme, int) io" where
  "wire_do rq w =
     (case wire_step rq (wire_of w) of (r, (rs, sent)) \<Rightarrow> (r, w\<lparr>wire_replies := rs, wire_sent := sent\<rparr>))"

definition wire_downstream ::
  "(string \<Rightarrow> go_error option) \<Rightarrow> string \<Rightarrow> 's wire_world_scheme downstream_client" where
  "wire_downstream nre url =
     NewHTTPDownstream \<lparr>baseURL = url, new_request_err = nre, do_request = wire_do\<rparr>"

definition wire_deliver ::
  "(string \<Rightarrow> go_error option) \<Rightarrow> string \<Rightarrow> Job \<Rightarrow> wire \<Rightarrow> go_error option \<times> wire" where
  "wire_deliver nre url =
     httpDownstream_DeliverJob \<lparr>baseURL = url, new_request_err = nre, do_request = wire_step\<rparr>"

lemma wire_of_logs: "wire_of (w\<lparr>proc_logs := l\<rparr>) = wire_of w"
  by (simp add: wire_of_def)

lemma wire_of_more: "session.more w' = session.more w \<Longrightarrow> wire_of w' = wire_of w"
  by (cases w; cases w') (simp add: wire_of_def)

lemma wire_do_frame:
  "wire_do rq w = (r, w') \<Longrightarrow> pg_db w' = pg_db w \<and> wire_step rq (wire_of w) = (r, wire_of w')"
  by (auto simp: wire_do_def wire_of_def split: prod.splits)

lemma wire_downstream_deliver:
  "DeliverJob (wire_downstream nre url) job w = (e, w') \<Longrightarrow>
     pg_db w' = pg_db w \<and> wire_deliver nre url job (wire_of w) = (e, wire_of w')"
  by (auto simp: wire_downstream_def NewHTTPDownstream_def wire_deliver_def httpDownstream_DeliverJob_def
      split: sum.splits option.splits prod.splits if_splits dest!: wire_do_frame)

interpretation wire: worker_contract pg_completion_store pg_inv pg_rows wire_of
  "wire_downstream nre url" "wire_deliver nre url"
proof unfold_locales
  fix w w' :: "'s wire_world_scheme" and ev c ty m :: string and r :: "CompletionClaim result"
    and r' :: "bool result" and l job e
  show "pg_inv (w\<lparr>proc_logs := l\<rparr>) = pg_inv w" "pg_rows (w\<lparr>proc_logs := l\<rparr>) = pg_rows w" by simp_all
  show "wire_of (w\<lparr>proc_logs := l\<rparr>) = wire_of w" by (rule wire_of_logs)
  show "st_Claim pg_completion_store ev c ty w = (r, w') \<Longrightarrow> pg_inv w \<Longrightarrow>
      pg_inv w' \<and> rows_le (pg_rows w) (pg_rows w') \<and> wire_of w' = wire_of w"
    using pg.claim_keeps wire_of_more by blast
  show "st_MarkProcessed pg_completion_store ev c w = (r', w') \<Longrightarrow> pg_inv w \<Longrightarrow>
      pg_inv w' \<and> rows_le (pg_rows w) (pg_rows w') \<and> wire_of w' = wire_of w"
    using pg.processed_keeps wire_of_more by blast
  show "st_MarkFailed pg_completion_store ev c m w = (r', w') \<Longrightarrow> pg_inv w \<Longrightarrow>
      pg_inv w' \<and> rows_le (pg_rows w) (pg_rows w') \<and> wire_of w' = wire_of w"
    using pg.failed_keeps wire_of_more by blast
  show "DeliverJob (wire_downstream nre url) job w = (e, w') \<Longrightarrow> pg_inv w \<Longrightarrow>
      pg_inv w' \<and> rows_le (pg_rows w) (pg_rows w') \<and> wire_deliver nre url job (wire_of w) = (e, wire_of w')"
    using wire_downstream_deliver[of nre url job w e w'] by simp
qed (erule (1) pg.claim_exists | erule (1) pg.claim_processed | erule (1) pg.processed_done |
     erule (2) pg.failed_done)+

lemma wire_deliver_cases:
  assumes "wire_deliver nre url job n = (e, n')"
  shows "snd n' = snd n \<or> (\<exists>body xs. Marshal_Job job = Inr body \<and> snd n' = snd n @ [xs] \<and> xs \<noteq> [] \<and>
    fst (hd xs) = \<lparr>hop_Method = ''POST'', hop_URL = url, hop_Body = Some body\<rparr> \<and> redirects_ok xs \<and>
    length xs \<le> maxRequests)"
proof (cases "Marshal_Job job")
  case (Inl c)
  then show ?thesis using assms by (simp add: wire_deliver_def httpDownstream_DeliverJob_def)
next
  case (Inr body)
  show ?thesis
  proof (cases "nre url")
    case None
    let ?rq = "\<lparr>req_URL = url, req_ContentType = ''application/json'', req_Body = body\<rparr>"
    obtain r rs xs where d: "client_Do ?rq (fst n) = (r, rs, xs)" by (cases "client_Do ?rq (fst n)") auto
    have "snd n' = snd n @ [xs]"
      using assms Inr None d
      by (auto simp: wire_deliver_def httpDownstream_DeliverJob_def wire_step_def split: sum.splits if_splits)
    with client_Do_hops[OF d] Inr show ?thesis by (auto simp: first_hop_def)
  qed (use assms Inr in \<open>simp add: wire_deliver_def httpDownstream_DeliverJob_def\<close>)
qed

text \<open>
  A redirect by 301, 302 or 303 turns the \<open>POST\<close> into a \<open>GET\<close> without a body, and a 2xx of the page
  it leads to counts as a delivery, although no server answered the job itself with success.
\<close>

theorem redirected_get_counts_as_delivery:
  assumes "Marshal_Job job = Inr body" "nre url = None" "s \<in> {301, 302, 303}" "200 \<le> t" "t < 300"
    and "wire_replies w = Reply s (Location u) # Reply t loc # rs"
  shows "\<exists>w'. DeliverJob (wire_downstream nre url) job w = (None, w') \<and>
    wire_sent w' = wire_sent w @
      [[(\<lparr>hop_Method = ''POST'', hop_URL = url, hop_Body = Some body\<rparr>, Reply s (Location u)),
        (\<lparr>hop_Method = ''GET'', hop_URL = u, hop_Body = None\<rparr>, Reply t loc)]]"
proof -
  have t: "redirectBehavior ''GET'' t = None" using assms(4,5) by (auto simp: redirectBehavior_def)
  have s: "redirectBehavior ''POST'' s = Some (''GET'', False)" using assms(3) by (auto simp: redirectBehavior_def)
  have "client_Do \<lparr>req_URL = url, req_ContentType = ''application/json'', req_Body = body\<rparr> (wire_replies w) =
      (Inr t, rs, [(\<lparr>hop_Method = ''POST'', hop_URL = url, hop_Body = Some body\<rparr>, Reply s (Location u)),
        (\<lparr>hop_Method = ''GET'', hop_URL = u, hop_Body = None\<rparr>, Reply t loc)])"
    using s t by (simp add: client_Do_def first_hop_def assms(6) maxRequests_def)
  then show ?thesis
    using assms(1,2,4,5)
    by (simp add: wire_downstream_def NewHTTPDownstream_def httpDownstream_DeliverJob_def wire_do_def wire_step_def wire_of_def)
qed

end
