(* ===== verification/Url.thy ===== *)
theory Url
  imports Go_Strings
begin

text \<open>
  What the code uses of net/url: \<open>url.Parse\<close>, of whose result it reads the scheme and the host.
  The part that checks a bracketed host, which follows the address syntax of net/netip, is a
  parameter \<open>bracket\<close>: the host, or an error.  Error texts are abbreviated.
\<close>

definition to_lower :: "char \<Rightarrow> char" where
  "to_lower c = (if 65 \<le> byte c \<and> byte c \<le> 90 then char_of (byte c + 32) else c)"

definition ascii_letter :: "char \<Rightarrow> bool" where
  "ascii_letter c \<longleftrightarrow> 97 \<le> byte c \<and> byte c \<le> 122 \<or> 65 \<le> byte c \<and> byte c \<le> 90"

definition ascii_digit :: "char \<Rightarrow> bool" where
  "ascii_digit c \<longleftrightarrow> 48 \<le> byte c \<and> byte c \<le> 57"

definition ctl_byte :: "char \<Rightarrow> bool" where
  "ctl_byte c \<longleftrightarrow> byte c < 32 \<or> byte c = 127"

text \<open>\<open>strings.Cut\<close>: before and after the first separator.\<close>

definition Cut :: "char \<Rightarrow> string \<Rightarrow> string \<times> string" where
  "Cut sep s = (takeWhile (\<lambda>c. c \<noteq> sep) s, drop 1 (dropWhile (\<lambda>c. c \<noteq> sep) s))"

text \<open>The scheme before the first colon, if what is before it is one; \<open>i\<close> is what was read.\<close>

fun getScheme :: "string \<Rightarrow> string \<Rightarrow> (string \<times> string) result" where
  "getScheme i [] = Inr ([], i)"
| "getScheme i (c # s) =
     (if ascii_letter c then getScheme (i @ [c]) s
      else if ascii_digit c \<or> c \<in> set ''+-.'' then
        (if i = [] then Inr ([], c # s) else getScheme (i @ [c]) s)
      else if c = CHR '':'' then
        (if i = [] then Inl (ErrNew ''missing protocol scheme'') else Inr (i, s))
      else Inr ([], i @ c # s))"

section \<open>Percent encoding\<close>

datatype encoding = encodePath | encodeHost | encodeUserPassword | encodeFragment

definition url_hex :: "char \<Rightarrow> bool" where
  "url_hex c \<longleftrightarrow> ascii_digit c \<or> 97 \<le> byte c \<and> byte c \<le> 102 \<or> 65 \<le> byte c \<and> byte c \<le> 70"

definition unhex :: "char \<Rightarrow> nat" where
  "unhex c = (if ascii_digit c then byte c - 48 else if 97 \<le> byte c then byte c - 87
     else byte c - 55)"

definition host_char :: "char \<Rightarrow> bool" where
  "host_char c \<longleftrightarrow> ascii_letter c \<or> ascii_digit c \<or> c \<in> set ''-_.~!$&()*+,;=:[]<>'' \<or>
     byte c = 34 \<or> byte c = 39"

fun unescape :: "encoding \<Rightarrow> string \<Rightarrow> string result" where
  "unescape m [] = Inr []"
| "unescape m (c # s) =
     (if c = CHR ''%'' then
        (case s of
           h # l # rest \<Rightarrow>
             if \<not> url_hex h \<or> \<not> url_hex l then Inl (ErrNew ''invalid URL escape'')
             else if m = encodeHost \<and> unhex h < 8 \<and> \<not> (h = CHR ''2'' \<and> l = CHR ''5'')
               then Inl (ErrNew ''invalid URL escape'')
             else (case unescape m rest of
                     Inl e \<Rightarrow> Inl e
                   | Inr t \<Rightarrow> Inr (char_of (16 * unhex h + unhex l) # t))
         | _ \<Rightarrow> Inl (ErrNew ''invalid URL escape''))
      else if m = encodeHost \<and> byte c < 128 \<and> \<not> host_char c
        then Inl (ErrNew ''invalid character in host name'')
      else (case unescape m s of Inl e \<Rightarrow> Inl e | Inr t \<Rightarrow> Inr (c # t)))"

section \<open>The authority\<close>

text \<open>\<open>strings.LastIndex\<close> as a split: before and after the last separator.\<close>

definition cut_last :: "char \<Rightarrow> string \<Rightarrow> (string \<times> string) option" where
  "cut_last sep s =
     (if sep \<in> set s
      then Some (rev (drop 1 (dropWhile (\<lambda>c. c \<noteq> sep) (rev s))),
                 rev (takeWhile (\<lambda>c. c \<noteq> sep) (rev s)))
      else None)"

text \<open>
  What follows the first colon must be a port: since Go 1.26 a host holds no other colon.
\<close>

definition parseHost :: "(string \<Rightarrow> string result) \<Rightarrow> string \<Rightarrow> string result" where
  "parseHost bracket host =
     (if CHR ''['' \<in> set host then bracket host
      else if list_all ascii_digit (snd (Cut CHR '':'' host)) then unescape encodeHost host
      else Inl (ErrNew ''invalid port after host''))"

definition validUserinfo :: "string \<Rightarrow> bool" where
  "validUserinfo s =
     list_all (\<lambda>c. ascii_letter c \<or> ascii_digit c \<or> c \<in> set ''-._:~!$&()*+,;=%@'' \<or> byte c = 39) s"

definition parseAuthority :: "(string \<Rightarrow> string result) \<Rightarrow> string \<Rightarrow> string result" where
  "parseAuthority bracket authority =
     (case cut_last CHR ''@'' authority of
        None \<Rightarrow> parseHost bracket authority
      | Some (userinfo, h) \<Rightarrow>
     (case parseHost bracket h of
        Inl e \<Rightarrow> Inl e
      | Inr host \<Rightarrow>
          if \<not> validUserinfo userinfo then Inl (ErrNew ''net/url: invalid userinfo'')
          else (case unescape encodeUserPassword userinfo of
                  Inl e \<Rightarrow> Inl e | Inr _ \<Rightarrow> Inr host)))"

section \<open>url.Parse\<close>

record URL =
  Scheme :: string
  Host :: string

definition path_ok :: "encoding \<Rightarrow> string \<Rightarrow> URL \<Rightarrow> URL result" where
  "path_ok m p u = (case unescape m p of Inl e \<Rightarrow> Inl e | Inr _ \<Rightarrow> Inr u)"

text \<open>
  After the scheme: the query is cut off, then an authority follows two slashes, and the rest
  is the path.  A text with a scheme and no slash is opaque.
\<close>

definition parse_rest :: "(string \<Rightarrow> string result) \<Rightarrow> string \<Rightarrow> string \<Rightarrow> URL result" where
  "parse_rest bracket scheme s =
     (let rest = fst (Cut CHR ''?'' s);
          u = \<lparr>Scheme = scheme, Host = []\<rparr>
      in if take 1 rest \<noteq> ''/'' \<and> scheme \<noteq> [] then Inr u
         else if take 1 rest \<noteq> ''/'' \<and> CHR '':'' \<in> set (fst (Cut CHR ''/'' rest)) then
           Inl (ErrNew ''first path segment in URL cannot contain colon'')
         else if (scheme \<noteq> [] \<or> take 3 rest \<noteq> ''///'') \<and> take 2 rest = ''//'' then
           (let authority = takeWhile (\<lambda>c. c \<noteq> CHR ''/'') (drop 2 rest);
                path = dropWhile (\<lambda>c. c \<noteq> CHR ''/'') (drop 2 rest)
            in case parseAuthority bracket authority of
                 Inl e \<Rightarrow> Inl e
               | Inr host \<Rightarrow> path_ok encodePath path (u\<lparr>Host := host\<rparr>))
         else path_ok encodePath rest u)"

definition parse_url :: "(string \<Rightarrow> string result) \<Rightarrow> string \<Rightarrow> URL result" where
  "parse_url bracket raw =
     (if list_ex ctl_byte raw then Inl (ErrNew ''net/url: invalid control character in URL'')
      else if raw = ''*'' then Inr \<lparr>Scheme = [], Host = []\<rparr>
      else case getScheme [] raw of
        Inl e \<Rightarrow> Inl e
      | Inr (scheme, rest) \<Rightarrow> parse_rest bracket (map to_lower scheme) rest)"

definition url_Parse :: "(string \<Rightarrow> string result) \<Rightarrow> string \<Rightarrow> URL result" where
  "url_Parse bracket rawURL =
     (case Cut CHR ''#'' rawURL of (u, frag) \<Rightarrow>
        (case parse_url bracket u of
           Inl e \<Rightarrow> Inl (ErrWrap ''parse'' e)
         | Inr url \<Rightarrow>
             (case path_ok encodeFragment frag url of
                Inl e \<Rightarrow> Inl (ErrWrap ''parse'' e)
              | Inr url \<Rightarrow> Inr url)))"

end
