(* ===== verification/Config.thy ===== *)
theory Config
  imports Url
begin

text \<open>
  Package internal/config: the three configurations, read from the environment, and what they
  use of strings, net/url and time.  The environment is a function from names to values, empty
  when unset; \<open>dotenv\<close> is what \<open>godotenv.Load\<close> makes of it (third-party, a parameter).  The texts
  of errors of the standard library are abbreviated.
\<close>

type_synonym env = "string \<Rightarrow> string"

section \<open>config.go\<close>

definition defaultPort :: string where "defaultPort = ''8080''"

record Config =
  StripeWebhookSecret :: string
  cfg_DatabaseURL :: string
  Port :: string

definition Load :: "(env \<Rightarrow> env) \<Rightarrow> env \<Rightarrow> Config result" where
  "Load dotenv environ =
     (let getenv = dotenv environ;
          port = TrimSpace (getenv ''PORT'');
          port = (if port = [] then defaultPort else port);
          stripeWebhookSecret = TrimSpace (getenv ''STRIPE_WEBHOOK_SECRET'')
      in if stripeWebhookSecret = [] then
           Inl (ErrNew ''config: STRIPE_WEBHOOK_SECRET is required'')
         else
     (let databaseURL = TrimSpace (getenv ''DATABASE_URL'')
      in if databaseURL = [] then Inl (ErrNew ''config: DATABASE_URL is required'')
         else Inr \<lparr>StripeWebhookSecret = stripeWebhookSecret, cfg_DatabaseURL = databaseURL,
                    Port = port\<rparr>))"

section \<open>splitCSV\<close>

fun nonblank :: "string list \<Rightarrow> string list" where
  "nonblank [] = []"
| "nonblank (p # parts) =
     (let p = TrimSpace p in if p \<noteq> [] then p # nonblank parts else nonblank parts)"

definition splitCSV :: "string \<Rightarrow> string list" where
  "splitCSV s = nonblank (Split s CHR '','')"

section \<open>time.ParseDuration\<close>

definition digit :: "char \<Rightarrow> bool" where "digit c \<longleftrightarrow> 48 \<le> byte c \<and> byte c \<le> 57"

definition digit_val :: "char \<Rightarrow> nat" where "digit_val c = byte c - 48"

abbreviation invalid_duration :: go_error where
  "invalid_duration \<equiv> ErrNew ''time: invalid duration''"

text \<open>The integer a text starts with, at most \<open>2 ^ 63\<close>.\<close>

fun leadingInt :: "nat \<Rightarrow> string \<Rightarrow> (nat \<times> string) option" where
  "leadingInt x [] = Some (x, [])"
| "leadingInt x (c # s) =
     (if \<not> digit c then Some (x, c # s)
      else if x > 2 ^ 63 div 10 then None
      else if x * 10 + digit_val c > 2 ^ 63 then None
      else leadingInt (x * 10 + digit_val c) s)"

text \<open>The digits after the point as a number over \<open>10 ^ k\<close>; what does not fit is dropped.\<close>

fun leadingFraction :: "nat \<Rightarrow> nat \<Rightarrow> bool \<Rightarrow> string \<Rightarrow> nat \<times> nat \<times> string" where
  "leadingFraction x k ovf [] = (x, k, [])"
| "leadingFraction x k ovf (c # s) =
     (if \<not> digit c then (x, k, c # s)
      else if ovf \<or> x > (2 ^ 63 - 1) div 10 \<or> x * 10 + digit_val c > 2 ^ 63
        then leadingFraction x k True s
      else leadingFraction (x * 10 + digit_val c) (Suc k) False s)"

text \<open>Nanoseconds per unit; the micro sign comes in two encodings.\<close>

definition unitMap :: "string \<rightharpoonup> nat" where
  "unitMap = map_of
     [(''ns'', 1), (''us'', 1000),
      (map char_of [194::nat, 181, 115], 1000), (map char_of [206::nat, 188, 115], 1000),
      (''ms'', 1000000), (''s'', 1000000000), (''m'', 60000000000), (''h'', 3600000000000)]"

text \<open>
  One number with its unit: its nanoseconds and the rest of the text.  \<open>fr f u k\<close> is the
  floating point product \<open>uint64(float64(f) * (float64(u) / 10^k))\<close>.
\<close>

definition duration_part ::
  "(nat \<Rightarrow> nat \<Rightarrow> nat \<Rightarrow> nat) \<Rightarrow> string \<Rightarrow> (nat \<times> string) result" where
  "duration_part fr s =
     (if \<not> (hd s = CHR ''.'' \<or> digit (hd s)) then Inl invalid_duration
      else case leadingInt 0 s of
        None \<Rightarrow> Inl invalid_duration
      | Some (v, s1) \<Rightarrow>
     (let pre = (length s \<noteq> length s1);
          (f, k, s2) = (if s1 \<noteq> [] \<and> hd s1 = CHR ''.''
                        then leadingFraction 0 0 False (tl s1) else (0, 0, s1));
          post = (s1 \<noteq> [] \<and> hd s1 = CHR ''.'' \<and> length (tl s1) \<noteq> length s2);
          u = takeWhile (\<lambda>c. \<not> (c = CHR ''.'' \<or> digit c)) s2;
          s3 = dropWhile (\<lambda>c. \<not> (c = CHR ''.'' \<or> digit c)) s2
      in if \<not> pre \<and> \<not> post then Inl invalid_duration
         else if u = [] then Inl (ErrNew ''time: missing unit in duration'')
         else case unitMap u of
           None \<Rightarrow> Inl (ErrNew ''time: unknown unit in duration'')
         | Some unit \<Rightarrow>
             if v > 2 ^ 63 div unit then Inl invalid_duration
             else (let v = v * unit; v' = (if f > 0 then (v + fr f unit k) mod 2 ^ 64 else v)
                   in if f > 0 \<and> v' > 2 ^ 63 then Inl invalid_duration else Inr (v', s3))))"

lemma leadingInt_shorter: "leadingInt x s = Some (v, s') \<Longrightarrow> length s' \<le> length s"
  by (induction x s rule: leadingInt.induct) (auto split: if_splits)

lemma leadingFraction_shorter:
  "leadingFraction x k ovf s = (f, n, s') \<Longrightarrow> length s' \<le> length s"
  by (induction x k ovf s rule: leadingFraction.induct) (auto split: if_splits)

lemma duration_part_shorter:
  assumes "duration_part fr s = Inr (v, s')" shows "length s' < length s"
proof -
  obtain v0 s1 f k s2 where 1: "leadingInt 0 s = Some (v0, s1)"
    and 2: "(if s1 \<noteq> [] \<and> hd s1 = CHR ''.''
             then leadingFraction 0 0 False (tl s1) else (0, 0, s1)) = (f, k, s2)"
    using assms by (auto simp: duration_part_def Let_def split: if_splits option.splits prod.splits)
  have "length s2 \<le> length s"
    using leadingInt_shorter[OF 1] 2 leadingFraction_shorter[of 0 0 False "tl s1" f k s2]
    by (auto split: if_splits)
  moreover have "s' = dropWhile (\<lambda>c. \<not> (c = CHR ''.'' \<or> digit c)) s2"
    "takeWhile (\<lambda>c. \<not> (c = CHR ''.'' \<or> digit c)) s2 \<noteq> []"
    using assms 1 2 by (auto simp: duration_part_def Let_def split: if_splits option.splits)
  then have "length s' < length s2"
    by (metis append_Nil length_append length_greater_0_conv less_add_same_cancel2 takeWhile_dropWhile_id)
  ultimately show ?thesis by simp
qed

text \<open>The sum is a \<open>uint64\<close>, checked after each addition.\<close>

function duration_sum ::
  "(nat \<Rightarrow> nat \<Rightarrow> nat \<Rightarrow> nat) \<Rightarrow> nat \<Rightarrow> string \<Rightarrow> nat result" where
  "duration_sum fr d s =
     (if s = [] then Inr d
      else case duration_part fr s of
        Inl e \<Rightarrow> Inl e
      | Inr (v, s') \<Rightarrow>
          if (d + v) mod 2 ^ 64 > 2 ^ 63 then Inl invalid_duration
          else duration_sum fr ((d + v) mod 2 ^ 64) s')"
  by pat_completeness auto
termination
  by (relation "measure (\<lambda>(fr, d, s). length s)") (auto dest: duration_part_shorter)

declare duration_sum.simps [simp del]

definition ParseDuration :: "(nat \<Rightarrow> nat \<Rightarrow> nat \<Rightarrow> nat) \<Rightarrow> string \<Rightarrow> int result" where
  "ParseDuration fr s =
     (let signed = (s \<noteq> [] \<and> (hd s = CHR ''-'' \<or> hd s = CHR ''+''));
          neg = (signed \<and> hd s = CHR ''-'');
          s = (if signed then tl s else s)
      in if s = ''0'' then Inr 0
         else if s = [] then Inl invalid_duration
         else case duration_sum fr 0 s of
           Inl e \<Rightarrow> Inl e
         | Inr d \<Rightarrow>
             if neg then Inr (- int d)
             else if d > 2 ^ 63 - 1 then Inl invalid_duration
             else Inr (int d))"

section \<open>time.Duration.String\<close>

text \<open>
  The lowest \<open>prec\<close> decimal digits after a point, without trailing zeros, and what is above them.
\<close>

fun padded :: "nat \<Rightarrow> nat \<Rightarrow> string" where
  "padded 0 v = []"
| "padded (Suc k) v = padded k (v div 10) @ [char_of (48 + v mod 10)]"

definition fmtFrac :: "nat \<Rightarrow> nat \<Rightarrow> string" where
  "fmtFrac v prec =
     (let ds = rev (dropWhile (\<lambda>c. c = CHR ''0'') (rev (padded prec v)))
      in if ds = [] then [] else CHR ''.'' # ds)"

definition Duration_String :: "int \<Rightarrow> string" where
  "Duration_String d =
     (let u = nat \<bar>d\<bar>;
          text =
            (if u = 0 then ''0s''
             else if u < 1000 then decimal u @ ''ns''
             else if u < 1000000 then
               decimal (u div 1000) @ fmtFrac u 3 @ map char_of [194::nat, 181, 115]
             else if u < 1000000000 then decimal (u div 1000000) @ fmtFrac u 6 @ ''ms''
             else
               (let secs = u div 1000000000; mins = secs div 60; hours = mins div 60
                in (if hours > 0 then decimal hours @ ''h'' else []) @
                   (if mins > 0 then decimal (mins mod 60) @ ''m'' else []) @
                   decimal (secs mod 60) @ fmtFrac u 9 @ ''s''))
      in if d < 0 then CHR ''-'' # text else text)"

section \<open>publisher.go\<close>

definition defaultPublisherPollInterval :: int where
  "defaultPublisherPollInterval = 1000000000"

record PublisherConfig =
  pc_DatabaseURL :: string
  pc_KafkaBrokers :: "string list"
  pc_KafkaTopic :: string
  PollInterval :: int

definition LoadPublisher ::
  "(nat \<Rightarrow> nat \<Rightarrow> nat \<Rightarrow> nat) \<Rightarrow> (env \<Rightarrow> env) \<Rightarrow> env \<Rightarrow> PublisherConfig result" where
  "LoadPublisher fr dotenv environ =
     (let getenv = dotenv environ;
          databaseURL = TrimSpace (getenv ''DATABASE_URL'')
      in if databaseURL = [] then Inl (ErrNew ''config: DATABASE_URL is required'')
      else
     (let brokersRaw = TrimSpace (getenv ''KAFKA_BROKERS'')
      in if brokersRaw = [] then Inl (ErrNew ''config: KAFKA_BROKERS is required'')
      else
     (let brokers = splitCSV brokersRaw
      in if length brokers = 0 then
           Inl (ErrNew ''config: KAFKA_BROKERS must contain at least one broker'')
      else
     (let topic = TrimSpace (getenv ''KAFKA_TOPIC'')
      in if topic = [] then Inl (ErrNew ''config: KAFKA_TOPIC is required'')
      else
     (let raw = TrimSpace (getenv ''POLL_INTERVAL'');
          ok = (\<lambda>poll. Inr \<lparr>pc_DatabaseURL = databaseURL, pc_KafkaBrokers = brokers,
                              pc_KafkaTopic = topic, PollInterval = poll\<rparr>)
      in if raw \<noteq> [] then
           (case ParseDuration fr raw of
              Inl e \<Rightarrow>
                Inl (ErrNew ''config: PUBLISHER_POLL_INTERVAL must be a duration (e.g. 1s)'')
            | Inr d \<Rightarrow>
                if d \<le> 0 then Inl (ErrNew ''config: PUBLISHER_POLL_INTERVAL must be positive'')
                else ok d)
         else ok defaultPublisherPollInterval)))))"

section \<open>worker.go\<close>

record WorkerConfig =
  wc_DatabaseURL :: string
  wc_KafkaBrokers :: "string list"
  wc_KafkaTopic :: string
  wc_KafkaGroupID :: string
  wc_DownstreamURL :: string

definition validateDownstreamURL :: "(string \<Rightarrow> string result) \<Rightarrow> string \<Rightarrow> string result" where
  "validateDownstreamURL bracket raw =
     (case url_Parse bracket raw of
        Inl e \<Rightarrow> Inl (ErrWrap ''config: invalid DOWNSTREAM_URL'' e)
      | Inr u \<Rightarrow>
          if Scheme u = ''http'' \<or> Scheme u = ''https'' then
            (if Host u = [] then Inl (ErrNew ''config: DOWNSTREAM_URL must include a host'')
             else Inr raw)
          else Inl (ErrNew ''config: DOWNSTREAM_URL must use http or https''))"

definition LoadWorker ::
  "(string \<Rightarrow> string result) \<Rightarrow> (env \<Rightarrow> env) \<Rightarrow> env \<Rightarrow> WorkerConfig result" where
  "LoadWorker bracket dotenv environ =
     (let getenv = dotenv environ;
          brokersRaw = TrimSpace (getenv ''KAFKA_BROKERS'')
      in if brokersRaw = [] then Inl (ErrNew ''config: KAFKA_BROKERS is required'')
      else
     (let brokers = splitCSV brokersRaw
      in if length brokers = 0 then
           Inl (ErrNew ''config: KAFKA_BROKERS must contain at least one broker'')
      else
     (let topic = TrimSpace (getenv ''KAFKA_TOPIC'')
      in if topic = [] then Inl (ErrNew ''config: KAFKA_TOPIC is required'')
      else
     (let groupID = TrimSpace (getenv ''KAFKA_GROUP_ID'')
      in if groupID = [] then Inl (ErrNew ''config: KAFKA_GROUP_ID is required'')
      else
     (let databaseURL = TrimSpace (getenv ''DATABASE_URL'')
      in if databaseURL = [] then Inl (ErrNew ''config: DATABASE_URL is required'')
      else
     (let downstreamURL = TrimSpace (getenv ''DOWNSTREAM_URL'')
      in if downstreamURL = [] then Inl (ErrNew ''config: DOWNSTREAM_URL is required'')
      else
     (case validateDownstreamURL bracket downstreamURL of
        Inl e \<Rightarrow> Inl e
      | Inr downstreamURL \<Rightarrow>
          Inr \<lparr>wc_DatabaseURL = databaseURL, wc_KafkaBrokers = brokers, wc_KafkaTopic = topic,
               wc_KafkaGroupID = groupID, wc_DownstreamURL = downstreamURL\<rparr>)))))))"

end
