(* ===== verification/Config_Correct.thy ===== *)
theory Config_Correct
  imports Config
begin

text \<open>
  The properties of the configuration: what a loaded configuration is known to satisfy, the
  broker list as a round trip, the range of durations and what a downstream URL looks like.
\<close>

section \<open>Broker lists\<close>

lemma nonblank_filter: "nonblank ps = filter (\<lambda>p. p \<noteq> []) (map TrimSpace ps)"
  by (induction ps) (simp_all add: Let_def)

definition clean_item :: "string \<Rightarrow> bool" where
  "clean_item p \<longleftrightarrow> p \<noteq> [] \<and> CHR '','' \<notin> set p \<and> TrimSpace p = p"

lemma Split_append_no_sep:
  "sep \<notin> set p \<Longrightarrow> Split (p @ s) sep = (p @ hd (Split s sep)) # tl (Split s sep)"
  by (induction p) (auto split: list.splits)

lemma Split_Join: "ps \<noteq> [] \<Longrightarrow> \<forall>p \<in> set ps. sep \<notin> set p \<Longrightarrow> Split (Join ps sep) sep = ps"
proof (induction ps sep rule: Join.induct)
  case (2 p sep)
  then show ?case using Split_append_no_sep[of sep p "[]"] by simp
next
  case (3 p q ps sep)
  then show ?case using Split_append_no_sep[of sep p "sep # Join (q # ps) sep"] by simp
qed simp

lemma nonblank_clean: "list_all clean_item ps \<Longrightarrow> nonblank ps = ps"
  by (induction ps) (simp_all add: clean_item_def Let_def)

lemma splitCSV_Join: "list_all clean_item ps \<Longrightarrow> splitCSV (Join ps CHR '','') = ps"
proof (cases "ps = []")
  case False
  assume "list_all clean_item ps"
  then have "\<forall>p \<in> set ps. CHR '','' \<notin> set p" by (auto simp: list_all_iff clean_item_def)
  with False \<open>list_all clean_item ps\<close> show ?thesis
    by (simp add: splitCSV_def Split_Join nonblank_clean)
qed (simp add: splitCSV_def)

lemma splitCSV_clean: "list_all clean_item (splitCSV s)"
proof -
  have "CHR '','' \<notin> set (TrimSpace p)" if "p \<in> set (Split s CHR '','')" for p
    using Split_no_sep[OF that] TrimSpace_infix[of p] by (metis UnCI set_append)
  then show ?thesis by (auto simp: splitCSV_def nonblank_filter list_all_iff clean_item_def)
qed

text \<open>
  C40: Every item of splitCSV is a non-empty trimmed text without a comma, and splitting the
  items joined by commas gives them back.
\<close>

theorem splitCSV_normal_form:
  "list_all clean_item (splitCSV s) \<and> splitCSV (Join (splitCSV s) CHR '','') = splitCSV s"
  by (simp add: splitCSV_clean splitCSV_Join)

section \<open>Durations\<close>

lemma digit_char: "d < 10 \<Longrightarrow> digit (char_of (48 + d)) \<and> digit_val (char_of (48 + d)) = d"
  by (simp add: digit_def digit_val_def)

lemma leadingInt_decimal:
  "leadingInt 0 (decimal n @ s) = (if n \<le> 2 ^ 63 then leadingInt n s else None)"
proof (induction n arbitrary: s rule: decimal.induct)
  case (1 n)
  show ?case
  proof (cases "n < 10")
    case True
    then show ?thesis using digit_char[of n] by (subst decimal.simps) simp
  next
    case False
    then have "leadingInt 0 (decimal n @ s) =
        (if n div 10 \<le> 2 ^ 63 then leadingInt (n div 10) (char_of (48 + n mod 10) # s) else None)"
      using "1.IH" by (subst decimal.simps) simp
    also have "\<dots> = (if n \<le> 2 ^ 63 then leadingInt n s else None)"
      using digit_char[of "n mod 10"] by (auto simp: not_less)
    finally show ?thesis .
  qed
qed

lemma decimal_head: "\<exists>c s. decimal n = c # s \<and> digit c"
proof (induction n rule: decimal.induct)
  case (1 n)
  then show ?case using digit_char[of n] by (subst decimal.simps) auto
qed

lemma duration_part_seconds:
  "duration_part fr (decimal n @ ''s'') =
     (if n * 10 ^ 9 \<le> 2 ^ 63 then Inr (n * 10 ^ 9, []) else Inl invalid_duration)"
proof -
  obtain c t where c: "decimal n = c # t" "digit c" using decimal_head by blast
  have s: "\<not> digit CHR ''s''" "unitMap ''s'' = Some 1000000000"
    by (simp_all add: digit_def unitMap_def)
  have "leadingInt 0 (c # t @ ''s'') = (if n \<le> 2 ^ 63 then Some (n, ''s'') else None)"
    using leadingInt_decimal[of n "''s''"] c s(1) by simp
  with c s show ?thesis
    by (auto simp: duration_part_def Let_def less_mult_imp_div_less not_le div_less_iff_less_mult
        linorder_not_less)
qed

text \<open>
  A whole number of seconds parses to that many nanoseconds as long as it fits an int64,
  and is an error as soon as it does not: durations never wrap around.
\<close>

theorem ParseDuration_seconds:
  "ParseDuration fr (decimal n @ ''s'') =
     (if n * 10 ^ 9 < 2 ^ 63 then Inr (int n * 10 ^ 9) else Inl invalid_duration)"
proof -
  obtain c t where c: "decimal n = c # t" "digit c" using decimal_head by blast
  then have "c \<noteq> CHR ''-''" "c \<noteq> CHR ''+''" by (auto simp: digit_def)
  moreover have "duration_sum fr 0 (decimal n @ ''s'') =
      (if n * 10 ^ 9 \<le> 2 ^ 63 then Inr (n * 10 ^ 9) else Inl invalid_duration)"
    by (subst duration_sum.simps) (auto simp: duration_part_seconds duration_sum.simps[of fr _ "[]"])
  ultimately show ?thesis
    using c by (auto simp: ParseDuration_def)
qed

section \<open>Downstream URLs\<close>

lemma getScheme_scheme:
  "getScheme i s = Inr (sch, rest) \<Longrightarrow> sch \<noteq> [] \<Longrightarrow> i @ s = sch @ CHR '':'' # rest"
  by (induction i s rule: getScheme.induct) (auto split: if_splits)

lemma parseHost_nonempty: "parseHost bracket [] = Inr []"
  by (simp add: parseHost_def Cut_def)

lemma parseAuthority_Nil: "parseAuthority bracket [] = Inr []"
  by (simp add: parseAuthority_def cut_last_def parseHost_nonempty)

text \<open>
  A text whose URL has a scheme and a host is the scheme, \<open>://\<close> and an authority that is not empty.
\<close>

lemma url_Parse_host:
  assumes "url_Parse bracket raw = Inr u" "Scheme u \<noteq> []" "Host u \<noteq> []"
  shows "\<exists>sch c rest. raw = sch @ ''://'' @ c # rest \<and> Scheme u = map to_lower sch \<and>
    c \<notin> set ''/?#''"
proof -
  define v where "v = fst (Cut CHR ''#'' raw)"
  have raw: "\<exists>t. raw = v @ t" "CHR ''#'' \<notin> set v"
    by (metis Cut_def fst_conv takeWhile_dropWhile_id v_def)
       (auto simp: v_def Cut_def dest: set_takeWhileD)
  from assms(1) have pu: "parse_url bracket v = Inr u"
    by (auto simp: url_Parse_def v_def path_ok_def split: prod.splits sum.splits)
  with assms(2) obtain sch rest where g: "getScheme [] v = Inr (sch, rest)"
    and r: "parse_rest bracket (map to_lower sch) rest = Inr u"
    by (auto simp: parse_url_def split: if_splits sum.splits)
  define q where "q = takeWhile (\<lambda>c. c \<noteq> CHR ''?'') rest"
  from r assms(2,3) have q: "take 2 q = ''//''" "Scheme u = map to_lower sch"
    "\<exists>h. parseAuthority bracket (takeWhile (\<lambda>c. c \<noteq> CHR ''/'') (drop 2 q)) = Inr h \<and> h = Host u"
    by (auto simp: parse_rest_def Cut_def Let_def path_ok_def q_def[symmetric]
        split: if_splits sum.splits)
  obtain b where b: "q = ''//'' @ b" using q(1) append_take_drop_id[of 2 q] by metis
  have "takeWhile (\<lambda>c. c \<noteq> CHR ''/'') b \<noteq> []"
    using q(3) assms(3) b parseAuthority_Nil[of bracket] by auto
  then obtain c b' where c: "b = c # b'" "c \<noteq> CHR ''/''" by (cases b) (auto split: if_splits)
  obtain d where d: "rest = q @ d" unfolding q_def by (metis takeWhile_dropWhile_id)
  have v: "v = sch @ CHR '':'' # rest"
    using getScheme_scheme[OF g] q(2) assms(2) by auto
  have "c \<in> set q" "c \<in> set v" using v d b c(1) by auto
  then have "c \<noteq> CHR ''?''" "c \<noteq> CHR ''#''"
    using set_takeWhileD[of c "\<lambda>c. c \<noteq> CHR ''?''" rest] raw(2) by (auto simp: q_def[symmetric])
  moreover obtain t where "raw = v @ t" using raw(1) by blast
  then have "raw = sch @ ''://'' @ c # b' @ d @ t" using v d b c(1) by simp
  ultimately show ?thesis using q(2) c(2) by auto
qed

text \<open>
  An accepted downstream URL is returned unchanged and reads http:// or https:// (in any
  case) followed by an authority that is not empty.
\<close>

theorem validateDownstreamURL_text:
  assumes "validateDownstreamURL bracket raw = Inr out"
  shows "out = raw \<and> (\<exists>sch c rest. raw = sch @ ''://'' @ c # rest \<and>
    map to_lower sch \<in> {''http'', ''https''} \<and> c \<notin> set ''/?#'')"
proof -
  obtain u where u: "url_Parse bracket raw = Inr u" "Scheme u = ''http'' \<or> Scheme u = ''https''"
    "Host u \<noteq> []" "out = raw"
    using assms by (auto simp: validateDownstreamURL_def split: sum.splits if_splits)
  then have "Scheme u \<noteq> []" by auto
  from url_Parse_host[OF u(1) this u(3)] obtain sch c rest where
    "raw = sch @ ''://'' @ c # rest" "Scheme u = map to_lower sch" "c \<notin> set ''/?#''" by blast
  with u(2,4) show ?thesis by (intro conjI exI[of _ sch] exI[of _ c] exI[of _ rest]) auto
qed

section \<open>What a loaded configuration satisfies\<close>

definition trimmed :: "string \<Rightarrow> bool" where
  "trimmed s \<longleftrightarrow> s \<noteq> [] \<and> TrimSpace s = s"

lemma duration_sum_le: "duration_sum fr d s = Inr n \<Longrightarrow> d \<le> 2 ^ 63 \<Longrightarrow> n \<le> 2 ^ 63"
proof (induction fr d s rule: duration_sum.induct)
  case (1 fr d s)
  then show ?case
    using duration_sum.simps[of fr d s] by (auto split: if_splits sum.splits)
qed

lemma ParseDuration_range: "ParseDuration fr s = Inr d \<Longrightarrow> - (2 ^ 63) \<le> d \<and> d < 2 ^ 63"
  using duration_sum_le[of fr 0]
  by (auto simp: ParseDuration_def Let_def split: if_splits sum.splits)

text \<open>
  C38: A loaded publisher configuration has trimmed, non-empty database URL and topic, at
  least one broker, only clean brokers, and a positive poll interval in the range of
  time.Duration.
\<close>

theorem LoadPublisher_ok:
  assumes "LoadPublisher fr dotenv environ = Inr cfg"
  shows "trimmed (pc_DatabaseURL cfg) \<and> trimmed (pc_KafkaTopic cfg) \<and>
    pc_KafkaBrokers cfg \<noteq> [] \<and> list_all clean_item (pc_KafkaBrokers cfg) \<and>
    0 < PollInterval cfg \<and> PollInterval cfg < 2 ^ 63"
  using assms ParseDuration_range[of fr "TrimSpace (dotenv environ ''POLL_INTERVAL'')"]
  by (auto simp: LoadPublisher_def Let_def trimmed_def splitCSV_clean
      defaultPublisherPollInterval_def split: if_splits sum.splits)

text \<open>
  C39: A loaded worker configuration has trimmed, non-empty fields, at least one broker, only
  clean brokers, and a downstream URL that parses with scheme http or https and a host.
\<close>

theorem LoadWorker_ok:
  assumes "LoadWorker bracket dotenv environ = Inr cfg"
  shows "trimmed (wc_DatabaseURL cfg) \<and> trimmed (wc_KafkaTopic cfg) \<and>
    trimmed (wc_KafkaGroupID cfg) \<and> wc_KafkaBrokers cfg \<noteq> [] \<and>
    list_all clean_item (wc_KafkaBrokers cfg) \<and> trimmed (wc_DownstreamURL cfg) \<and>
    (\<exists>u. url_Parse bracket (wc_DownstreamURL cfg) = Inr u \<and>
       Scheme u \<in> {''http'', ''https''} \<and> Host u \<noteq> [])"
  using assms
  by (auto simp: LoadWorker_def Let_def trimmed_def splitCSV_clean validateDownstreamURL_def
      split: if_splits sum.splits)

lemma trim_default_port: "TrimSpace ''8080'' = ''8080''"
  by code_simp

text \<open>
  Load succeeds exactly when secret and database URL are not blank; it returns them
  trimmed, and the port 8080 when PORT is blank.
\<close>

theorem Load_ok:
  "Load dotenv environ = Inr cfg \<longleftrightarrow>
     trimmed (StripeWebhookSecret cfg) \<and> trimmed (cfg_DatabaseURL cfg) \<and> trimmed (Port cfg) \<and>
     StripeWebhookSecret cfg = TrimSpace (dotenv environ ''STRIPE_WEBHOOK_SECRET'') \<and>
     cfg_DatabaseURL cfg = TrimSpace (dotenv environ ''DATABASE_URL'') \<and>
     Port cfg = (if TrimSpace (dotenv environ ''PORT'') = [] then ''8080''
                 else TrimSpace (dotenv environ ''PORT''))"
  by (cases cfg) (auto simp: Load_def Let_def trimmed_def defaultPort_def trim_default_port)

section \<open>The properties at concrete inputs\<close>

definition example_env :: env where
  "example_env k = (case map_of
     [(''DATABASE_URL'', '' postgres://db ''), (''KAFKA_BROKERS'', ''a:9092, b:9092,''),
      (''KAFKA_TOPIC'', ''jobs''), (''KAFKA_GROUP_ID'', ''svc''), (''POLL_INTERVAL'', ''2m30s''),
      (''DOWNSTREAM_URL'', ''HTTP://svc:8080/jobs'')] k of None \<Rightarrow> [] | Some v \<Rightarrow> v)"

definition no_dotenv :: "env \<Rightarrow> env" where "no_dotenv e = e"

definition no_fraction :: "nat \<Rightarrow> nat \<Rightarrow> nat \<Rightarrow> nat" where "no_fraction f u k = 0"

definition any_bracket :: "string \<Rightarrow> string result" where "any_bracket h = Inr h"

lemma load_examples:
  "LoadPublisher no_fraction no_dotenv example_env =
     Inr \<lparr>pc_DatabaseURL = ''postgres://db'', pc_KafkaBrokers = [''a:9092'', ''b:9092''],
          pc_KafkaTopic = ''jobs'', PollInterval = 150000000000\<rparr>"
  "LoadWorker any_bracket no_dotenv example_env =
     Inr \<lparr>wc_DatabaseURL = ''postgres://db'', wc_KafkaBrokers = [''a:9092'', ''b:9092''],
          wc_KafkaTopic = ''jobs'', wc_KafkaGroupID = ''svc'', wc_DownstreamURL = ''HTTP://svc:8080/jobs''\<rparr>"
  "validateDownstreamURL any_bracket ''HTTP://svc:8080/jobs'' = Inr ''HTTP://svc:8080/jobs''"
  by code_simp+

theorem validateDownstreamURL_text_witness:
  "\<exists>sch c rest. ''HTTP://svc:8080/jobs'' = sch @ ''://'' @ c # rest \<and>
     map to_lower sch \<in> {''http'', ''https''} \<and> c \<notin> set ''/?#''"
  using validateDownstreamURL_text[OF load_examples(3)] by blast

theorem LoadPublisher_ok_witness:
  "list_all clean_item [''a:9092'', ''b:9092''] \<and> (0::int) < 150000000000 \<and>
   (150000000000::int) < 2 ^ 63"
  using LoadPublisher_ok[OF load_examples(1)] by simp

theorem LoadWorker_ok_witness:
  "trimmed ''svc'' \<and> (\<exists>u. url_Parse any_bracket ''HTTP://svc:8080/jobs'' = Inr u \<and> Host u \<noteq> [])"
  using LoadWorker_ok[OF load_examples(2)] by auto

end
