(* ===== verification/Worker_Main.thy ===== *)
theory Worker_Main
  imports Http_Client Config_Correct
begin

text \<open>
  \<open>main\<close> of cmd/worker as a whole: the start, the poll loop and the end; and where the requests of
  a worker go.
\<close>

section \<open>main\<close>

definition configLoadFailed :: string where
  [status_simps]: "configLoadFailed = ''config_load_failed''"
definition storeOpenFailed :: string where
  [status_simps]: "storeOpenFailed = ''store_open_failed''"
definition workerStarted :: string where
  [status_simps]: "workerStarted = ''worker_started''"
definition shuttingDown :: string where
  [status_simps]: "shuttingDown = ''shutting_down''"
definition kafkaClientFailed :: string where
  [status_simps]: "kafkaClientFailed = ''kafka_client_failed''"

text \<open>
  \<open>client\<close> is the HTTP client without a URL, \<open>new_client\<close> what \<open>kgo.NewClient\<close> answers for the
  brokers, the group and the topic, \<open>commit\<close> its \<open>CommitRecords\<close>, \<open>polls\<close> what it has fetched.
  The exit code is None while the loop goes on: no poll has found the context done.
\<close>

definition worker_main ::
  "(string \<Rightarrow> string result) \<Rightarrow> (env \<Rightarrow> env) \<Rightarrow> env \<Rightarrow> (string \<Rightarrow> go_error option)
   \<Rightarrow> 's session_scheme http_downstream \<Rightarrow> (string list \<Rightarrow> string \<Rightarrow> string \<Rightarrow> go_error option)
   \<Rightarrow> (krecord list \<Rightarrow> ('s session_scheme, unit) io) \<Rightarrow> fetches list \<Rightarrow> 's session_scheme
   \<Rightarrow> nat option \<times> 's session_scheme" where
  "worker_main bracket dotenv environ open_err client new_client commit polls w =
     (let logger = NewJSONLogger None
      in case LoadWorker bracket dotenv environ of
        Inl err \<Rightarrow>
          (Some 1, log_Error logger configLoadFailed [(''error'', LStr (Error_string err))] w)
      | Inr cfg \<Rightarrow>
     (case NewPostgres open_err (wc_DatabaseURL cfg) w of
        (Inl err, w1) \<Rightarrow>
          (Some 1, log_Error logger storeOpenFailed [(''error'', LStr (Error_string err))] w1)
      | (Inr _, w1) \<Rightarrow>
          let downstream = NewHTTPDownstream (client\<lparr>baseURL := wc_DownstreamURL cfg\<rparr>)
          in case new_client (wc_KafkaBrokers cfg) (wc_KafkaGroupID cfg) (wc_KafkaTopic cfg) of
               Some err \<Rightarrow>
                 (Some 1, log_Error logger kafkaClientFailed [(''error'', LStr (Error_string err))] w1)
             | None \<Rightarrow>
                 let w2 = log_Info logger workerStarted
                       [(''brokers'', LStrs (wc_KafkaBrokers cfg)), (''topic'', LStr (wc_KafkaTopic cfg)),
                        (''group_id'', LStr (wc_KafkaGroupID cfg))] w1;
                     w3 = worker_loop (worker_iteration logger pg_completion_store downstream commit
                            (wc_KafkaGroupID cfg)) polls w2
                 in if list_ex f_DoneAfter polls then (Some 0, log_Info logger shuttingDown [] w3)
                    else (None, w3)))"

section \<open>What is sent and where\<close>

text \<open>The records of some polls.\<close>

definition polled :: "fetches list \<Rightarrow> krecord set" where
  "polled polls = (\<Union>f \<in> set polls. \<Union>p \<in> set (f_Partitions f). set (fp_Records p))"

text \<open>
  The exchanges of one delivery: a \<open>POST\<close> to the URL of a job of these records, and at most nine
  further requests, each of which the reply before it asked for.
\<close>

definition delivery_of :: "string \<Rightarrow> krecord set \<Rightarrow> exchange list \<Rightarrow> bool" where
  "delivery_of url recs xs \<longleftrightarrow> xs \<noteq> [] \<and> redirects_ok xs \<and> length xs \<le> 10 \<and>
     (\<exists>rec \<in> recs. \<exists>job body. Unmarshal_Job (rec_Value rec) = Inr job \<and> StripeEventID job \<noteq> [] \<and>
        Marshal_Job job = Inr body \<and>
        fst (hd xs) = \<lparr>hop_Method = ''POST'', hop_URL = url, hop_Body = Some body\<rparr>)"

definition sent_to :: "string \<Rightarrow> krecord set \<Rightarrow> 's wire_world_scheme \<Rightarrow> bool" where
  "sent_to url recs w \<longleftrightarrow> db_inv (pg_db w) \<and> (\<forall>xs \<in> set (wire_sent w). delivery_of url recs xs)"

lemma wire_of_log [simp]: "wire_of (log_at l lg m as w) = wire_of w"
  by (simp add: log_at_def wire_of_logs)

lemma sent_to_wire: "sent_to url recs w \<longleftrightarrow> db_inv (pg_db w) \<and> (\<forall>xs \<in> set (snd (wire_of w)). delivery_of url recs xs)"
  by (simp add: sent_to_def wire_of_def)

lemma sent_to_log [simp]: "sent_to url recs (log_at l lg m as w) = sent_to url recs w"
  by (simp add: sent_to_wire)

lemma wire_sent_log [simp]: "wire_sent (log_at l lg m as w) = wire_sent w"
  using wire_of_log[of l lg m as w] by (simp add: wire_of_def)

lemma wire_deliver_requests:
  assumes "wire_deliver nre url job n = (e, n')" "Unmarshal_Job (rec_Value rec) = Inr job" "StripeEventID job \<noteq> []"
    and "rec \<in> recs" "\<forall>xs \<in> set (snd n). delivery_of url recs xs"
  shows "\<forall>xs \<in> set (snd n'). delivery_of url recs xs"
  using wire_deliver_cases[OF assms(1)]
proof (elim disjE exE conjE)
  show ?thesis if "snd n' = snd n" using that assms(5) by simp
  fix body xs
  assume *: "Marshal_Job job = Inr body" "snd n' = snd n @ [xs]" "xs \<noteq> []" "redirects_ok xs" "length xs \<le> maxRequests"
    "fst (hd xs) = \<lparr>hop_Method = ''POST'', hop_URL = url, hop_Body = Some body\<rparr>"
  then have "delivery_of url recs xs"
    using assms(2-4) unfolding delivery_of_def maxRequests_def by blast
  with *(2) assms(5) show ?thesis by auto
qed

lemma handleRecord_sent_to:
  assumes "handleRecord log pg_completion_store (wire_downstream nre url) c rec w = (b, w')" "sent_to url recs w"
    and "rec \<in> recs"
  shows "sent_to url recs w'"
proof -
  have inv: "db_inv (pg_db w)" and old: "\<forall>xs \<in> set (snd (wire_of w)). delivery_of url recs xs"
    using assms(2) by (simp_all add: sent_to_wire)
  have "wire_of w' = wire_of w \<or> (\<exists>job e. Unmarshal_Job (rec_Value rec) = Inr job \<and> StripeEventID job \<noteq> [] \<and>
      wire_deliver nre url job (wire_of w) = (e, wire_of w'))"
    using wire.handleRecord_delivers[OF assms(1) inv] by blast
  then have "\<forall>xs \<in> set (snd (wire_of w')). delivery_of url recs xs"
    using old wire_deliver_requests[OF _ _ _ assms(3) old] by metis
  then show ?thesis
    using wire.handleRecord_keeps[OF assms(1) inv] by (simp add: sent_to_wire)
qed

lemma batch_sent_to:
  assumes "recordsSafeToCommit rs (handleRecord log pg_completion_store (wire_downstream nre url) c) w = (cs, w')"
    and "sent_to url recs w" "set rs \<subseteq> recs"
  shows "sent_to url recs w'"
  using assms
proof (induction rs arbitrary: w cs w')
  case (Cons rec rs)
  obtain b w1 where h: "handleRecord log pg_completion_store (wire_downstream nre url) c rec w = (b, w1)" by fastforce
  obtain cs' w2 where r: "recordsSafeToCommit rs
      (handleRecord log pg_completion_store (wire_downstream nre url) c) w1 = (cs', w2)" by fastforce
  have w1: "sent_to url recs w1" using handleRecord_sent_to[OF h Cons.prems(2)] Cons.prems(3) by simp
  from Cons.IH[OF r w1] w1 h r Cons.prems(1,3) show ?case by (cases b) auto
qed simp

lemma group_commit_wire: "group_commit rs w = (r, w') \<Longrightarrow> pg_db w' = pg_db w \<and> wire_of w' = wire_of w"
  by (auto simp: group_commit_def wire_of_def split: list.splits option.splits)

lemma partition_sent_to:
  assumes "sent_to url recs w" "set (fp_Records p) \<subseteq> recs"
  shows "sent_to url recs (handle_partition log pg_completion_store (wire_downstream nre url) group_commit c p w)"
proof -
  obtain cs w1 where r: "recordsSafeToCommit (fp_Records p)
      (handleRecord log pg_completion_store (wire_downstream nre url) c) w = (cs, w1)" by fastforce
  obtain x w2 where g: "group_commit cs w1 = (x, w2)" by fastforce
  have "sent_to url recs w1" using batch_sent_to[OF r assms] .
  moreover from this group_commit_wire[OF g] have "sent_to url recs w2" by (simp add: sent_to_wire)
  ultimately show ?thesis using r g assms
    by (cases x) (auto simp: handle_partition_def split: option.splits)
qed

lemma partitions_sent_to:
  "sent_to url recs w \<Longrightarrow> \<forall>p \<in> set ps. set (fp_Records p) \<subseteq> recs \<Longrightarrow> sent_to url recs (handle_partitions
     (handle_partition log pg_completion_store (wire_downstream nre url) group_commit c) ps w)"
  by (induction ps arbitrary: w) (simp_all add: partition_sent_to)

lemma fetch_errors_sent_to [simp]: "sent_to url recs (log_fetch_errors log es w) = sent_to url recs w"
  by (induction es arbitrary: w) simp_all

lemma loop_sent_to:
  "sent_to url recs w \<Longrightarrow> polled polls \<subseteq> recs \<Longrightarrow> sent_to url recs (worker_loop
     (worker_iteration log pg_completion_store (wire_downstream nre url) group_commit c) polls w)"
proof (induction polls arbitrary: w)
  case (Cons f polls)
  have "\<forall>p \<in> set (f_Partitions f). set (fp_Records p) \<subseteq> recs" "polled polls \<subseteq> recs"
    using Cons.prems(2) by (auto simp: polled_def)
  with Cons show ?case by (simp add: worker_iteration_def partitions_sent_to)
qed simp

lemma LoadWorker_url:
  "LoadWorker bracket dotenv environ = Inr cfg \<Longrightarrow> \<exists>u. url_Parse bracket (wc_DownstreamURL cfg) = Inr u \<and>
     Scheme u \<in> {''http'', ''https''} \<and> Host u \<noteq> []"
  by (auto simp: LoadWorker_def Let_def validateDownstreamURL_def split: if_splits sum.splits)

abbreviation wire_main where
  "wire_main bracket dotenv environ open_err nre new_client \<equiv>
     worker_main bracket dotenv environ open_err
       \<lparr>baseURL = [], new_request_err = nre, do_request = wire_do\<rparr> new_client group_commit"

text \<open>
  C23: A worker process that starts with nothing sent sends requests only when its configuration
  is valid. Each call of the HTTP client then posts, to the URL of DOWNSTREAM_URL, which has the
  scheme http or https and a host, the JSON of a job with an event id that it decoded from a
  record it polled. Any further request of the call, at most nine, is a redirect: it goes to the
  URL the reply before it named, with the body after a 307 or 308 and without one (a GET) after a
  301, 302 or 303. When the process exits with 1 it has sent nothing, and it exits with 0 only
  after its context is done. This holds for every environment, every reply of every server, every
  schedule of database faults, and everything the Kafka client fetches.
\<close>

theorem worker_sends_to_downstream:
  assumes "db_inv (pg_db w)" "wire_sent w = []"
    and "wire_main bracket dotenv environ open_err nre new_client polls w = (code, w')"
  shows "(\<forall>xs \<in> set (wire_sent w'). \<exists>cfg u. LoadWorker bracket dotenv environ = Inr cfg \<and>
      delivery_of (wc_DownstreamURL cfg) (polled polls) xs \<and> url_Parse bracket (wc_DownstreamURL cfg) = Inr u \<and>
      Scheme u \<in> {''http'', ''https''} \<and> Host u \<noteq> []) \<and>
    (code = Some 1 \<longrightarrow> wire_sent w' = []) \<and> (code = Some 0 \<longrightarrow> list_ex f_DoneAfter polls)"
proof (cases "LoadWorker bracket dotenv environ")
  case (Inl err)
  with assms show ?thesis by (auto simp: worker_main_def Let_def)
next
  case (Inr cfg)
  let ?url = "wc_DownstreamURL cfg"
  obtain u where u: "url_Parse bracket ?url = Inr u" "Scheme u \<in> {''http'', ''https''}" "Host u \<noteq> []"
    using LoadWorker_url[OF Inr] by blast
  obtain r w1 where st: "NewPostgres open_err (wc_DatabaseURL cfg) w = (r, w1)" by fastforce
  have w1: "sent_to ?url (polled polls) w1" "wire_sent w1 = []"
    using preservesD[OF preserves_NewPostgres st assms(1)] wire_of_more[of w1 w] assms(2)
    by (auto simp: sent_to_def wire_of_def)
  have "\<lparr>baseURL = [], new_request_err = nre, do_request = wire_do\<rparr>\<lparr>baseURL := ?url\<rparr> =
      \<lparr>baseURL = ?url, new_request_err = nre, do_request = wire_do\<rparr>" by simp
  note main = assms(3)[unfolded worker_main_def Let_def Inr sum.case this wire_downstream_def[symmetric] st prod.case]
  show ?thesis
  proof (cases "\<exists>x. r = Inr x \<and> new_client (wc_KafkaBrokers cfg) (wc_KafkaGroupID cfg) (wc_KafkaTopic cfg) = None")
    case False
    with main have "code = Some 1" "wire_sent w' = []"
      using w1(2) by (cases r; auto split: option.splits)+
    then show ?thesis by simp
  next
    case True
    then obtain x where "r = Inr x" "new_client (wc_KafkaBrokers cfg) (wc_KafkaGroupID cfg) (wc_KafkaTopic cfg) = None"
      by blast
    with main have "sent_to ?url (polled polls) w'" "code \<noteq> Some 1" "code = Some 0 \<longrightarrow> list_ex f_DoneAfter polls"
      using w1(1) by (auto simp: loop_sent_to[OF _ order_refl] split: if_splits)
    with Inr u show ?thesis unfolding sent_to_def by blast
  qed
qed

definition wire_on :: "database \<Rightarrow> reply list \<Rightarrow> wire_world" where
  "wire_on db rs = \<lparr>proc_logs = [], pg_db = db, pg_slots = [], net_answers = [], net_sent = [],
     commit_answers = [], group_commits = [], wire_replies = rs, wire_sent = []\<rparr>"

lemma wire_on_sel [simp]: "pg_db (wire_on db rs) = db" "wire_sent (wire_on db rs) = []"
  by (simp_all add: wire_on_def)

abbreviation example_main :: "nat option \<times> wire_world" where
  "example_main \<equiv> wire_main any_bracket no_dotenv example_env (\<lambda>dsn. None) no_url_error (\<lambda>bs g t. None)
     [poll_of [record_at 0 ''evt_1'']]
     (wire_on (empty_database test_cast) [Reply 307 (Location ''http://b/''), Reply 200 NoLocation])"

lemma example_main_sends: "map length (wire_sent (snd example_main)) = [2]"
  by code_simp

theorem worker_sends_to_downstream_witness:
  "\<exists>xs. wire_sent (snd example_main) = [xs] \<and> length xs = 2 \<and>
     delivery_of ''HTTP://svc:8080/jobs'' (polled [poll_of [record_at 0 ''evt_1'']]) xs"
proof -
  obtain xs where xs: "wire_sent (snd example_main) = [xs]" "length xs = 2"
    using example_main_sends by auto
  from worker_sends_to_downstream[of _ any_bracket no_dotenv example_env "\<lambda>dsn. None" no_url_error
      "\<lambda>bs g t. None", OF _ _ prod.collapse[symmetric], of "wire_on (empty_database test_cast)
        [Reply 307 (Location ''http://b/''), Reply 200 NoLocation]" "[poll_of [record_at 0 ''evt_1'']]"] xs load_examples(2)
  show ?thesis by auto
qed

end
