(* ===== verification/Publisher.thy ===== *)
theory Publisher
  imports Store Config "HOL-Library.While_Combinator"
begin

text \<open>
  cmd/publisher: the loop that moves pending outbox rows to Kafka.  The interface of the code
  (\<open>kafkaProducer\<close>) and the operations it uses of the store are records of operations on a
  world, passed as the code passes them.
\<close>

section \<open>produce.go\<close>

text \<open>What the code sets of a \<open>kgo.Record\<close>.\<close>

record produce_record =
  pr_Topic :: string
  pr_Key :: string
  pr_Value :: string

text \<open>
  \<open>ProduceSync\<close> answers one error or none per record; \<open>FirstErr\<close> is the first of them.
\<close>

record 'w kafkaProducer =
  ProduceSync :: "produce_record list \<Rightarrow> 'w \<Rightarrow> go_error option list \<times> 'w"

fun FirstErr :: "go_error option list \<Rightarrow> go_error option" where
  "FirstErr [] = None"
| "FirstErr (None # rs) = FirstErr rs"
| "FirstErr (Some e # rs) = Some e"

definition publishOutbox ::
  "'w kafkaProducer \<Rightarrow> string \<Rightarrow> string \<Rightarrow> string \<Rightarrow> ('w, produce_record) io" where
  "publishOutbox producer topic eventID payload w =
     (let rec = \<lparr>pr_Topic = topic, pr_Key = eventID, pr_Value = payload\<rparr>
      in case ProduceSync producer [rec] w of
           (results, w') \<Rightarrow>
             (case FirstErr results of
                Some err \<Rightarrow> (Inl err, w')
              | None \<Rightarrow> (Inr rec, w')))"

section \<open>The loop of main\<close>

definition outboxPublishSucceeded :: string where
  [status_simps]: "outboxPublishSucceeded = ''outbox_publish_succeeded''"
definition outboxPublishFailed :: string where
  [status_simps]: "outboxPublishFailed = ''outbox_publish_failed''"
definition outboxMarkPublishedFailed :: string where
  [status_simps]: "outboxMarkPublishedFailed = ''outbox_mark_published_failed''"
definition publisherStarted :: string where
  [status_simps]: "publisherStarted = ''publisher_started''"

record 'w outbox_store =
  ob_Next :: "('w, OutboxRow option) io"
  ob_Mark :: "string \<Rightarrow> ('w, bool) io"

text \<open>
  The clock of the process in nanoseconds and the moment the context is done (a signal), if any.
\<close>

record 'w clock =
  ck_now :: "'w \<Rightarrow> int"
  ck_set :: "int \<Rightarrow> 'w \<Rightarrow> 'w"
  ck_stop :: "'w \<Rightarrow> int option"

definition ctx_done :: "'w clock \<Rightarrow> 'w \<Rightarrow> bool" where
  "ctx_done ck w = (case ck_stop ck w of None \<Rightarrow> False | Some t \<Rightarrow> t \<le> ck_now ck w)"

text \<open>\<open>select\<close> on the done channel and a timer: the earlier of the two.\<close>

definition sleepOrDone :: "'w clock \<Rightarrow> int \<Rightarrow> 'w \<Rightarrow> 'w" where
  "sleepOrDone ck d w =
     (let timer = ck_now ck w + max 0 d
      in case ck_stop ck w of
           None \<Rightarrow> ck_set ck timer w
         | Some t \<Rightarrow> if t \<le> ck_now ck w then w else ck_set ck (min t timer) w)"

definition publisher_body ::
  "logger \<Rightarrow> 'a proc_scheme outbox_store \<Rightarrow> 'a proc_scheme kafkaProducer
   \<Rightarrow> 'a proc_scheme clock \<Rightarrow> string \<Rightarrow> int \<Rightarrow> 'a proc_scheme \<Rightarrow> 'a proc_scheme" where
  "publisher_body log st client ck topic interval w =
     (case ob_Next st w of
        (Inl err, w1) \<Rightarrow>
          sleepOrDone ck interval
            (log_Error log outboxPublishFailed [(''error'', LStr (Error_string err))] w1)
      | (Inr None, w1) \<Rightarrow> sleepOrDone ck interval w1
      | (Inr (Some row), w1) \<Rightarrow>
     (case publishOutbox client topic (or_EventID row) (or_Payload row) w1 of
        (Inl err, w2) \<Rightarrow>
          sleepOrDone ck interval
            (log_Error log outboxPublishFailed
               [(''event_id'', LStr (or_EventID row)), (''topic'', LStr topic),
                (''error'', LStr (Error_string err))] w2)
      | (Inr _, w2) \<Rightarrow>
     (case ob_Mark st (or_EventID row) w2 of
        (Inl err, w3) \<Rightarrow>
          sleepOrDone ck interval
            (log_Error log outboxPublishFailed
               [(''event_id'', LStr (or_EventID row)), (''topic'', LStr topic),
                (''error'', LStr (Error_string err))] w3)
      | (Inr updated, w3) \<Rightarrow>
          if \<not> updated then
            sleepOrDone ck interval
              (log_Error log outboxMarkPublishedFailed
                 [(''event_id'', LStr (or_EventID row)), (''topic'', LStr topic),
                  (''error'', LStr ''conditional update matched 0 rows'')] w3)
          else
            log_Info log outboxPublishSucceeded
              [(''event_id'', LStr (or_EventID row)), (''topic'', LStr topic)] w3)))"

text \<open>\<open>for { if ctx.Err() != nil { break } .. }\<close>: None when the loop does not end.\<close>

definition publisher_loop ::
  "logger \<Rightarrow> 'a proc_scheme outbox_store \<Rightarrow> 'a proc_scheme kafkaProducer
   \<Rightarrow> 'a proc_scheme clock \<Rightarrow> string \<Rightarrow> int \<Rightarrow> 'a proc_scheme \<Rightarrow> 'a proc_scheme option" where
  "publisher_loop log st client ck topic interval =
     while_option (\<lambda>w. \<not> ctx_done ck w) (publisher_body log st client ck topic interval)"

section \<open>main\<close>

definition pub_configLoadFailed :: string where
  [status_simps]: "pub_configLoadFailed = ''config_load_failed''"
definition pub_storeOpenFailed :: string where
  [status_simps]: "pub_storeOpenFailed = ''store_open_failed''"
definition pub_kafkaClientFailed :: string where
  [status_simps]: "pub_kafkaClientFailed = ''kafka_client_failed''"

definition pg_outbox_store :: "'s session_scheme outbox_store" where
  "pg_outbox_store = \<lparr>ob_Next = NextPendingOutbox, ob_Mark = MarkOutboxPublished\<rparr>"

text \<open>
  The exit code and the last world, None when the process does not end.  \<open>new_client\<close> is what
  \<open>kgo.NewClient\<close> answers for the brokers.
\<close>

definition publisher_main ::
  "(nat \<Rightarrow> nat \<Rightarrow> nat \<Rightarrow> nat) \<Rightarrow> (env \<Rightarrow> env) \<Rightarrow> env \<Rightarrow> (string \<Rightarrow> go_error option)
   \<Rightarrow> (string list \<Rightarrow> go_error option) \<Rightarrow> 's session_scheme kafkaProducer
   \<Rightarrow> 's session_scheme clock \<Rightarrow> 's session_scheme \<Rightarrow> (nat \<times> 's session_scheme) option" where
  "publisher_main fr dotenv environ open_err new_client client ck w =
     (let logger = NewJSONLogger None
      in case LoadPublisher fr dotenv environ of
        Inl err \<Rightarrow>
          Some (1, log_Error logger pub_configLoadFailed [(''error'', LStr (Error_string err))] w)
      | Inr cfg \<Rightarrow>
     (case NewPostgres open_err (pc_DatabaseURL cfg) w of
        (Inl err, w1) \<Rightarrow>
          Some (1, log_Error logger pub_storeOpenFailed [(''error'', LStr (Error_string err))] w1)
      | (Inr _, w1) \<Rightarrow>
     (case new_client (pc_KafkaBrokers cfg) of
        Some err \<Rightarrow>
          Some (1, log_Error logger pub_kafkaClientFailed [(''error'', LStr (Error_string err))] w1)
      | None \<Rightarrow>
          map_option (\<lambda>w'. (0, w'))
            (publisher_loop logger pg_outbox_store client ck (pc_KafkaTopic cfg) (PollInterval cfg)
               (log_Info logger publisherStarted
                  [(''brokers'', LStrs (pc_KafkaBrokers cfg)), (''topic'', LStr (pc_KafkaTopic cfg)),
                   (''poll_interval'', LStr (Duration_String (PollInterval cfg)))] w1)))))"

end
