(* ===== verification/Publisher_Facts.thy ===== *)
theory Publisher_Facts
  imports Publisher Store_Facts
begin

text \<open>
  What the publisher loop may rely on of the outbox, the producer and the clock, as locales, and
  what it then guarantees: no row is marked before the broker has its record.
\<close>

section \<open>Contracts\<close>

text \<open>
  \<open>payloads\<close> reads the payload of the outbox row of an event, \<open>published\<close> the events whose row is
  published, \<open>kafka\<close> the records the broker has.
\<close>

locale outbox_contract =
  fixes st :: "'a proc_scheme outbox_store"
    and inv :: "'a proc_scheme \<Rightarrow> bool"
    and payloads :: "'a proc_scheme \<Rightarrow> string \<rightharpoonup> string"
    and published :: "'a proc_scheme \<Rightarrow> string set"
    and kafka :: "'a proc_scheme \<Rightarrow> produce_record list"
  assumes logs: "inv (w\<lparr>proc_logs := l\<rparr>) = inv w" "payloads (w\<lparr>proc_logs := l\<rparr>) = payloads w"
      "published (w\<lparr>proc_logs := l\<rparr>) = published w" "kafka (w\<lparr>proc_logs := l\<rparr>) = kafka w"
    and next_keeps: "ob_Next st w = (r, w') \<Longrightarrow> inv w \<Longrightarrow>
       inv w' \<and> payloads w \<subseteq>\<^sub>m payloads w' \<and> published w' = published w \<and> kafka w' = kafka w"
    and next_row: "ob_Next st w = (Inr (Some row), w') \<Longrightarrow> inv w \<Longrightarrow>
       payloads w' (or_EventID row) = Some (or_Payload row)"
    and mark_keeps: "ob_Mark st ev w = (b, w') \<Longrightarrow> inv w \<Longrightarrow>
       inv w' \<and> payloads w \<subseteq>\<^sub>m payloads w' \<and> published w \<subseteq> published w' \<and>
       published w' \<subseteq> insert ev (published w) \<and> kafka w' = kafka w"

locale publisher_contract = outbox_contract st inv payloads published kafka
  for st :: "'a proc_scheme outbox_store"
    and inv :: "'a proc_scheme \<Rightarrow> bool"
    and payloads :: "'a proc_scheme \<Rightarrow> string \<rightharpoonup> string"
    and published :: "'a proc_scheme \<Rightarrow> string set"
    and kafka :: "'a proc_scheme \<Rightarrow> produce_record list" +
  fixes client :: "'a proc_scheme kafkaProducer"
    and ck :: "'a proc_scheme clock"
  assumes produce_keeps: "ProduceSync client rs w = (res, w') \<Longrightarrow> inv w \<Longrightarrow>
       inv w' \<and> payloads w' = payloads w \<and> published w' = published w \<and>
       set (kafka w) \<subseteq> set (kafka w') \<and> (FirstErr res = None \<longrightarrow> set rs \<subseteq> set (kafka w'))"
    and clock_keeps: "inv (ck_set ck t w) = inv w" "payloads (ck_set ck t w) = payloads w"
       "published (ck_set ck t w) = published w" "kafka (ck_set ck t w) = kafka w"
begin

lemma log_at_frame [simp]:
  "inv (log_at lvl l m as w) = inv w" "payloads (log_at lvl l m as w) = payloads w"
  "published (log_at lvl l m as w) = published w" "kafka (log_at lvl l m as w) = kafka w"
  by (simp_all add: log_at_def logs)

lemma sleep_frame [simp]:
  "inv (sleepOrDone ck d w) = inv w" "payloads (sleepOrDone ck d w) = payloads w"
  "published (sleepOrDone ck d w) = published w" "kafka (sleepOrDone ck d w) = kafka w"
  by (simp_all add: sleepOrDone_def Let_def clock_keeps split: option.splits)

text \<open>Every published row has its record at the broker.\<close>

definition produced :: "string \<Rightarrow> 'a proc_scheme \<Rightarrow> bool" where
  "produced topic w \<longleftrightarrow>
     (\<forall>ev \<in> published w. \<exists>p. payloads w ev = Some p \<and>
        \<lparr>pr_Topic = topic, pr_Key = ev, pr_Value = p\<rparr> \<in> set (kafka w))"

lemma produced_mono:
  "produced topic w \<Longrightarrow> payloads w \<subseteq>\<^sub>m payloads w' \<Longrightarrow> published w' = published w \<Longrightarrow>
   set (kafka w) \<subseteq> set (kafka w') \<Longrightarrow> produced topic w'"
  unfolding produced_def map_le_def by (metis (full_types) domI subsetD)

lemma publish_facts:
  assumes "publishOutbox client topic ev p w = (r, w')" "inv w"
  shows "inv w' \<and> payloads w' = payloads w \<and> published w' = published w \<and>
    set (kafka w) \<subseteq> set (kafka w') \<and>
    (\<forall>x. r = Inr x \<longrightarrow> \<lparr>pr_Topic = topic, pr_Key = ev, pr_Value = p\<rparr> \<in> set (kafka w'))"
  using assms produce_keeps[of "[\<lparr>pr_Topic = topic, pr_Key = ev, pr_Value = p\<rparr>]" w]
  by (auto simp: publishOutbox_def Let_def split: prod.splits option.splits)

lemma mark_produced:
  assumes "ob_Mark st ev w = (b, w')" "inv w" "produced topic w"
    and "payloads w ev = Some p" "\<lparr>pr_Topic = topic, pr_Key = ev, pr_Value = p\<rparr> \<in> set (kafka w)"
  shows "inv w' \<and> produced topic w'"
proof -
  note k = mark_keeps[OF assms(1,2)]
  have "\<exists>p. payloads w' e = Some p \<and> \<lparr>pr_Topic = topic, pr_Key = e, pr_Value = p\<rparr> \<in> set (kafka w')"
    if "e \<in> published w'" for e
  proof -
    have "e = ev \<or> e \<in> published w" using k that by blast
    then have "\<exists>p. payloads w e = Some p \<and> \<lparr>pr_Topic = topic, pr_Key = e, pr_Value = p\<rparr> \<in> set (kafka w)"
      using assms(3-5) by (auto simp: produced_def)
    with k show ?thesis by (auto simp: map_le_def dom_def)
  qed
  with k show ?thesis by (auto simp: produced_def)
qed

lemma body_produced:
  assumes "inv w" "produced topic w"
  shows "inv (publisher_body log st client ck topic d w) \<and>
    produced topic (publisher_body log st client ck topic d w)"
proof -
  have frame: "produced topic (sleepOrDone ck d v) = produced topic v"
    "produced topic (log_at lvl l m as v) = produced topic v" for v lvl l m as
    by (simp_all add: produced_def)
  obtain r w1 where 1: "ob_Next st w = (r, w1)" by fastforce
  note k1 = next_keeps[OF 1 assms(1)]
  have p1: "produced topic w1" using produced_mono[OF assms(2)] k1 by auto
  show ?thesis
  proof (cases "\<exists>row. r = Inr (Some row)")
    case False
    with 1 k1 p1 show ?thesis
      by (cases r) (auto simp: publisher_body_def frame split: option.splits)
  next
    case True
    then obtain row where row: "r = Inr (Some row)" ..
    let ?ev = "or_EventID row"
    obtain q w2 where 2: "publishOutbox client topic ?ev (or_Payload row) w1 = (q, w2)" by fastforce
    note k2 = publish_facts[OF 2 conjunct1[OF k1]]
    have p2: "produced topic w2" using produced_mono[OF p1] k2 by auto
    show ?thesis
    proof (cases q)
      case (Inl e)
      with 1 2 row k2 p2 show ?thesis by (simp add: publisher_body_def frame)
    next
      case (Inr x)
      obtain b w3 where 3: "ob_Mark st ?ev w2 = (b, w3)" by fastforce
      have "payloads w2 ?ev = Some (or_Payload row)"
        using next_row[OF 1[unfolded row] assms(1)] k2 by simp
      with mark_produced[OF 3 conjunct1[OF k2] p2] k2 Inr have "inv w3 \<and> produced topic w3" by auto
      with 1 2 3 row Inr show ?thesis
        by (cases b) (auto simp: publisher_body_def frame)
    qed
  qed
qed

lemma loop_produced:
  assumes "publisher_loop log st client ck topic d w = Some w'" "inv w" "produced topic w"
  shows "inv w' \<and> produced topic w'"
  using while_option_rule[of "\<lambda>w. inv w \<and> produced topic w", OF _ assms(1)[unfolded publisher_loop_def]]
    body_produced assms(2,3) by blast

end

end
