(* ===== verification/Publisher_Correct.thy ===== *)
theory Publisher_Correct
  imports Publisher_Facts Store_Correct
begin

text \<open>
  The publisher on the Postgres store, a Kafka cluster and a clock: the instance of its contracts,
  and its properties.
\<close>

section \<open>The world of the publisher\<close>

text \<open>
  What the cluster answers to a produce call, and how long it takes.  An answer can be lost: the
  record is in the log and the client reports an error.
\<close>

datatype produce_answer = Acked | LostAck string | Refused string

record publisher_world = session +
  pw_now :: int
  pw_stop :: "int option"
  produce_answers :: "(nat \<times> produce_answer) list"
  kafka_log :: "produce_record list"

definition cluster_produce ::
  "produce_record list \<Rightarrow> 's publisher_world_scheme \<Rightarrow> go_error option list \<times> 's publisher_world_scheme"
where
  "cluster_produce rs w =
     (let (t, a) = (case produce_answers w of [] \<Rightarrow> (0, Acked) | x # _ \<Rightarrow> x);
          w' = w\<lparr>produce_answers := tl (produce_answers w), pw_now := pw_now w + int t\<rparr>
      in case a of
           Acked \<Rightarrow> (map (\<lambda>_. None) rs, w'\<lparr>kafka_log := kafka_log w @ rs\<rparr>)
         | LostAck m \<Rightarrow> (map (\<lambda>_. Some (ErrNew m)) rs, w'\<lparr>kafka_log := kafka_log w @ rs\<rparr>)
         | Refused m \<Rightarrow> (map (\<lambda>_. Some (ErrNew m)) rs, w'))"

definition cluster :: "'s publisher_world_scheme kafkaProducer" where
  "cluster = \<lparr>ProduceSync = cluster_produce\<rparr>"

definition wall_clock :: "'s publisher_world_scheme clock" where
  "wall_clock = \<lparr>ck_now = pw_now, ck_set = (\<lambda>t w. w\<lparr>pw_now := t\<rparr>), ck_stop = pw_stop\<rparr>"

section \<open>The outbox when no other publisher runs\<close>

definition payload_of :: "database \<Rightarrow> string \<rightharpoonup> string" where
  "payload_of db = map_of (map (\<lambda>r. (ob_event_id r, ob_payload r)) (outbox_events db))"

definition published_events :: "database \<Rightarrow> string set" where
  "published_events db = ob_event_id ` {r \<in> set (outbox_events db). ob_status r = OutboxPublished}"

fun publishes :: "txn \<Rightarrow> bool" where
  "publishes (PublishTx ev) = True"
| "publishes _ = False"

text \<open>The other clients may do anything but mark rows.\<close>

definition sole_publisher :: "'s session_scheme \<Rightarrow> bool" where
  "sole_publisher w \<longleftrightarrow> (\<forall>s \<in> set (pg_slots w). \<forall>x \<in> set (sl_others s). \<not> publishes x)"

definition outbox_same :: "database \<Rightarrow> database \<Rightarrow> bool" where
  "outbox_same db db' \<longleftrightarrow>
     payload_of db \<subseteq>\<^sub>m payload_of db' \<and> published_events db' = published_events db"

lemma outbox_same_refl [simp]: "outbox_same db db"
  by (simp add: outbox_same_def)

lemma outbox_same_trans: "outbox_same a b \<Longrightarrow> outbox_same b c \<Longrightarrow> outbox_same a c"
  unfolding outbox_same_def by (auto intro: map_le_trans)

lemma outbox_same_eqI: "outbox_events db' = outbox_events db \<Longrightarrow> outbox_same db db'"
  by (simp add: outbox_same_def payload_of_def published_events_def)

lemma update_completion_outbox [simp]:
  "outbox_events (snd (update_completion ev c st f db)) = outbox_events db"
  by (simp add: update_completion_def split: option.splits)

lemma run_txn_outbox_same:
  assumes "\<not> publishes x" shows "outbox_same db (run_txn t x db)"
proof (cases x)
  case (AcceptTx i ev ty p)
  then show ?thesis
    by (auto simp: outbox_same_def payload_of_def published_events_def map_le_def dom_def
        map_add_Some_iff split: option.splits)
qed (use assms in \<open>auto intro!: outbox_same_eqI simp: sql_insert_completion_def
    sql_retry_completion_def sql_reclaim_completion_def sql_mark_processed_def sql_mark_failed_def
    snd_rows_of snd_returning_attempts\<close>)

lemma run_txns_outbox_same:
  "\<forall>x \<in> set xs. \<not> publishes x \<Longrightarrow> outbox_same db (run_txns t xs db)"
proof (induction xs arbitrary: db)
  case (Cons x xs)
  then show ?case using outbox_same_trans[OF run_txn_outbox_same[of x db t]] by simp
qed simp

lemma sole_call:
  assumes "pg_call t texts f w = (r, w')" "sole_publisher w"
  shows "sole_publisher w' \<and> (\<exists>db. outbox_same (pg_db w) db \<and>
    (pg_db w' = db \<or> pg_db w' = snd (f db)) \<and> (\<forall>x. r = Inr x \<longrightarrow> f db = (Inr x, pg_db w')))"
proof -
  define db where "db = run_txns t (sl_others (head_slot (pg_slots w))) (pg_db w)"
  have "outbox_same (pg_db w) db"
    using assms(2) unfolding db_def
    by (cases "pg_slots w") (auto intro!: run_txns_outbox_same simp: sole_publisher_def quiet_def)
  moreover have "pg_slots w' = tl (pg_slots w)" "pg_db w' = db \<or> pg_db w' = snd (f db)"
    "\<forall>x. r = Inr x \<longrightarrow> f db = (Inr x, pg_db w')"
    using assms(1) unfolding pg_call_def Let_def db_def[symmetric]
    by (auto simp: after_fault_def prod_eq_iff split: fault.splits if_splits)
  moreover from this(1) have "sole_publisher w'"
    using assms(2) by (cases "pg_slots w") (auto simp: sole_publisher_def)
  ultimately show ?thesis by blast
qed

lemma mark_outbox_map:
  "\<exists>g. outbox_events (snd (sql_mark_outbox OutboxPublished ev OutboxPending db)) =
     map g (outbox_events db) \<and>
   (\<forall>r. ob_event_id (g r) = ob_event_id r \<and> ob_payload (g r) = ob_payload r \<and>
      (ob_status (g r) = OutboxPublished \<longleftrightarrow>
         ob_status r = OutboxPublished \<or> ob_status r = OutboxPending \<and> ob_event_id r = ev))"
proof -
  define g :: "outbox_row \<Rightarrow> outbox_row" where "g r = (if ob_event_id r = ev \<and> ob_status r = OutboxPending
     then r\<lparr>ob_status := OutboxPublished, ob_published_at := Some (db_now db)\<rparr> else r)" for r
  have "outbox_events (snd (sql_mark_outbox OutboxPublished ev OutboxPending db)) =
      map g (outbox_events db)"
    by (simp add: sql_mark_outbox_def g_def)
  moreover have "ob_event_id (g r) = ob_event_id r \<and> ob_payload (g r) = ob_payload r \<and>
      (ob_status (g r) = OutboxPublished \<longleftrightarrow>
         ob_status r = OutboxPublished \<or> ob_status r = OutboxPending \<and> ob_event_id r = ev)" for r
    by (cases "ob_event_id r = ev \<and> ob_status r = OutboxPending") (auto simp: g_def)
  ultimately show ?thesis by blast
qed

lemma mark_outbox_same:
  fixes db ev
  defines "db' \<equiv> snd (sql_mark_outbox OutboxPublished ev OutboxPending db)"
  shows "payload_of db' = payload_of db \<and> published_events db \<subseteq> published_events db' \<and>
    published_events db' \<subseteq> insert ev (published_events db)"
proof -
  obtain g where g: "outbox_events db' = map g (outbox_events db)"
    "\<And>r. ob_event_id (g r) = ob_event_id r" "\<And>r. ob_payload (g r) = ob_payload r"
    "\<And>r. ob_status (g r) = OutboxPublished \<longleftrightarrow>
         ob_status r = OutboxPublished \<or> ob_status r = OutboxPending \<and> ob_event_id r = ev"
    using mark_outbox_map[of ev db] unfolding db'_def by blast
  have "{r \<in> set (outbox_events db'). ob_status r = OutboxPublished} =
      g ` {r \<in> set (outbox_events db). ob_status r = OutboxPublished \<or>
            ob_status r = OutboxPending \<and> ob_event_id r = ev}"
    using g(1,4) by auto
  then have "published_events db' = ob_event_id ` {r \<in> set (outbox_events db).
      ob_status r = OutboxPublished \<or> ob_status r = OutboxPending \<and> ob_event_id r = ev}"
    by (simp add: published_events_def image_image g(2))
  with g show ?thesis by (auto simp: payload_of_def published_events_def comp_def)
qed

lemma payload_of_row:
  "db_inv db \<Longrightarrow> r \<in> set (outbox_events db) \<Longrightarrow> payload_of db (ob_event_id r) = Some (ob_payload r)"
  unfolding payload_of_def by (rule map_of_is_SomeI) (auto simp: db_inv_def comp_def)

lemma NextPendingOutbox_same:
  assumes "NextPendingOutbox w = (r, w')" "sole_publisher w"
  shows "sole_publisher w' \<and> outbox_same (pg_db w) (pg_db w')"
proof -
  obtain q where "db_Query [OutboxPending] (sql_next_outbox OutboxPending) w = (q, w')"
    using assms(1) single_call_worlds(3)[of w] by (metis prod.collapse snd_conv)
  from sole_call[OF this[unfolded db_Query_def] assms(2)] show ?thesis
    by (auto simp: sql_next_outbox_def)
qed

lemma MarkOutboxPublished_same:
  assumes "MarkOutboxPublished ev w = (r, w')" "sole_publisher w"
  shows "sole_publisher w' \<and> payload_of (pg_db w) \<subseteq>\<^sub>m payload_of (pg_db w') \<and>
    published_events (pg_db w) \<subseteq> published_events (pg_db w') \<and>
    published_events (pg_db w') \<subseteq> insert ev (published_events (pg_db w))"
proof -
  obtain q where "pg_call no_tx [OutboxPublished, ev, OutboxPending]
      (sql_mark_outbox OutboxPublished ev OutboxPending) w = (q, w')"
    using assms(1) by (auto simp: MarkOutboxPublished_def db_Exec_def split: prod.splits sum.splits)
  from sole_call[OF this assms(2)] obtain db where "sole_publisher w'" "outbox_same (pg_db w) db"
    "pg_db w' = db \<or> pg_db w' = snd (sql_mark_outbox OutboxPublished ev OutboxPending db)" by blast
  then show ?thesis using mark_outbox_same[of ev db] by (auto simp: outbox_same_def)
qed

section \<open>The instance\<close>

definition publisher_inv :: "'s session_scheme \<Rightarrow> bool" where
  "publisher_inv w \<longleftrightarrow> db_inv (pg_db w) \<and> sole_publisher w"

lemma kafka_log_more: "session.more w' = session.more w \<Longrightarrow> kafka_log w' = kafka_log w"
  by (cases w; cases w') simp

lemma publisher_world_frame [simp]:
  "kafka_log (w\<lparr>proc_logs := l\<rparr>) = kafka_log w" "kafka_log (w\<lparr>pw_now := t\<rparr>) = kafka_log w"
  "publisher_inv (w\<lparr>proc_logs := l\<rparr>) = publisher_inv w"
  "publisher_inv (w\<lparr>pw_now := t\<rparr>) = publisher_inv w"
  "pg_db (w\<lparr>pw_now := t\<rparr>) = pg_db w"
  by (cases w; simp add: publisher_inv_def sole_publisher_def)+

lemma cluster_produce_facts:
  assumes "cluster_produce rs w = (res, w')"
  shows "pg_db w' = pg_db w \<and> pg_slots w' = pg_slots w \<and> set (kafka_log w) \<subseteq> set (kafka_log w') \<and>
    (rs \<noteq> [] \<longrightarrow> FirstErr res = None \<longrightarrow> set rs \<subseteq> set (kafka_log w'))"
  using assms by (cases rs; cases w)
    (auto simp: cluster_produce_def Let_def split: prod.splits produce_answer.splits)

interpretation pub: publisher_contract pg_outbox_store publisher_inv "\<lambda>w. payload_of (pg_db w)"
  "\<lambda>w. published_events (pg_db w)" kafka_log cluster wall_clock
proof unfold_locales
  fix w w' :: "'s publisher_world_scheme" and ev :: string and r :: "OutboxRow option result"
    and b :: "bool result" and rs res row l t
  show "publisher_inv (w\<lparr>proc_logs := l\<rparr>) = publisher_inv w"
    "payload_of (pg_db (w\<lparr>proc_logs := l\<rparr>)) = payload_of (pg_db w)"
    "published_events (pg_db (w\<lparr>proc_logs := l\<rparr>)) = published_events (pg_db w)"
    "kafka_log (w\<lparr>proc_logs := l\<rparr>) = kafka_log w" by simp_all
  show "publisher_inv (ck_set wall_clock t w) = publisher_inv w"
    "payload_of (pg_db (ck_set wall_clock t w)) = payload_of (pg_db w)"
    "published_events (pg_db (ck_set wall_clock t w)) = published_events (pg_db w)"
    "kafka_log (ck_set wall_clock t w) = kafka_log w" by (simp_all add: wall_clock_def)
  show "ob_Next pg_outbox_store w = (r, w') \<Longrightarrow> publisher_inv w \<Longrightarrow> publisher_inv w' \<and>
      payload_of (pg_db w) \<subseteq>\<^sub>m payload_of (pg_db w') \<and>
      published_events (pg_db w') = published_events (pg_db w) \<and> kafka_log w' = kafka_log w"
    using NextPendingOutbox_same[of w r w'] preservesD[OF preserves_NextPendingOutbox, of w r w']
      kafka_log_more[of w w']
    by (simp add: pg_outbox_store_def publisher_inv_def outbox_same_def)
  show "ob_Mark pg_outbox_store ev w = (b, w') \<Longrightarrow> publisher_inv w \<Longrightarrow> publisher_inv w' \<and>
      payload_of (pg_db w) \<subseteq>\<^sub>m payload_of (pg_db w') \<and>
      published_events (pg_db w) \<subseteq> published_events (pg_db w') \<and>
      published_events (pg_db w') \<subseteq> insert ev (published_events (pg_db w)) \<and> kafka_log w' = kafka_log w"
    using MarkOutboxPublished_same[of ev w b w'] preservesD[OF preserves_MarkOutboxPublished, of ev w b w']
      kafka_log_more[of w w']
    by (simp add: pg_outbox_store_def publisher_inv_def)
  show "ProduceSync cluster rs w = (res, w') \<Longrightarrow> publisher_inv w \<Longrightarrow> publisher_inv w' \<and>
      payload_of (pg_db w') = payload_of (pg_db w) \<and>
      published_events (pg_db w') = published_events (pg_db w) \<and>
      set (kafka_log w) \<subseteq> set (kafka_log w') \<and> (FirstErr res = None \<longrightarrow> set rs \<subseteq> set (kafka_log w'))"
    using cluster_produce_facts[of rs w res w']
    by (cases "rs = []") (auto simp: cluster_def publisher_inv_def sole_publisher_def)
next
  fix w w' :: "'s publisher_world_scheme" and row
  assume op: "ob_Next pg_outbox_store w = (Inr (Some row), w')" "publisher_inv w"
  then have inv: "db_inv (pg_db w)" and op': "NextPendingOutbox w = (Inr (Some row), w')"
    by (simp_all add: publisher_inv_def pg_outbox_store_def)
  have inv': "db_inv (pg_db w')" using preservesD(1)[OF preserves_NextPendingOutbox op' inv] .
  from next_pending_row[OF inv op'] payload_of_row[OF inv']
  show "payload_of (pg_db w') (or_EventID row) = Some (or_Payload row)" by auto
qed

section \<open>No row is published before its record is at the broker\<close>

abbreviation pub_step ::
  "logger \<Rightarrow> string \<Rightarrow> int \<Rightarrow> 's publisher_world_scheme \<Rightarrow> 's publisher_world_scheme" where
  "pub_step log topic d \<equiv> publisher_body log pg_outbox_store cluster wall_clock topic d"

text \<open>
  C4: Start the publisher loop on a database that satisfies the invariant and has no published
  row. Whatever the database and the broker answer, and whatever the API replicas and the
  workers commit in between (anything but marking outbox rows), after every number of
  iterations each published row has its record in the log of the cluster, on the configured
  topic, keyed by the event id and carrying the payload of that row: the row is marked after the
  produce call was confirmed, never before.
\<close>

theorem published_rows_produced:
  assumes "db_inv (pg_db w)" "sole_publisher w" "published_events (pg_db w) = {}"
    and "ev \<in> published_events (pg_db ((pub_step log topic d ^^ n) w))"
  shows "\<exists>p. payload_of (pg_db ((pub_step log topic d ^^ n) w)) ev = Some p \<and>
    \<lparr>pr_Topic = topic, pr_Key = ev, pr_Value = p\<rparr> \<in> set (kafka_log ((pub_step log topic d ^^ n) w))"
proof -
  have "publisher_inv ((pub_step log topic d ^^ n) w) \<and> pub.produced topic ((pub_step log topic d ^^ n) w)"
  proof (induction n)
    case 0
    then show ?case using assms(1-3) by (simp add: publisher_inv_def pub.produced_def)
  next
    case (Suc n)
    then show ?case using pub.body_produced by auto
  qed
  with assms(4) show ?thesis unfolding pub.produced_def by blast
qed

section \<open>Concrete inputs\<close>

definition publisher_on ::
  "database \<Rightarrow> slot list \<Rightarrow> (nat \<times> produce_answer) list \<Rightarrow> int option \<Rightarrow> publisher_world" where
  "publisher_on db ss as stop = \<lparr>proc_logs = [], pg_db = db, pg_slots = ss, pw_now = 0,
     pw_stop = stop, produce_answers = as, kafka_log = []\<rparr>"

definition two_pending :: database where
  "two_pending = accepted_db ''evt_2'' ''invoice.paid'' ''[1]'' example_db"

lemma example_db_cast:
  "processed_events example_db ''evt_2'' = None" "jsonb_cast example_db p = Some p"
  by (simp_all add: example_db_def accepted_db_def empty_database_def test_cast_def)

lemma two_pending_texts: "pg_text_ok ''evt_2''" "pg_text_ok ''[1]''" "pg_text_ok ''invoice.paid''"
  by code_simp+

lemma accept_two:
  "AcceptEvent ''evt_2'' ''invoice.paid'' ''[1]'' (session_on example_db []) =
     (Inr True, session_on two_pending [])"
  by (subst AcceptEvent_alone_new[where j = "''[1]''"])
     (simp_all add: two_pending_def session_on_def two_pending_texts example_db_cast)

lemma two_pending_inv [simp]: "db_inv two_pending"
  using preservesD(1)[of "AcceptEvent ''evt_2'' ''invoice.paid'' ''[1]''"
      "session_on example_db []" "Inr True" "session_on two_pending []"]
  AcceptEvent_facts[OF accept_two] accept_two by simp

lemma publisher_on_sel [simp]:
  "pg_db (publisher_on db ss as stop) = db" "pg_slots (publisher_on db ss as stop) = ss"
  "produce_answers (publisher_on db ss as stop) = as" "pw_stop (publisher_on db ss as stop) = stop"
  "kafka_log (publisher_on db ss as stop) = []"
  by (simp_all add: publisher_on_def)

lemma two_pending_unpublished: "published_events two_pending = {}"
  by code_simp

abbreviation example_step :: "publisher_world \<Rightarrow> publisher_world" where
  "example_step \<equiv> pub_step (NewJSONLogger None) ''jobs'' 1000"

lemma example_published:
  "''evt_1'' \<in> published_events (pg_db ((example_step ^^ 1) (publisher_on two_pending [] [] None)))"
  by code_simp

theorem published_rows_produced_witness:
  "\<exists>p. payload_of (pg_db ((example_step ^^ 1) (publisher_on two_pending [] [] None))) ''evt_1'' = Some p \<and>
    \<lparr>pr_Topic = ''jobs'', pr_Key = ''evt_1'', pr_Value = p\<rparr> \<in>
      set (kafka_log ((example_step ^^ 1) (publisher_on two_pending [] [] None)))"
  by (rule published_rows_produced[OF _ _ _ example_published])
     (simp_all add: sole_publisher_def two_pending_unpublished)

end
