(* ===== verification/Publisher_Live.thy ===== *)
theory Publisher_Live
  imports Publisher_Correct "HOL-Library.Multiset"
begin

text \<open>
  The loop of the publisher as a whole: that it ends after a signal, what it publishes and in
  which order, and what it does when a produce call is not confirmed.
\<close>

section \<open>The loop ends after a signal\<close>

definition pending :: "database \<Rightarrow> outbox_row list" where
  "pending db = filter (\<lambda>r. ob_status r = OutboxPending) (outbox_events db)"

text \<open>What decreases: the calls still scheduled, then the rows to publish and the time left.\<close>

definition time_left :: "'s publisher_world_scheme \<Rightarrow> nat" where
  "time_left w = (case pw_stop w of None \<Rightarrow> 0 | Some t \<Rightarrow> nat (t - pw_now w))"

definition work_left :: "'s publisher_world_scheme \<Rightarrow> nat \<times> nat" where
  "work_left w = (length (pg_slots w), length (pending (pg_db w)) + time_left w)"

lemma mark_outbox_pending:
  "pending (snd (sql_mark_outbox OutboxPublished ev OutboxPending db)) =
     filter (\<lambda>r. ob_event_id r \<noteq> ev) (pending db)"
  "fst (sql_mark_outbox OutboxPublished ev OutboxPending db) =
     Inr (length (filter (\<lambda>r. ob_event_id r = ev) (pending db)))"
proof -
  define g :: "outbox_row \<Rightarrow> outbox_row" where "g r = (if ob_event_id r = ev \<and> ob_status r = OutboxPending
     then r\<lparr>ob_status := OutboxPublished, ob_published_at := Some (db_now db)\<rparr> else r)" for r
  have g: "ob_status (g r) = OutboxPending \<longleftrightarrow> ob_status r = OutboxPending \<and> ob_event_id r \<noteq> ev"
    "ob_status r = OutboxPending \<Longrightarrow> ob_event_id r \<noteq> ev \<Longrightarrow> g r = r" for r
    by (cases "ob_event_id r = ev \<and> ob_status r = OutboxPending"; simp add: g_def; blast)+
  have "filter (\<lambda>r. ob_status r = OutboxPending) (map g rs) =
      filter (\<lambda>r. ob_event_id r \<noteq> ev) (filter (\<lambda>r. ob_status r = OutboxPending) rs)" for rs
    by (induction rs) (simp_all add: g)
  moreover have "outbox_events (snd (sql_mark_outbox OutboxPublished ev OutboxPending db)) =
      map g (outbox_events db)"
    by (simp add: sql_mark_outbox_def g_def)
  ultimately show "pending (snd (sql_mark_outbox OutboxPublished ev OutboxPending db)) =
     filter (\<lambda>r. ob_event_id r \<noteq> ev) (pending db)" by (simp add: pending_def)
  show "fst (sql_mark_outbox OutboxPublished ev OutboxPending db) =
     Inr (length (filter (\<lambda>r. ob_event_id r = ev) (pending db)))"
    by (simp add: sql_mark_outbox_def pending_def conj_commute)
qed

lemma pg_call_slots: "pg_call t texts f w = (r, w') \<Longrightarrow> pg_slots w' = tl (pg_slots w)"
  by (auto simp: pg_call_def Let_def split: fault.splits if_splits)

lemma publisher_more:
  "session.more w' = session.more w \<Longrightarrow> pw_stop w' = pw_stop w \<and> pw_now w' = pw_now w \<and>
     produce_answers w' = produce_answers w \<and> kafka_log w' = kafka_log w"
  by (cases w; cases w') simp

lemma next_call:
  assumes "NextPendingOutbox w = (r, w')"
  shows "pg_slots w' = tl (pg_slots w) \<and> session.more w' = session.more w \<and>
    (pg_slots w = [] \<longrightarrow> pg_db w' = pg_db w)"
proof -
  obtain q where q: "pg_call no_tx [OutboxPending] (sql_next_outbox OutboxPending) w = (q, w')"
    using assms single_call_worlds(3)[of w] by (metis db_Query_def prod.collapse snd_conv)
  then show ?thesis
    using pg_call_slots[OF q] pg_call_frame[OF q]
    by (auto simp: pg_call_alone_eq sql_next_outbox_def)
qed

lemma mark_call:
  assumes "MarkOutboxPublished ev w = (r, w')"
  shows "pg_slots w' = tl (pg_slots w) \<and> session.more w' = session.more w \<and>
    (pg_slots w = [] \<longrightarrow> length (pending (pg_db w')) \<le> length (pending (pg_db w)) \<and>
       (r = Inr True \<longrightarrow> length (pending (pg_db w')) < length (pending (pg_db w))))"
proof -
  let ?f = "sql_mark_outbox OutboxPublished ev OutboxPending"
  obtain q where q: "pg_call no_tx [OutboxPublished, ev, OutboxPending] ?f w = (q, w')"
    using assms by (auto simp: MarkOutboxPublished_def db_Exec_def split: prod.splits sum.splits)
  moreover have "pg_slots w = [] \<longrightarrow> r = Inr True \<longrightarrow>
      length (filter (\<lambda>r. ob_event_id r = ev) (pending (pg_db w))) = 1 \<and>
      pg_db w' = snd (?f (pg_db w))"
    using assms
    by (auto simp: MarkOutboxPublished_def db_Exec_def pg_call_alone_eq mark_outbox_pending(2)
        split: if_splits)
  moreover have "length (filter (\<lambda>r. ob_event_id r \<noteq> ev) xs) +
      length (filter (\<lambda>r. ob_event_id r = ev) xs) = length xs" for xs :: "outbox_row list"
    by (induction xs) auto
  note sum = this[of "pending (pg_db w)"]
  ultimately show ?thesis
    using pg_call_slots[OF q] pg_call_frame[OF q] sum
    by (auto simp: pg_call_alone_eq mark_outbox_pending(1) split: if_splits)
qed

text \<open>A step ends in a sleep, or it has published a row.\<close>

definition step_reaches :: "'s publisher_world_scheme \<Rightarrow> 's publisher_world_scheme \<Rightarrow> bool" where
  "step_reaches w v \<longleftrightarrow> pw_stop v = pw_stop w \<and> pw_now w \<le> pw_now v \<and>
     length (pg_slots v) \<le> length (tl (pg_slots w)) \<and>
     (pg_slots w = [] \<longrightarrow> length (pending (pg_db v)) \<le> length (pending (pg_db w)))"

lemma publisher_log_frame [simp]:
  "pw_stop (log_at l lg m as w) = pw_stop w" "pw_now (log_at l lg m as w) = pw_now w"
  "pg_slots (log_at l lg m as w) = pg_slots w" "pg_db (log_at l lg m as w) = pg_db w"
  "kafka_log (log_at l lg m as w) = kafka_log w" "produce_answers (log_at l lg m as w) = produce_answers w"
  by (cases w; simp add: log_at_def)+

lemma produce_call:
  assumes "publishOutbox cluster topic ev p w = (r, w')"
  shows "pg_db w' = pg_db w \<and> pg_slots w' = pg_slots w \<and> pw_stop w' = pw_stop w \<and> pw_now w \<le> pw_now w'"
  using assms by (cases w)
    (auto simp: publishOutbox_def cluster_def cluster_produce_def Let_def
      split: prod.splits option.splits produce_answer.splits)

lemma step_cases:
  obtains (slept) v where "pub_step log topic d w = sleepOrDone wall_clock d v" "step_reaches w v"
  | (published) v where "pub_step log topic d w = v" "step_reaches w v"
      "pg_slots w = [] \<Longrightarrow> length (pending (pg_db v)) < length (pending (pg_db w))"
proof -
  obtain r w1 where 1: "NextPendingOutbox w = (r, w1)" by fastforce
  note k1 = next_call[OF 1] publisher_more[OF conjunct1[OF conjunct2[OF next_call[OF 1]]]]
  have s1: "step_reaches w w1" using k1 by (auto simp: step_reaches_def)
  show thesis
  proof (cases "\<exists>row. r = Inr (Some row)")
    case False
    then show thesis
      using 1 s1 slept[of "w1"] slept[of "log_Error log outboxPublishFailed
          [(''error'', LStr (Error_string (projl r)))] w1"]
      by (cases r) (auto simp: publisher_body_def pg_outbox_store_def step_reaches_def split: option.splits)
  next
    case True
    then obtain row where row: "r = Inr (Some row)" ..
    let ?ev = "or_EventID row"
    obtain q w2 where 2: "publishOutbox cluster topic ?ev (or_Payload row) w1 = (q, w2)" by fastforce
    have s2: "step_reaches w w2" "pg_slots w2 = tl (pg_slots w)"
      using s1 k1 produce_call[OF 2] by (auto simp: step_reaches_def)
    obtain b w3 where 3: "MarkOutboxPublished ?ev w2 = (b, w3)" by fastforce
    note k3 = mark_call[OF 3] publisher_more[OF conjunct1[OF conjunct2[OF mark_call[OF 3]]]]
    have s3: "step_reaches w w3" using s2 k3 by (auto simp: step_reaches_def)
    have pub: "length (pending (pg_db w3)) < length (pending (pg_db w))"
      if "b = Inr True" "pg_slots w = []"
      using that k3(1) s2 k1(1) produce_call[OF 2] by simp
    have L: "step_reaches w (log_at l lg m as v) = step_reaches w v" for l lg m as v
      by (simp add: step_reaches_def)
    show thesis
    proof (cases q)
      case (Inl e)
      then show thesis using 1 2 row s2 slept by (simp add: publisher_body_def pg_outbox_store_def L)
    next
      case (Inr x)
      show thesis
      proof (cases "b = Inr True")
        case True
        then show thesis using 1 2 3 row Inr s3 pub published
          by (simp add: publisher_body_def pg_outbox_store_def L)
      next
        case False
        then show thesis using 1 2 3 row Inr s3 slept
          by (cases b) (auto simp: publisher_body_def pg_outbox_store_def L)
      qed
    qed
  qed
qed

lemma wall_clock_sel [simp]:
  "ck_now wall_clock = pw_now" "ck_stop wall_clock = pw_stop"
  "ck_set wall_clock t w = w\<lparr>pw_now := t\<rparr>"
  by (simp_all add: wall_clock_def)

lemma pw_now_frame [simp]:
  "pg_slots (w\<lparr>pw_now := t\<rparr>) = pg_slots w" "pw_stop (w\<lparr>pw_now := t\<rparr>) = pw_stop w"
  "produce_answers (w\<lparr>pw_now := t\<rparr>) = produce_answers w"
  by (cases w; simp)+

lemma step_work_left:
  assumes "0 < d" "pw_stop w = Some t" "pw_now w < t"
  shows "(work_left (pub_step log topic d w), work_left w) \<in> less_than <*lex*> less_than \<and>
    pw_stop (pub_step log topic d w) = Some t"
proof (cases rule: step_cases[of log topic d w])
  case (slept v)
  let ?u = "sleepOrDone wall_clock d v"
  have u: "pg_slots ?u = pg_slots v" "pg_db ?u = pg_db v" "pw_stop ?u = Some t" "time_left ?u < time_left w"
    using slept(2) assms by (auto simp: sleepOrDone_def Let_def step_reaches_def time_left_def)
  then show ?thesis
    using slept assms(2) by (cases "pg_slots w") (auto simp: work_left_def step_reaches_def)
next
  case (published v)
  then show ?thesis
    using assms by (cases "pg_slots w") (auto simp: work_left_def step_reaches_def time_left_def)
qed

text \<open>
  C16: The publisher loop ends once a signal has come: with a positive poll interval and a stop
  time set, publisher_loop returns a world, and the context is done there, for every
  schedule of database faults and of other clients and every duration of the produce calls. An
  iteration that does not sleep has published one of finitely many rows, and one that sleeps
  moves the clock.
\<close>

theorem publisher_stops:
  assumes "0 < d" "pw_stop w = Some t"
  shows "\<exists>w'. publisher_loop log pg_outbox_store cluster wall_clock topic d w = Some w' \<and>
    ctx_done wall_clock w'"
proof -
  let ?r = "inv_image (less_than <*lex*> less_than) work_left"
  have "\<exists>w'. publisher_loop log pg_outbox_store cluster wall_clock topic d w = Some w'"
    unfolding publisher_loop_def
  proof (rule wf_rel_while_option_Some[where R = ?r and P = "\<lambda>w. pw_stop w = Some t"])
    show "wf ?r" by auto
    fix v assume "pw_stop v = Some t \<and> \<not> ctx_done wall_clock v"
    then have "pw_stop v = Some t" "pw_now v < t" by (auto simp: ctx_done_def)
    from step_work_left[OF assms(1) this]
    show "(pub_step log topic d v, v) \<in> ?r" "pw_stop (pub_step log topic d v) = Some t" by simp_all
  qed (rule assms(2))
  then show ?thesis
    using while_option_stop unfolding publisher_loop_def by metis
qed

theorem publisher_stops_witness:
  "\<exists>w'. publisher_loop (NewJSONLogger None) pg_outbox_store cluster wall_clock ''jobs'' 1000
     (publisher_on two_pending [] [] (Some 5000)) = Some w' \<and> ctx_done wall_clock w'"
  by (rule publisher_stops) simp_all

section \<open>Without faults the outbox drains in order\<close>

definition row_record :: "string \<Rightarrow> outbox_row \<Rightarrow> produce_record" where
  "row_record topic r = \<lparr>pr_Topic = topic, pr_Key = ob_event_id r, pr_Value = ob_payload r\<rparr>"

definition fault_free :: "'s publisher_world_scheme \<Rightarrow> bool" where
  "fault_free w \<longleftrightarrow> pg_slots w = [] \<and> produce_answers w = [] \<and> db_inv (pg_db w) \<and>
     list_all pg_text_ok (map ob_event_id (outbox_events (pg_db w)))"

lemma pending_distinct:
  "db_inv db \<Longrightarrow> distinct (map ob_id (pending db)) \<and> distinct (map ob_event_id (pending db))"
  by (simp add: db_inv_def pending_def distinct_map_filter)

lemma filter_key_remove1:
  "distinct (map k xs) \<Longrightarrow> x \<in> set xs \<Longrightarrow> filter (\<lambda>y. k y \<noteq> k x) xs = remove1 x xs"
proof (induction xs)
  case (Cons a xs)
  show ?case
  proof (cases "a = x")
    case True
    then have "\<forall>y \<in> set xs. k y \<noteq> k x" using Cons.prems(1) by (auto simp: image_iff)
    then have "filter (\<lambda>y. k y \<noteq> k x) xs = xs" by (rule filter_True)
    then show ?thesis using True by simp
  next
    case False
    then have "k a \<noteq> k x" using Cons.prems by force
    then show ?thesis using Cons False by simp
  qed
qed simp

lemma pending_event_unique:
  assumes "db_inv db" "m \<in> set (pending db)"
  shows "filter (\<lambda>r. ob_event_id r = ob_event_id m) (pending db) = [m]"
    "filter (\<lambda>r. ob_event_id r \<noteq> ob_event_id m) (pending db) = remove1 m (pending db)"
proof -
  have d: "distinct (map ob_event_id (pending db))" using pending_distinct[OF assms(1)] by simp
  show "filter (\<lambda>r. ob_event_id r = ob_event_id m) (pending db) = [m]"
    using filter_eq_singleton_iff_distinct[OF d assms(2)] .
  show "filter (\<lambda>r. ob_event_id r \<noteq> ob_event_id m) (pending db) = remove1 m (pending db)"
    using filter_key_remove1[OF d assms(2)] .
qed

lemma mark_outbox_event_ids:
  "map ob_event_id (outbox_events (snd (sql_mark_outbox OutboxPublished ev OutboxPending db))) =
     map ob_event_id (outbox_events db)"
  using mark_outbox_map[of ev db] by (auto simp: comp_def)

lemma publish_step_alone:
  assumes ff: "fault_free w" and m: "least_id (pending (pg_db w)) = Some m"
  shows "fault_free (pub_step log topic d w) \<and>
    pending (pg_db (pub_step log topic d w)) = remove1 m (pending (pg_db w)) \<and>
    kafka_log (pub_step log topic d w) = kafka_log w @ [row_record topic m] \<and>
    consumer_completions (pg_db (pub_step log topic d w)) = consumer_completions (pg_db w)"
proof -
  let ?db = "snd (sql_mark_outbox OutboxPublished (ob_event_id m) OutboxPending (pg_db w))"
  have a: "pg_slots w = []" "produce_answers w = []" "db_inv (pg_db w)" using ff by (simp_all add: fault_free_def)
  have mp: "m \<in> set (pending (pg_db w))" using least_id_Some[OF m] by simp
  then have ok: "pg_text_ok (ob_event_id m)" using ff by (auto simp: fault_free_def pending_def list_all_iff)
  note u = pending_event_unique[OF a(3) mp]
  have next_row: "NextPendingOutbox w = (Inr (Some \<lparr>or_EventID = ob_event_id m, or_Payload = ob_payload m\<rparr>), w)"
    using a(1) m by (simp add: NextPendingOutbox_def alone_defs sql_next_outbox_def pending_def)
  define w1 where "w1 = w\<lparr>kafka_log := kafka_log w @ [row_record topic m]\<rparr>"
  have w1: "pg_db w1 = pg_db w" "pg_slots w1 = []" "produce_answers w1 = []"
    "kafka_log w1 = kafka_log w @ [row_record topic m]" "w\<lparr>produce_answers := [], pw_now := pw_now w\<rparr> = w"
    using a by (cases w; simp add: w1_def)+
  have prod: "publishOutbox cluster topic (ob_event_id m) (ob_payload m) w = (Inr (row_record topic m), w1)"
    using a(2) w1(5) by (cases w) (simp add: publishOutbox_def cluster_def cluster_produce_def row_record_def w1_def Let_def)
  have mark: "MarkOutboxPublished (ob_event_id m) w1 = (Inr True, w1\<lparr>pg_db := ?db\<rparr>)"
    using ok w1(1,2) by (simp add: MarkOutboxPublished_def alone_defs mark_outbox_pending(2) u(1))
  have "db_inv ?db" using steady_mark_outbox[THEN steadyD(1), OF a(3) tx_inv_no_tx] .
  then have "fault_free (w1\<lparr>pg_db := ?db\<rparr>)"
    using ff w1(2,3) unfolding fault_free_def mark_outbox_event_ids by (cases w1) (simp add: mark_outbox_event_ids)
  moreover have "kafka_log (w1\<lparr>pg_db := ?db\<rparr>) = kafka_log w1" by (cases w1) simp
  moreover have "consumer_completions ?db = consumer_completions (pg_db w)" by (simp add: sql_mark_outbox_def)
  ultimately show ?thesis
    using next_row prod mark w1(4) u(2)
    by (simp add: publisher_body_def pg_outbox_store_def mark_outbox_pending(1) fault_free_def)
qed

lemma sort_key_least:
  assumes "least_id rs = Some m" "distinct (map ob_id rs)"
  shows "sort_key ob_id rs = m # sort_key ob_id (remove1 m rs)"
proof -
  have m: "m \<in> set rs" "\<forall>r \<in> set rs. ob_id m \<le> ob_id r" using least_id_Some[OF assms(1)] by auto
  have d: "distinct rs" using assms(2) by (simp add: distinct_map)
  show ?thesis
  proof (rule sort_key_inj_key_eq)
    show "mset rs = mset (m # sort_key ob_id (remove1 m rs))" using m(1) by simp
    show "inj_on ob_id (set rs)" using assms(2) by (simp add: distinct_map)
    show "sorted (map ob_id (m # sort_key ob_id (remove1 m rs)))"
      using m(2) set_remove1_subset[of m rs] by auto
  qed
qed


lemma least_id_ex: "rs \<noteq> [] \<Longrightarrow> \<exists>m. least_id rs = Some m"
  by (cases rs) (auto split: option.splits)

lemma drain_steps:
  "fault_free w \<Longrightarrow> length (pending (pg_db w)) = n \<Longrightarrow>
   kafka_log ((pub_step log topic d ^^ n) w) =
     kafka_log w @ map (row_record topic) (sort_key ob_id (pending (pg_db w))) \<and>
   pending (pg_db ((pub_step log topic d ^^ n) w)) = [] \<and> fault_free ((pub_step log topic d ^^ n) w) \<and>
   consumer_completions (pg_db ((pub_step log topic d ^^ n) w)) = consumer_completions (pg_db w)"
proof (induction n arbitrary: w)
  case (Suc n)
  let ?w = "pub_step log topic d w"
  have "pending (pg_db w) \<noteq> []" using Suc.prems(2) by auto
  then obtain m where m: "least_id (pending (pg_db w)) = Some m" using least_id_ex by blast
  have d: "distinct (map ob_id (pending (pg_db w)))"
    using Suc.prems(1) pending_distinct by (simp add: fault_free_def)
  have step: "fault_free ?w" "pending (pg_db ?w) = remove1 m (pending (pg_db w))"
    "kafka_log ?w = kafka_log w @ [row_record topic m]"
    "consumer_completions (pg_db ?w) = consumer_completions (pg_db w)"
    using publish_step_alone[OF Suc.prems(1) m] by simp_all
  moreover have "length (pending (pg_db ?w)) = n"
    using step(2) Suc.prems(2) least_id_Some[OF m] by (simp add: length_remove1)
  ultimately have "kafka_log ((pub_step log topic d ^^ n) ?w) = kafka_log ?w @
      map (row_record topic) (sort_key ob_id (pending (pg_db ?w))) \<and>
      pending (pg_db ((pub_step log topic d ^^ n) ?w)) = [] \<and> fault_free ((pub_step log topic d ^^ n) ?w) \<and>
      consumer_completions (pg_db ((pub_step log topic d ^^ n) ?w)) = consumer_completions (pg_db ?w)"
    using Suc.IH by blast
  then show ?case
    using step sort_key_least[OF m d] by (simp add: funpow_swap1)
qed simp

lemma two_pending_rows:
  "ob_event_id ` set (pending two_pending) = {''evt_1'', ''evt_2''}" "length (pending two_pending) = 2"
  by code_simp+

lemma two_pending_text: "list_all pg_text_ok (map ob_event_id (outbox_events two_pending))"
  by code_simp

lemma two_pending_first: "least_id (pending two_pending) = Some
   \<lparr>ob_id = 1, ob_event_id = ''evt_1'', ob_event_type = ''invoice.paid'', ob_payload = ''{}'',
    ob_status = OutboxPending, ob_created_at = 0, ob_published_at = None\<rparr>"
  by code_simp

text \<open>
  C14: With no faults and no other client, as many iterations as there are pending rows
  publish all of them: the log of the cluster is extended by exactly their records, in the order
  of their ids, each once, and no pending row is left.
\<close>

theorem outbox_drains_in_order:
  assumes "fault_free w"
  shows "let w' = (pub_step log topic d ^^ length (pending (pg_db w))) w in
    kafka_log w' = kafka_log w @ map (row_record topic) (sort_key ob_id (pending (pg_db w))) \<and>
    pending (pg_db w') = []"
  using drain_steps[OF assms refl] by (simp add: Let_def)

theorem outbox_drains_in_order_witness:
  "let w' = (example_step ^^ 2) (publisher_on two_pending [] [] None) in
    kafka_log w' = map (row_record ''jobs'') (sort_key ob_id (pending two_pending)) \<and>
    pending (pg_db w') = []"
  using outbox_drains_in_order[of "publisher_on two_pending [] [] None" "NewJSONLogger None" "''jobs''" 1000]
  by (simp add: fault_free_def two_pending_text two_pending_rows)

section \<open>A produce call that is not confirmed\<close>

definition delivered_by :: "produce_answer \<Rightarrow> produce_record \<Rightarrow> produce_record list" where
  "delivered_by a r = (case a of LostAck _ \<Rightarrow> [r] | _ \<Rightarrow> [])"

lemma sleepOrDone_frame [simp]:
  "pg_db (sleepOrDone wall_clock d w) = pg_db w" "pg_slots (sleepOrDone wall_clock d w) = pg_slots w"
  "kafka_log (sleepOrDone wall_clock d w) = kafka_log w"
  "produce_answers (sleepOrDone wall_clock d w) = produce_answers w"
  by (auto simp: sleepOrDone_def Let_def split: option.splits)

lemma unconfirmed_step:
  assumes "pg_slots w = []" "produce_answers w = [(t, a)]" "a \<noteq> Acked"
    and m: "least_id (pending (pg_db w)) = Some m"
  shows "pg_db (pub_step log topic d w) = pg_db w \<and> pg_slots (pub_step log topic d w) = [] \<and>
    produce_answers (pub_step log topic d w) = [] \<and>
    kafka_log (pub_step log topic d w) = kafka_log w @ delivered_by a (row_record topic m)"
proof -
  have next_row: "NextPendingOutbox w = (Inr (Some \<lparr>or_EventID = ob_event_id m, or_Payload = ob_payload m\<rparr>), w)"
    using assms(1) m by (simp add: NextPendingOutbox_def alone_defs sql_next_outbox_def pending_def)
  obtain e w1 where "publishOutbox cluster topic (ob_event_id m) (ob_payload m) w = (Inl e, w1)"
    "pg_db w1 = pg_db w" "pg_slots w1 = []" "produce_answers w1 = []"
    "kafka_log w1 = kafka_log w @ delivered_by a (row_record topic m)"
    using assms(1-3)
    by (cases w; cases a) (auto simp: publishOutbox_def cluster_def cluster_produce_def Let_def
      delivered_by_def row_record_def)
  with next_row show ?thesis by (simp add: publisher_body_def pg_outbox_store_def)
qed

text \<open>
  C33: A produce call that is not confirmed leaves the database as it was, so the same row is
  published again by the next iteration and the rows behind it wait. When the broker had
  stored the record and only the confirmation was lost, the record is in the log twice:
  publishing is at least once.
\<close>

theorem unconfirmed_row_stays_first:
  assumes "pg_slots w = []" "produce_answers w = [(t, a)]" "a \<noteq> Acked" "db_inv (pg_db w)"
    and "list_all pg_text_ok (map ob_event_id (outbox_events (pg_db w)))"
    and "least_id (pending (pg_db w)) = Some m"
  shows "let w' = pub_step log topic d w; w'' = pub_step log topic d w' in
    pg_db w' = pg_db w \<and> kafka_log w' = kafka_log w @ delivered_by a (row_record topic m) \<and>
    kafka_log w'' = kafka_log w' @ [row_record topic m] \<and>
    pending (pg_db w'') = remove1 m (pending (pg_db w))"
proof -
  let ?w = "pub_step log topic d w"
  have step: "pg_db ?w = pg_db w" "pg_slots ?w = []" "produce_answers ?w = []"
    "kafka_log ?w = kafka_log w @ delivered_by a (row_record topic m)"
    using unconfirmed_step[OF assms(1-3,6)] by blast+
  then have "fault_free ?w" using assms(4,5) by (simp add: fault_free_def)
  from publish_step_alone[OF this] assms(6) step show ?thesis by (simp add: Let_def)
qed

theorem unconfirmed_row_stays_first_witness:
  "let w = publisher_on two_pending [] [(7, LostAck ''timeout'')] None;
       r = \<lparr>pr_Topic = ''jobs'', pr_Key = ''evt_1'', pr_Value = ''{}''\<rparr>
   in kafka_log (example_step (example_step w)) = [r, r]"
  using unconfirmed_row_stays_first[of "publisher_on two_pending [] [(7, LostAck ''timeout'')] None"
      7 "LostAck ''timeout''" _ "NewJSONLogger None" "''jobs''" 1000]
  by (simp add: two_pending_text two_pending_first Let_def delivered_by_def row_record_def)

end
