(* ===== verification/Http.thy ===== *)
theory Http
  imports Session Url "HOL-Library.List_Lexorder" "HOL-Library.Char_ord"
begin

text \<open>
  What the API uses of net/http: requests, the response writer of the server, \<open>http.Error\<close>,
  \<open>http.MaxBytesReader\<close> under \<open>io.ReadAll\<close>, and the routing of \<open>http.ServeMux\<close> for patterns
  with a method and a literal path.
\<close>

section \<open>Requests\<close>

text \<open>
  The context of a request holds two values of the program: the request id and the logger,
  which may be a nil pointer (the inner None).
\<close>

record req_context =
  cv_RequestID :: "string option"
  cv_Logger :: "logger option option"

definition context_Background :: req_context where
  "context_Background = \<lparr>cv_RequestID = None, cv_Logger = None\<rparr>"

text \<open>
  The path is kept decoded (\<open>URL.Path\<close>) and as sent (\<open>URL.EscapedPath()\<close>); the body is what can
  be read of it and the error reading ends with, if it is not the end of the body.
\<close>

record request =
  rq_Method :: string
  rq_Path :: string
  rq_EscapedPath :: string
  rq_RemoteAddr :: string
  rq_Header :: "(string \<times> string) list"
  rq_Body :: "string \<times> go_error option"
  rq_Context :: req_context

text \<open>\<open>textproto.CanonicalMIMEHeaderKey\<close>, under which headers are stored and looked up.\<close>

definition token_char :: "char \<Rightarrow> bool" where
  "token_char c \<longleftrightarrow> ascii_letter c \<or> ascii_digit c \<or> c \<in> set ''!#$%&*+-.^_`|~'' \<or> byte c = 39"

definition to_upper :: "char \<Rightarrow> char" where
  "to_upper c = (if 97 \<le> byte c \<and> byte c \<le> 122 then char_of (byte c - 32) else c)"

fun canonical_from :: "bool \<Rightarrow> string \<Rightarrow> string" where
  "canonical_from up [] = []"
| "canonical_from up (c # s) =
     (if up then to_upper c else to_lower c) # canonical_from (c = CHR ''-'') s"

definition canonical_key :: "string \<Rightarrow> string" where
  "canonical_key k = (if list_all token_char k then canonical_from True k else k)"

definition Header_Get :: "(string \<times> string) list \<Rightarrow> string \<Rightarrow> string" where
  "Header_Get h k = (case map_of h (canonical_key k) of None \<Rightarrow> [] | Some v \<Rightarrow> v)"

text \<open>
  \<open>io.ReadAll\<close> of a body behind \<open>http.MaxBytesReader\<close>: more than \<open>limit\<close> bytes are an error of
  their own, whatever comes after them.
\<close>

definition ReadAll_MaxBytes :: "nat \<Rightarrow> string \<times> go_error option \<Rightarrow> string result" where
  "ReadAll_MaxBytes limit body =
     (case body of (data, end) \<Rightarrow>
        if limit < length data then Inl ErrMaxBytes
        else (case end of Some e \<Rightarrow> Inl e | None \<Rightarrow> Inr data))"

section \<open>Responses\<close>

text \<open>
  The interface \<open>http.ResponseWriter\<close> as a record of operations.  \<open>Write\<close> answers how many
  bytes it took and an error or none.
\<close>

record 'w response_writer =
  rw_Header_Set :: "string \<Rightarrow> string \<Rightarrow> 'w \<Rightarrow> 'w"
  rw_Header_Del :: "string \<Rightarrow> 'w \<Rightarrow> 'w"
  rw_WriteHeader :: "int \<Rightarrow> 'w \<Rightarrow> 'w"
  rw_Write :: "string \<Rightarrow> 'w \<Rightarrow> (nat \<times> go_error option) \<times> 'w"

text \<open>
  The server's own writer.  The header can be changed until the status line is sent, which
  the first \<open>WriteHeader\<close> does; later ones are ignored.  \<open>write_answers\<close> is what the connection
  does with each write: None takes it, an error comes after some bytes.
\<close>

record http_world = session +
  resp_Header :: "(string \<times> string) list"
  resp_sent :: "(int \<times> (string \<times> string) list) option"
  resp_body :: string
  write_answers :: "(nat \<times> go_error) option list"

definition header_del :: "string \<Rightarrow> (string \<times> string) list \<Rightarrow> (string \<times> string) list" where
  "header_del k h = filter (\<lambda>kv. fst kv \<noteq> canonical_key k) h"

definition header_set :: "string \<Rightarrow> string \<Rightarrow> (string \<times> string) list \<Rightarrow> (string \<times> string) list" where
  "header_set k v h = (canonical_key k, v) # header_del k h"

definition server_WriteHeader :: "int \<Rightarrow> 's http_world_scheme \<Rightarrow> 's http_world_scheme" where
  "server_WriteHeader code w =
     (case resp_sent w of
        Some _ \<Rightarrow> w
      | None \<Rightarrow> w\<lparr>resp_sent := Some (code, resp_Header w)\<rparr>)"

definition body_allowed :: "int \<Rightarrow> bool" where
  "body_allowed code \<longleftrightarrow> 200 \<le> code \<and> code \<noteq> 204 \<and> code \<noteq> 304"

definition server_Write ::
  "string \<Rightarrow> string \<Rightarrow> 's http_world_scheme \<Rightarrow> (nat \<times> go_error option) \<times> 's http_world_scheme" where
  "server_Write method b w =
     (let w1 = server_WriteHeader 200 w
      in if b = [] then ((0, None), w1)
         else if \<not> body_allowed (fst (the (resp_sent w1))) then
           ((0, Some (ErrNew ''http: request method or response status code does not allow body'')), w1)
         else if method = ''HEAD'' then ((length b, None), w1)
         else (case write_answers w1 of
                 Some (n, e) # as \<Rightarrow>
                   ((min n (length b), Some e),
                    w1\<lparr>write_answers := as, resp_body := resp_body w1 @ take n b\<rparr>)
               | as \<Rightarrow>
                   ((length b, None),
                    w1\<lparr>write_answers := tl as, resp_body := resp_body w1 @ b\<rparr>)))"

definition server_writer :: "string \<Rightarrow> 's http_world_scheme response_writer" where
  "server_writer method =
     \<lparr>rw_Header_Set = (\<lambda>k v w. w\<lparr>resp_Header := header_set k v (resp_Header w)\<rparr>),
      rw_Header_Del = (\<lambda>k w. w\<lparr>resp_Header := header_del k (resp_Header w)\<rparr>),
      rw_WriteHeader = server_WriteHeader,
      rw_Write = server_Write method\<rparr>"

fun StatusText :: "int \<Rightarrow> string" where
  "StatusText code =
     (if code = 400 then ''Bad Request''
      else if code = 404 then ''Not Found''
      else if code = 405 then ''Method Not Allowed''
      else if code = 413 then ''Request Entity Too Large''
      else if code = 500 then ''Internal Server Error''
      else if code = 503 then ''Service Unavailable''
      else [])"

declare StatusText.simps [simp del]

definition newline :: char where "newline = char_of (10::nat)"

definition http_Error :: "'w response_writer \<Rightarrow> string \<Rightarrow> int \<Rightarrow> 'w \<Rightarrow> 'w" where
  "http_Error rw msg code w =
     snd (rw_Write rw (msg @ [newline])
       (rw_WriteHeader rw code
         (rw_Header_Set rw ''X-Content-Type-Options'' ''nosniff''
           (rw_Header_Set rw ''Content-Type'' ''text/plain; charset=utf-8''
             (rw_Header_Del rw ''Content-Length'' w)))))"

section \<open>Handlers\<close>

text \<open>
  A handler returns, or panics with a value; of a panic the text of the value and the stack
  (\<open>debug.Stack()\<close> where it is recovered) are kept.
\<close>

datatype outcome = Returned | Panicked string string

type_synonym 'w handler = "'w response_writer \<Rightarrow> request \<Rightarrow> 'w \<Rightarrow> outcome \<times> 'w"

section \<open>ServeMux\<close>

record 'w mux_entry =
  mx_Method :: string
  mx_Path :: string
  mx_Handler :: "'w handler"

text \<open>\<open>cleanPath\<close>: dot segments and empty segments resolved, a trailing slash kept.\<close>

fun clean_segments :: "string list \<Rightarrow> string list \<Rightarrow> string list" where
  "clean_segments out [] = rev out"
| "clean_segments out (s # ss) =
     (if s = [] \<or> s = ''.'' then clean_segments out ss
      else if s = ''..'' then clean_segments (tl out) ss
      else clean_segments (s # out) ss)"

definition cleanPath :: "string \<Rightarrow> string" where
  "cleanPath p =
     (if p = [] then ''/''
      else let np = CHR ''/'' # Join (clean_segments [] (Split p CHR ''/'')) CHR ''/''
           in if last p = CHR ''/'' \<and> np \<noteq> ''/'' then np @ ''/'' else np)"

definition path_segments :: "string \<Rightarrow> string list" where
  "path_segments p =
     map (\<lambda>s. case unescape encodePath s of Inl _ \<Rightarrow> s | Inr t \<Rightarrow> t) (Split p CHR ''/'')"

definition path_matches :: "string \<Rightarrow> 'w mux_entry \<Rightarrow> bool" where
  "path_matches p e \<longleftrightarrow> path_segments p = Split (mx_Path e) CHR ''/''"

definition method_matches :: "string \<Rightarrow> 'w mux_entry \<Rightarrow> bool" where
  "method_matches m e \<longleftrightarrow> m = mx_Method e \<or> m = ''HEAD'' \<and> mx_Method e = ''GET''"

text \<open>\<open>matchingMethods\<close>, as the text of the \<open>Allow\<close> header.\<close>

fun comma_list :: "string list \<Rightarrow> string" where
  "comma_list [] = []"
| "comma_list [s] = s"
| "comma_list (s # ss) = s @ '', '' @ comma_list ss"

definition allowed_methods :: "string \<Rightarrow> 'w mux_entry list \<Rightarrow> string list" where
  "allowed_methods p es =
     sort (remdups (concat (map (\<lambda>e. if mx_Method e = ''GET'' then [''GET'', ''HEAD''] else [mx_Method e])
       (filter (path_matches p) es))))"

text \<open>
  \<open>ServeHTTP\<close> of the mux.  A path that is not clean is answered by a redirect, whose handler is
  a parameter: it gets the clean path.
\<close>

definition mux_ServeHTTP :: "(string \<Rightarrow> 'w handler) \<Rightarrow> 'w mux_entry list \<Rightarrow> 'w handler" where
  "mux_ServeHTTP redirect es rw r w =
     (if rq_EscapedPath r = ''*'' then
        (Returned, rw_WriteHeader rw 400 (rw_Header_Set rw ''Connection'' ''close'' w))
      else
        let path = (if rq_Method r = ''CONNECT'' then rq_EscapedPath r else cleanPath (rq_EscapedPath r))
        in if path \<noteq> rq_EscapedPath r then redirect path rw r w
           else case filter (\<lambda>e. path_matches path e \<and> method_matches (rq_Method r) e) es of
             e # _ \<Rightarrow> mx_Handler e rw r w
           | [] \<Rightarrow>
               if allowed_methods path es = [] then
                 (Returned, http_Error rw ''404 page not found'' 404 w)
               else
                 (Returned, http_Error rw (StatusText 405) 405
                    (rw_Header_Set rw ''Allow'' (comma_list (allowed_methods path es)) w)))"

end
