(* ===== verification/Api.thy ===== *)
theory Api
  imports Http Store Engine Config
begin

text \<open>
  cmd/api: the HTTP server that takes Stripe webhooks.  Handlers, the request log and the panic
  recovery are functions on a world, composed as \<open>main\<close> composes them.
\<close>

section \<open>logmsg.go\<close>

definition msgRequestStarted :: string where
  [status_simps]: "msgRequestStarted = ''request_started''"
definition msgRequestCompleted :: string where
  [status_simps]: "msgRequestCompleted = ''request_completed''"
definition msgStripeEventAccepted :: string where
  [status_simps]: "msgStripeEventAccepted = ''stripe_event_accepted''"
definition msgStripeEventVerifyFailed :: string where
  [status_simps]: "msgStripeEventVerifyFailed = ''stripe_event_verify_failed''"
definition msgStripeBodyTooLarge :: string where
  [status_simps]: "msgStripeBodyTooLarge = ''stripe_body_too_large''"
definition msgProbeEncodeError :: string where
  [status_simps]: "msgProbeEncodeError = ''probe_encode_error''"
definition msgPanic :: string where
  [status_simps]: "msgPanic = ''panic''"
definition msgConfigLoadFailed :: string where
  [status_simps]: "msgConfigLoadFailed = ''config_load_failed''"
definition msgStoreInitFailed :: string where
  [status_simps]: "msgStoreInitFailed = ''store_init_failed''"
definition msgServerListening :: string where
  [status_simps]: "msgServerListening = ''server_listening''"
definition msgServerListenError :: string where
  [status_simps]: "msgServerListenError = ''server_listen_error''"
definition msgShuttingDown :: string where
  [status_simps]: "msgShuttingDown = ''shutting_down''"
definition msgServerShutdownError :: string where
  [status_simps]: "msgServerShutdownError = ''server_shutdown_error''"
definition msgReadyzDBCheckFailed :: string where
  [status_simps]: "msgReadyzDBCheckFailed = ''readyz_db_check_failed''"
definition msgStripeEventDuplicateSkipped :: string where
  [status_simps]: "msgStripeEventDuplicateSkipped = ''stripe_event_duplicate_skipped''"
definition msgStripeEventAlreadyProcessing :: string where
  [status_simps]: "msgStripeEventAlreadyProcessing = ''stripe_event_already_processing''"
definition msgStripeEventProcessFailed :: string where
  [status_simps]: "msgStripeEventProcessFailed = ''stripe_event_process_failed''"

section \<open>app.go\<close>

text \<open>The interface \<open>store.Store\<close>.\<close>

record 'w store_ops =
  so_ProcessEvent :: "string \<Rightarrow> string \<Rightarrow> ('w \<Rightarrow> go_error option \<times> 'w) option \<Rightarrow> ('w, bool) io"
  so_AcceptEvent :: "string \<Rightarrow> string \<Rightarrow> string \<Rightarrow> ('w, bool) io"
  so_Status :: "string \<Rightarrow> ('w, EventStatus) io"
  so_OutboxStatus :: "string \<Rightarrow> ('w, OutboxStatus) io"
  so_NextPendingOutbox :: "('w, OutboxRow option) io"
  so_MarkOutboxPublished :: "string \<Rightarrow> ('w, bool) io"
  so_ClaimConsumerCompletion :: "string \<Rightarrow> string \<Rightarrow> string \<Rightarrow> ('w, CompletionClaim) io"
  so_MarkConsumerProcessed :: "string \<Rightarrow> string \<Rightarrow> ('w, bool) io"
  so_MarkConsumerFailed :: "string \<Rightarrow> string \<Rightarrow> string \<Rightarrow> ('w, bool) io"
  so_CompletionStatus :: "string \<Rightarrow> string \<Rightarrow> ('w, CompletionStatus) io"
  so_Ping :: "('w, unit) io"

definition pg_store :: "'s session_scheme store_ops" where
  "pg_store =
     \<lparr>so_ProcessEvent = ProcessEvent, so_AcceptEvent = AcceptEvent, so_Status = Status,
      so_OutboxStatus = OutboxStatus_of, so_NextPendingOutbox = NextPendingOutbox,
      so_MarkOutboxPublished = MarkOutboxPublished,
      so_ClaimConsumerCompletion = ClaimConsumerCompletion,
      so_MarkConsumerProcessed = MarkConsumerProcessed, so_MarkConsumerFailed = MarkConsumerFailed,
      so_CompletionStatus = CompletionStatus_of, so_Ping = Ping\<rparr>"

record 'w App =
  app_cfg :: Config
  app_logger :: logger
  app_store :: "'w store_ops"

definition NewApp :: "Config \<Rightarrow> logger \<Rightarrow> 'w store_ops \<Rightarrow> 'w App" where
  "NewApp cfg logger st = \<lparr>app_cfg = cfg, app_logger = logger, app_store = st\<rparr>"

section \<open>The world of a request\<close>

record responseRecorder =
  rr_status :: int
  rr_bytes :: int
  rr_wroteHeader :: bool

text \<open>
  \<open>recorder\<close> is the recorder of the request that runs; \<open>uuid_source\<close> and \<open>clock\<close> are what
  the library and the clock (in nanoseconds) answer the first, second, .. time they are asked.
\<close>

record api_world = http_world +
  recorder :: responseRecorder
  uuid_source :: "nat \<Rightarrow> string"
  uuid_drawn :: nat
  clock :: "nat \<Rightarrow> int"
  clock_read :: nat

definition uuid_NewString :: "'s api_world_scheme \<Rightarrow> string \<times> 's api_world_scheme" where
  "uuid_NewString w = (uuid_source w (uuid_drawn w), w\<lparr>uuid_drawn := Suc (uuid_drawn w)\<rparr>)"

definition time_Now :: "'s api_world_scheme \<Rightarrow> int \<times> 's api_world_scheme" where
  "time_Now w = (clock w (clock_read w), w\<lparr>clock_read := Suc (clock_read w)\<rparr>)"

section \<open>logging.go\<close>

definition maxRequestIDLength :: nat where "maxRequestIDLength = 128"

definition resolveRequestID :: "request \<Rightarrow> 's api_world_scheme \<Rightarrow> string \<times> 's api_world_scheme" where
  "resolveRequestID r w =
     (let i = TrimSpace (Header_Get (rq_Header r) ''X-Request-ID'')
      in if i \<noteq> [] \<and> length i \<le> maxRequestIDLength then (i, w) else uuid_NewString w)"

definition withRequestContext :: "req_context \<Rightarrow> string \<Rightarrow> logger \<Rightarrow> req_context" where
  "withRequestContext ctx requestID logger =
     ctx\<lparr>cv_RequestID := Some requestID, cv_Logger := Some (Some logger)\<rparr>"

definition requestIDFromContext :: "req_context \<Rightarrow> string" where
  "requestIDFromContext ctx = (case cv_RequestID ctx of None \<Rightarrow> [] | Some i \<Rightarrow> i)"

definition loggerFromContext :: "req_context \<Rightarrow> logger \<Rightarrow> logger" where
  "loggerFromContext ctx fallback =
     (case cv_Logger ctx of Some (Some logger) \<Rightarrow> logger | _ \<Rightarrow> fallback)"

section \<open>requestlog.go\<close>

definition isProbeRequest :: "request \<Rightarrow> bool" where
  "isProbeRequest r \<longleftrightarrow> rq_Method r = ''GET'' \<and> (rq_Path r = ''/livez'' \<or> rq_Path r = ''/readyz'')"

definition recorder_WriteHeader ::
  "'s api_world_scheme response_writer \<Rightarrow> int \<Rightarrow> 's api_world_scheme \<Rightarrow> 's api_world_scheme" where
  "recorder_WriteHeader rw code w =
     rw_WriteHeader rw code
       (w\<lparr>recorder := (recorder w)\<lparr>rr_status := code, rr_wroteHeader := True\<rparr>\<rparr>)"

definition recorder_Write ::
  "'s api_world_scheme response_writer \<Rightarrow> string \<Rightarrow> 's api_world_scheme
   \<Rightarrow> (nat \<times> go_error option) \<times> 's api_world_scheme" where
  "recorder_Write rw b w =
     (let w1 = (if \<not> rr_wroteHeader (recorder w) then recorder_WriteHeader rw 200 w else w)
      in case rw_Write rw b w1 of
           ((n, err), w2) \<Rightarrow>
             ((n, err), w2\<lparr>recorder := (recorder w2)\<lparr>rr_bytes := rr_bytes (recorder w2) + int n\<rparr>\<rparr>))"

definition recorder_writer ::
  "'s api_world_scheme response_writer \<Rightarrow> 's api_world_scheme response_writer" where
  "recorder_writer rw =
     rw\<lparr>rw_WriteHeader := recorder_WriteHeader rw, rw_Write := recorder_Write rw\<rparr>"

definition milliseconds :: "int \<Rightarrow> int" where
  "milliseconds d = (if d < 0 then - (- d div 1000000) else d div 1000000)"

definition RequestLog :: "logger \<Rightarrow> 's api_world_scheme handler \<Rightarrow> 's api_world_scheme handler" where
  "RequestLog logger next rw r w =
     (case time_Now w of (start, w1) \<Rightarrow>
      case resolveRequestID r w1 of (reqID, w2) \<Rightarrow>
        let reqLogger = logger_With logger ''request_id'' (LStr reqID);
            r' = r\<lparr>rq_Context := withRequestContext (rq_Context r) reqID reqLogger\<rparr>;
            w3 = (if \<not> isProbeRequest r' then
                    log_Info reqLogger msgRequestStarted
                      [(''method'', LStr (rq_Method r')), (''path'', LStr (rq_Path r')),
                       (''remote_addr'', LStr (rq_RemoteAddr r'))] w2
                  else w2);
            rec = \<lparr>rr_status = 200, rr_bytes = 0, rr_wroteHeader = False\<rparr>
        in case next (recorder_writer rw) r' (w3\<lparr>recorder := rec\<rparr>) of
             (Panicked v stack, w4) \<Rightarrow> (Panicked v stack, w4)
           | (Returned, w4) \<Rightarrow>
               if \<not> isProbeRequest r' then
                 (case time_Now w4 of (now, w5) \<Rightarrow>
                    (Returned, log_Info reqLogger msgRequestCompleted
                       [(''method'', LStr (rq_Method r')), (''path'', LStr (rq_Path r')),
                        (''status'', LInt (rr_status (recorder w5))),
                        (''duration_ms'', LInt (milliseconds (now - start)))] w5))
               else (Returned, w4))"

section \<open>recover.go\<close>

definition Recover :: "logger \<Rightarrow> 'a proc_scheme handler \<Rightarrow> 'a proc_scheme handler" where
  "Recover logger next rw r w =
     (case next rw r w of
        (Returned, w1) \<Rightarrow> (Returned, w1)
      | (Panicked v stack, w1) \<Rightarrow>
          (Returned, http_Error rw (StatusText 500) 500
             (log_Error logger msgPanic
                [(''error'', LStr v), (''stack'', LStr stack), (''path'', LStr (rq_Path r)),
                 (''method'', LStr (rq_Method r))] w1)))"

section \<open>handlers.go\<close>

record healthResponse =
  hr_Status :: string

text \<open>\<open>json.NewEncoder(w).Encode\<close>: the JSON text and a newline in one write.\<close>

definition Encode_health ::
  "'w response_writer \<Rightarrow> healthResponse \<Rightarrow> 'w \<Rightarrow> go_error option \<times> 'w" where
  "Encode_health rw resp w =
     (case rw_Write rw (string_of ([123] @ field_key ''status'' @
         json_quote (bytes_of (hr_Status resp)) @ [125, 10])) w of
        ((n, err), w') \<Rightarrow> (err, w'))"

definition handleLivez :: "'a proc_scheme App \<Rightarrow> 'a proc_scheme handler" where
  "handleLivez app rw r w =
     (let log = loggerFromContext (rq_Context r) (app_logger app);
          w1 = rw_Header_Set rw ''Content-Type'' ''application/json; charset=utf-8'' w;
          resp = \<lparr>hr_Status = ''ok''\<rparr>
      in case Encode_health rw resp w1 of
           (Some err, w2) \<Rightarrow>
             (Returned, log_Error log msgProbeEncodeError
                [(''probe'', LStr ''livez''), (''error'', LStr (Error_string err))] w2)
         | (None, w2) \<Rightarrow> (Returned, w2))"

definition handleReadyz :: "'a proc_scheme App \<Rightarrow> 'a proc_scheme handler" where
  "handleReadyz app rw r w =
     (let log = loggerFromContext (rq_Context r) (app_logger app);
          w1 = rw_Header_Set rw ''Content-Type'' ''application/json; charset=utf-8'' w
      in case so_Ping (app_store app) w1 of
           (Inl err, w2) \<Rightarrow>
             (Returned, http_Error rw (StatusText 503) 503
                (log_Error log msgReadyzDBCheckFailed [(''error'', LStr (Error_string err))] w2))
         | (Inr _, w2) \<Rightarrow>
             let resp = \<lparr>hr_Status = ''ok''\<rparr>
             in case Encode_health rw resp w2 of
                  (Some err, w3) \<Rightarrow>
                    (Returned, log_Error log msgProbeEncodeError
                       [(''probe'', LStr ''readyz''), (''error'', LStr (Error_string err))] w3)
                | (None, w3) \<Rightarrow> (Returned, w3))"

definition maxStripeWebhookBody :: nat where "maxStripeWebhookBody = 2 ^ 20"

text \<open>
  What the code reads of a \<open>stripe.Event\<close>: the data may be nil, and its raw text a nil slice.
  \<open>stripe.ConstructEvent\<close>, which verifies the signature, is a parameter.
\<close>

record stripe_Event =
  se_ID :: string
  se_Type :: string
  se_Data :: "string option option"

definition webhook_job :: "stripe_Event \<Rightarrow> Job" where
  "webhook_job ev =
     (let payload = (case se_Data ev of Some raw \<Rightarrow> raw | None \<Rightarrow> None);
          payload = (if payload = None \<or> payload = Some [] then Some ''null'' else payload)
      in \<lparr>StripeEventID = se_ID ev, EventType = se_Type ev, Payload = payload\<rparr>)"

definition handleStripeWebhook ::
  "(string \<Rightarrow> string \<Rightarrow> string \<Rightarrow> stripe_Event result) \<Rightarrow> 'a proc_scheme App \<Rightarrow> 'a proc_scheme handler"
where
  "handleStripeWebhook ConstructEvent app rw r w =
     (let log = loggerFromContext (rq_Context r) (app_logger app)
      in case ReadAll_MaxBytes maxStripeWebhookBody (rq_Body r) of
        Inl err \<Rightarrow>
          if errors_As_MaxBytes err then
            (Returned, http_Error rw (StatusText 413) 413
               (log_Error log msgStripeBodyTooLarge
                  [(''max_bytes'', LInt (int maxStripeWebhookBody))] w))
          else
            (Returned, http_Error rw (StatusText 400) 400
               (log_Error log msgStripeEventVerifyFailed
                  [(''reason'', LStr ''read_body''), (''error'', LStr (Error_string err))] w))
      | Inr body \<Rightarrow>
     (case ConstructEvent body (Header_Get (rq_Header r) ''Stripe-Signature'')
             (StripeWebhookSecret (app_cfg app)) of
        Inl err \<Rightarrow>
          (Returned, http_Error rw (StatusText 400) 400
             (log_Error log msgStripeEventVerifyFailed
                [(''reason'', LStr ''verify_event''), (''error'', LStr (Error_string err))] w))
      | Inr ev \<Rightarrow>
          let ids = [(''event_id'', LStr (se_ID ev)), (''event_type'', LStr (se_Type ev))];
              fail = (\<lambda>err w. (Returned, http_Error rw (StatusText 500) 500
                (log_Error log msgStripeEventProcessFailed
                   (ids @ [(''error'', LStr (Error_string err))]) w)))
          in case Marshal_Job (webhook_job ev) of
            Inl err \<Rightarrow> fail err w
          | Inr jobPayload \<Rightarrow>
         (case so_AcceptEvent (app_store app) (se_ID ev) (se_Type ev) jobPayload w of
            (Inl err, w1) \<Rightarrow> fail err w1
          | (Inr True, w1) \<Rightarrow>
              (Returned, rw_WriteHeader rw 204 (log_Info log msgStripeEventAccepted ids w1))
          | (Inr False, w1) \<Rightarrow>
         (case so_Status (app_store app) (se_ID ev) w1 of
            (Inl err, w2) \<Rightarrow> fail err w2
          | (Inr es, w2) \<Rightarrow>
              (Returned, rw_WriteHeader rw 204
                 (if es_Status es = StatusAccepted \<or> es_Status es = StatusProcessed then
                    log_Info log msgStripeEventDuplicateSkipped ids w2
                  else if es_Status es = StatusProcessing then
                    log_Info log msgStripeEventAlreadyProcessing ids w2
                  else
                    log_Info log msgStripeEventDuplicateSkipped
                      (ids @ [(''status'', LStr (es_Status es))]) w2))))))"

section \<open>routes and the handler of main\<close>

definition routes ::
  "(string \<Rightarrow> string \<Rightarrow> string \<Rightarrow> stripe_Event result) \<Rightarrow> 'a proc_scheme App
   \<Rightarrow> 'a proc_scheme mux_entry list" where
  "routes ConstructEvent app =
     [\<lparr>mx_Method = ''GET'', mx_Path = ''/livez'', mx_Handler = handleLivez app\<rparr>,
      \<lparr>mx_Method = ''GET'', mx_Path = ''/readyz'', mx_Handler = handleReadyz app\<rparr>,
      \<lparr>mx_Method = ''POST'', mx_Path = ''/webhooks/stripe'',
       mx_Handler = handleStripeWebhook ConstructEvent app\<rparr>]"

definition api_handler ::
  "(string \<Rightarrow> string \<Rightarrow> string \<Rightarrow> stripe_Event result)
   \<Rightarrow> (string \<Rightarrow> 's api_world_scheme handler) \<Rightarrow> logger
   \<Rightarrow> 's api_world_scheme App \<Rightarrow> 's api_world_scheme handler" where
  "api_handler ConstructEvent redirect logger app =
     Recover logger (RequestLog logger (mux_ServeHTTP redirect (routes ConstructEvent app)))"

text \<open>
  One request of the server: a fresh response, the handler, and the status line of an answer
  the handler left unwritten.
\<close>

definition fresh_response :: "'s http_world_scheme \<Rightarrow> 's http_world_scheme" where
  "fresh_response w = w\<lparr>resp_Header := [], resp_sent := None, resp_body := []\<rparr>"

definition serve_request ::
  "'s http_world_scheme handler \<Rightarrow> request \<Rightarrow> 's http_world_scheme \<Rightarrow> 's http_world_scheme" where
  "serve_request handler r w =
     (case handler (server_writer (rq_Method r)) r (fresh_response w) of
        (Returned, w1) \<Rightarrow> server_WriteHeader 200 w1
      | (Panicked _ _, w1) \<Rightarrow> w1)"

end
