(* ===== verification/Api_Facts.thy ===== *)
theory Api_Facts
  imports Api Store_Correct
begin

text \<open>
  What the API may rely on of its store, as a locale with its interpretation on Postgres, and
  what a handler does to the response, the log and the store.
\<close>

section \<open>Frames\<close>

abbreviation rec_rw :: "string \<Rightarrow> 's api_world_scheme response_writer" where
  "rec_rw m \<equiv> recorder_writer (server_writer m)"

text \<open>Two worlds that differ at most in the response (and its recorder).\<close>

definition same_backend :: "'s api_world_scheme \<Rightarrow> 's api_world_scheme \<Rightarrow> bool" where
  "same_backend w w' \<longleftrightarrow> pg_db w' = pg_db w \<and> pg_slots w' = pg_slots w \<and> proc_logs w' = proc_logs w \<and>
     uuid_source w' = uuid_source w \<and> uuid_drawn w' = uuid_drawn w \<and>
     clock w' = clock w \<and> clock_read w' = clock_read w"

lemma same_backend_refl [simp]: "same_backend w w"
  by (simp add: same_backend_def)

lemma same_backend_trans: "same_backend a b \<Longrightarrow> same_backend b c \<Longrightarrow> same_backend a c"
  by (simp add: same_backend_def)

text \<open>The response has this code, at the client and in the recorder; or it has none yet.\<close>

definition answered :: "int \<Rightarrow> 's api_world_scheme \<Rightarrow> bool" where
  "answered code w \<longleftrightarrow> (\<exists>h. resp_sent w = Some (code, h)) \<and> rr_status (recorder w) = code \<and>
     rr_wroteHeader (recorder w)"

definition unanswered :: "'s api_world_scheme \<Rightarrow> bool" where
  "unanswered w \<longleftrightarrow> resp_sent w = None \<and> \<not> rr_wroteHeader (recorder w)"

lemmas writer_defs =
  recorder_writer_def server_writer_def recorder_WriteHeader_def recorder_Write_def
  server_WriteHeader_def server_Write_def

lemma WriteHeader_answers:
  "unanswered w \<Longrightarrow> answered code (rw_WriteHeader (rec_rw m) code w)"
  "same_backend w (rw_WriteHeader (rec_rw m) code w)"
  by (cases w; auto simp: writer_defs answered_def unanswered_def same_backend_def split: option.splits)+

lemma header_frame:
  "same_backend w (rw_Header_Set (rec_rw m) k v w)" "same_backend w (rw_Header_Del (rec_rw m) k w)"
  "unanswered (rw_Header_Set (rec_rw m) k v w) = unanswered w"
  "unanswered (rw_Header_Del (rec_rw m) k w) = unanswered w"
  by (cases w; simp add: writer_defs unanswered_def same_backend_def)+

lemma Write_answered:
  assumes "rw_Write (rec_rw m) b w = (x, w')"
  shows "same_backend w w'" "answered code w \<Longrightarrow> answered code w'" "unanswered w \<Longrightarrow> answered 200 w'"
  using assms by (cases w; auto simp: writer_defs answered_def unanswered_def same_backend_def Let_def
      split: if_splits option.splits list.splits prod.splits)+

lemma http_Error_answers:
  assumes "unanswered w"
  shows "answered code (http_Error (rec_rw m) msg code w) \<and> same_backend w (http_Error (rec_rw m) msg code w)"
proof -
  define v where "v = rw_Header_Set (rec_rw m) ''X-Content-Type-Options'' ''nosniff''
    (rw_Header_Set (rec_rw m) ''Content-Type'' ''text/plain; charset=utf-8''
      (rw_Header_Del (rec_rw m) ''Content-Length'' w))"
  have v: "unanswered v" "same_backend w v"
    using assms unfolding v_def
    by (auto simp: header_frame intro: same_backend_trans[OF same_backend_trans[OF header_frame(2) header_frame(1)]
        header_frame(1)])
  obtain x w' where w': "rw_Write (rec_rw m) (msg @ [newline]) (rw_WriteHeader (rec_rw m) code v) = (x, w')"
    by fastforce
  note w1 = WriteHeader_answers(1)[OF v(1), of code m] WriteHeader_answers(2)[of v m code]
  have "same_backend w w'"
    using same_backend_trans[OF v(2) same_backend_trans[OF w1(2) Write_answered(1)[OF w']]] .
  moreover have "http_Error (rec_rw m) msg code w = w'"
    by (simp add: http_Error_def v_def[symmetric] w')
  ultimately show ?thesis using Write_answered(2)[OF w' w1(1)] by simp
qed

lemma Encode_answers:
  assumes "Encode_health (rec_rw m) resp w = (e, w')" "unanswered w"
  shows "answered 200 w' \<and> same_backend w w'"
  using assms Write_answered(1,3)[where w = w and m = m]
  by (auto simp: Encode_health_def split: prod.splits)

section \<open>Log lines\<close>

text \<open>Only lines of this logger were added.\<close>

definition logged :: "logger \<Rightarrow> 'a proc_scheme \<Rightarrow> 'b proc_scheme \<Rightarrow> bool" where
  "logged lg w w' \<longleftrightarrow> (\<exists>es. proc_logs w' = proc_logs w @ es \<and>
     (\<forall>e \<in> set es. \<exists>as. log_attrs e = with_attrs lg @ as))"

lemma logged_same: "proc_logs w' = proc_logs w \<Longrightarrow> logged lg w w'"
  by (simp add: logged_def)

lemma logged_trans: "logged lg a b \<Longrightarrow> logged lg b c \<Longrightarrow> logged lg a c"
  unfolding logged_def by fastforce

lemma logged_log_at [simp]: "logged lg w (log_at l lg m as w)"
  by (simp add: logged_def log_at_def)

lemma api_log_frame [simp]:
  "same_backend w w' \<Longrightarrow> logged lg w w'"
  "unanswered (log_at l lg m as w) = unanswered w" "answered code (log_at l lg m as w) = answered code w"
  "pg_db (log_at l lg m as w) = pg_db w" "pg_slots (log_at l lg m as w) = pg_slots w"
  by (cases w; cases w'; simp add: same_backend_def logged_def log_at_def unanswered_def answered_def)+

section \<open>The webhook\<close>

text \<open>What \<open>stripe.ConstructEvent\<close> is given, and the event it answered for.\<close>

definition verified ::
  "(string \<Rightarrow> string \<Rightarrow> string \<Rightarrow> stripe_Event result) \<Rightarrow> 'w App \<Rightarrow> request \<Rightarrow> stripe_Event option" where
  "verified ce app r =
     (case ReadAll_MaxBytes maxStripeWebhookBody (rq_Body r) of
        Inl _ \<Rightarrow> None
      | Inr body \<Rightarrow>
          (case ce body (Header_Get (rq_Header r) ''Stripe-Signature'') (StripeWebhookSecret (app_cfg app)) of
             Inl _ \<Rightarrow> None | Inr ev \<Rightarrow> Some ev))"

definition reject_code :: "request \<Rightarrow> int" where
  "reject_code r =
     (case ReadAll_MaxBytes maxStripeWebhookBody (rq_Body r) of
        Inl err \<Rightarrow> if errors_As_MaxBytes err then 413 else 400
      | Inr _ \<Rightarrow> 400)"

text \<open>The ways through the handler.\<close>

lemma webhook_paths:
  assumes "handleStripeWebhook ce app rw r w = (out, w')"
  obtains
    (rejected) m as where "verified ce app r = None" "out = Returned"
      "w' = http_Error rw (StatusText (reject_code r)) (reject_code r)
         (log_Error (loggerFromContext (rq_Context r) (app_logger app)) m as w)"
  | (failed) ev as w1 where "verified ce app r = Some ev" "out = Returned"
      "w' = http_Error rw (StatusText 500) 500
         (log_Error (loggerFromContext (rq_Context r) (app_logger app)) msgStripeEventProcessFailed as w1)"
      "(\<exists>e. Marshal_Job (webhook_job ev) = Inl e) \<and> w1 = w \<or>
       (\<exists>p e. Marshal_Job (webhook_job ev) = Inr p \<and>
         (so_AcceptEvent (app_store app) (se_ID ev) (se_Type ev) p w = (Inl e, w1) \<or>
          (\<exists>w0. so_AcceptEvent (app_store app) (se_ID ev) (se_Type ev) p w = (Inr False, w0) \<and>
            so_Status (app_store app) (se_ID ev) w0 = (Inl e, w1))))"
  | (acked) ev p m as w1 where "verified ce app r = Some ev" "out = Returned"
      "Marshal_Job (webhook_job ev) = Inr p"
      "w' = rw_WriteHeader rw 204 (log_Info (loggerFromContext (rq_Context r) (app_logger app)) m as w1)"
      "so_AcceptEvent (app_store app) (se_ID ev) (se_Type ev) p w = (Inr True, w1) \<and>
         m = msgStripeEventAccepted \<or>
       (\<exists>w0 es. so_AcceptEvent (app_store app) (se_ID ev) (se_Type ev) p w = (Inr False, w0) \<and>
         so_Status (app_store app) (se_ID ev) w0 = (Inr es, w1) \<and> m \<noteq> msgStripeEventAccepted)"
proof (cases "ReadAll_MaxBytes maxStripeWebhookBody (rq_Body r)")
  case (Inl e)
  then show thesis using assms rejected
    by (cases "errors_As_MaxBytes e")
      (auto simp: handleStripeWebhook_def verified_def reject_code_def Let_def)
next
  case (Inr body)
  let ?st = "app_store app"
  show thesis
  proof (cases "ce body (Header_Get (rq_Header r) ''Stripe-Signature'') (StripeWebhookSecret (app_cfg app))")
    case (Inl e)
    then show thesis using assms Inr rejected
      by (auto simp: handleStripeWebhook_def verified_def reject_code_def Let_def)
  next
    case ev: (Inr ev)
    then have v: "verified ce app r = Some ev" using Inr by (simp add: verified_def)
    show thesis
    proof (cases "Marshal_Job (webhook_job ev)")
      case (Inl e)
      then show thesis using assms Inr ev v failed[of ev] by (auto simp: handleStripeWebhook_def Let_def)
    next
      case p: (Inr p)
      obtain b w0 where b: "so_AcceptEvent ?st (se_ID ev) (se_Type ev) p w = (b, w0)" by fastforce
      obtain es w1 where es: "so_Status ?st (se_ID ev) w0 = (es, w1)" by fastforce
      consider e where "b = Inl e" | "b = Inr True" | e where "b = Inr False" "es = Inl e"
        | x where "b = Inr False" "es = Inr x" by (cases b; cases es) auto
      then show thesis
      proof cases
        case 1
        then show thesis using assms Inr ev v p b failed[of ev] by (auto simp: handleStripeWebhook_def Let_def)
      next
        case 2
        then show thesis using assms Inr ev p b acked[where ev = ev and p = p and m = msgStripeEventAccepted and ?w1.0 = w0, OF v _ p]
          by (auto simp: handleStripeWebhook_def Let_def)
      next
        case 3
        then show thesis using assms Inr ev v p b es failed[of ev] by (auto simp: handleStripeWebhook_def Let_def)
      next
        case 4
        then show thesis using assms Inr ev p b es acked[where ev = ev and p = p and ?w1.0 = w1, OF v _ p]
          by (auto simp: handleStripeWebhook_def status_simps Let_def split: if_splits)
      qed
    qed
  qed
qed

section \<open>The contract of the store\<close>

definition store_frame :: "'s api_world_scheme \<Rightarrow> 's api_world_scheme \<Rightarrow> bool" where
  "store_frame w w' \<longleftrightarrow> proc_logs w' = proc_logs w \<and> session.more w' = session.more w"

lemma store_frameD:
  assumes "store_frame w w'"
  shows "unanswered w' = unanswered w" "answered code w' = answered code w" "logged lg w w'"
  using assms by (cases w; cases w'; simp add: store_frame_def unanswered_def answered_def logged_def)+

lemma store_frame_trans: "store_frame a b \<Longrightarrow> store_frame b c \<Longrightarrow> store_frame a c"
  by (simp add: store_frame_def)

text \<open>
  \<open>durable w ev\<close>: the event is recorded for good.  An accept that answers, true or false, has it
  recorded; no operation takes it back; the response and the log are not the store's.
\<close>

locale api_store =
  fixes st :: "'s api_world_scheme store_ops"
    and inv :: "'s api_world_scheme \<Rightarrow> bool"
    and durable :: "'s api_world_scheme \<Rightarrow> string \<Rightarrow> bool"
  assumes accept: "so_AcceptEvent st ev ty p w = (b, w') \<Longrightarrow> inv w \<Longrightarrow>
      inv w' \<and> store_frame w w' \<and> (\<forall>x. durable w x \<longrightarrow> durable w' x) \<and> (\<forall>c. b = Inr c \<longrightarrow> durable w' ev)"
    and status: "so_Status st ev w = (es, w') \<Longrightarrow> inv w \<Longrightarrow>
      inv w' \<and> store_frame w w' \<and> (\<forall>x. durable w x \<longrightarrow> durable w' x)"
    and ping: "so_Ping st w = (u, w') \<Longrightarrow> inv w \<Longrightarrow>
      inv w' \<and> store_frame w w' \<and> (\<forall>x. durable w x \<longrightarrow> durable w' x)"
    and same_store: "pg_db w' = pg_db w \<Longrightarrow> pg_slots w' = pg_slots w \<Longrightarrow> inv w' = inv w \<and> durable w' = durable w"
begin

text \<open>A handler that ran from \<open>w\<close> to \<open>w'\<close> with this logger and answered.\<close>

definition ran_ok :: "logger \<Rightarrow> 's api_world_scheme \<Rightarrow> 's api_world_scheme \<Rightarrow> bool" where
  "ran_ok lg w w' \<longleftrightarrow> inv w' \<and> (\<forall>x. durable w x \<longrightarrow> durable w' x) \<and> logged lg w w' \<and> (\<exists>code. answered code w')"

lemma backend_local: "same_backend w w' \<Longrightarrow> inv w' = inv w \<and> durable w' = durable w"
  using same_store[of w' w] by (simp add: same_backend_def)

lemma log_local [simp]:
  "inv (log_at l lg m as w) = inv w" "durable (log_at l lg m as w) = durable w"
  using same_store[of "log_at l lg m as w" w] by simp_all

lemma error_ran_ok:
  assumes "inv w1" "\<forall>x. durable w x \<longrightarrow> durable w1 x" "unanswered w1" "logged lg w w1"
  shows "ran_ok lg w (http_Error (rec_rw m) reason code (log_at l lg msg as w1)) \<and>
    answered code (http_Error (rec_rw m) reason code (log_at l lg msg as w1))"
proof -
  let ?v = "log_at l lg msg as w1"
  have "answered code (http_Error (rec_rw m) reason code ?v)" "same_backend ?v (http_Error (rec_rw m) reason code ?v)"
    using http_Error_answers[where w = ?v and code = code and m = m and msg = reason] assms(3) by simp_all
  then show ?thesis
    using backend_local[of ?v] assms logged_trans[OF logged_trans[OF assms(4) logged_log_at] api_log_frame(1)]
    by (auto simp: ran_ok_def)
qed

lemma header_ran_ok:
  assumes "inv w1" "\<forall>x. durable w x \<longrightarrow> durable w1 x" "unanswered w1" "logged lg w w1"
  shows "ran_ok lg w (rw_WriteHeader (rec_rw m) code (log_at l lg msg as w1)) \<and>
    answered code (rw_WriteHeader (rec_rw m) code (log_at l lg msg as w1))"
proof -
  let ?v = "log_at l lg msg as w1"
  have "answered code (rw_WriteHeader (rec_rw m) code ?v)" "same_backend ?v (rw_WriteHeader (rec_rw m) code ?v)"
    using WriteHeader_answers[where w = ?v and code = code and m = m] assms(3) by simp_all
  then show ?thesis
    using backend_local[of ?v] assms logged_trans[OF logged_trans[OF assms(4) logged_log_at] api_log_frame(1)]
    by (auto simp: ran_ok_def)
qed

lemma accept_status:
  assumes "so_AcceptEvent st ev ty p w = (b, w0)" "so_Status st ev' w0 = (es, w1)" "inv w"
  shows "inv w1 \<and> store_frame w w1 \<and> (\<forall>x. durable w x \<longrightarrow> durable w1 x) \<and> (\<forall>c. b = Inr c \<longrightarrow> durable w1 ev)"
  using accept[OF assms(1,3)] status[OF assms(2)] store_frame_trans[of w w0 w1] by blast

lemma webhook_ran_ok:
  assumes op: "handleStripeWebhook ce app (rec_rw m) r w = (out, w')"
    and app: "app_store app = st" and inv: "inv w" and un: "unanswered w"
  shows "out = Returned \<and> ran_ok (loggerFromContext (rq_Context r) (app_logger app)) w w' \<and>
    (case verified ce app r of
       None \<Rightarrow> answered (reject_code r) w' \<and> pg_db w' = pg_db w \<and> pg_slots w' = pg_slots w
     | Some ev \<Rightarrow> answered 204 w' \<and> durable w' (se_ID ev) \<or> answered 500 w')"
  using op
proof (cases rule: webhook_paths)
  case (rejected msg as)
  let ?lg = "loggerFromContext (rq_Context r) (app_logger app)"
  note e = error_ran_ok[where ?w1.0 = w and w = w and lg = ?lg and m = m and
      reason = "StatusText (reject_code r)" and code = "reject_code r" and l = LevelError and msg = msg and as = as]
  have "same_backend (log_Error ?lg msg as w) w'"
    unfolding rejected(3) by (rule conjunct2[OF http_Error_answers]) (use un in simp)
  then show ?thesis using e rejected inv un logged_same[OF refl] by (simp add: same_backend_def)
next
  case (failed ev as w1)
  let ?lg = "loggerFromContext (rq_Context r) (app_logger app)"
  have w1: "inv w1 \<and> store_frame w w1 \<and> (\<forall>x. durable w x \<longrightarrow> durable w1 x)"
    using failed(4) unfolding app
  proof (elim disjE exE conjE)
    show ?thesis if "w1 = w" using that inv by (simp add: store_frame_def)
    show ?thesis if "so_AcceptEvent st (se_ID ev) (se_Type ev) p w = (Inl e, w1)" for p e
      using accept[OF that inv] by blast
    show ?thesis if "so_AcceptEvent st (se_ID ev) (se_Type ev) p w = (Inr False, w0)"
      "so_Status st (se_ID ev) w0 = (Inl e, w1)" for p e w0
      using accept_status[OF that inv] by blast
  qed
  then have "unanswered w1" "logged ?lg w w1" using store_frameD[of w w1] un by blast+
  with w1 have "ran_ok ?lg w w' \<and> answered 500 w'" unfolding failed(3) using error_ran_ok by blast
  then show ?thesis by (simp add: failed(1,2))
next
  case (acked ev p msg as w1)
  let ?lg = "loggerFromContext (rq_Context r) (app_logger app)"
  have w1: "inv w1 \<and> store_frame w w1 \<and> (\<forall>x. durable w x \<longrightarrow> durable w1 x) \<and> durable w1 (se_ID ev)"
    using acked(5) unfolding app
  proof (elim disjE exE conjE)
    show ?thesis if "so_AcceptEvent st (se_ID ev) (se_Type ev) p w = (Inr True, w1)"
      using accept[OF that inv] by blast
    show ?thesis if "so_AcceptEvent st (se_ID ev) (se_Type ev) p w = (Inr False, w0)"
      "so_Status st (se_ID ev) w0 = (Inr es, w1)" for es w0
      using accept_status[OF that inv] by blast
  qed
  then have "unanswered w1" "logged ?lg w w1" using store_frameD[of w w1] un by blast+
  with w1 have "ran_ok ?lg w w' \<and> answered 204 w'" unfolding acked(4) using header_ran_ok by blast
  moreover have "durable w' = durable w1"
    unfolding acked(4) using backend_local[OF WriteHeader_answers(2)] by simp
  ultimately show ?thesis using w1 by (simp add: acked(1,2))
qed

lemma store_step_ran_ok:
  assumes "so_Ping st w = (u, w1)" "inv w"
  shows "inv w1 \<and> (\<forall>x. durable w x \<longrightarrow> durable w1 x) \<and> unanswered w1 = unanswered w \<and> logged lg w w1"
  using ping[OF assms] store_frameD[of w w1] by simp

text \<open>Answering a probe: a header, then the encoded body.\<close>

lemma probe_ran_ok:
  assumes op: "Encode_health (rec_rw m) resp w1 = (e, w2)"
    and w': "w' = (case e of None \<Rightarrow> w2 | Some x \<Rightarrow> log_at l lg msg as w2)"
    and w1: "inv w1" "\<forall>x. durable w x \<longrightarrow> durable w1 x" "unanswered w1" "logged lg w w1"
  shows "ran_ok lg w w' \<and> answered 200 w' \<and> pg_db w' = pg_db w1 \<and> pg_slots w' = pg_slots w1"
proof -
  have "answered 200 w2" "same_backend w1 w2" using Encode_answers[OF op w1(3)] by auto
  moreover have "logged lg w w'"
    using w' logged_trans[OF w1(4) api_log_frame(1)[OF calculation(2)]] logged_trans[OF _ logged_log_at]
    by (cases e) auto
  ultimately show ?thesis
    using w' w1 backend_local[of w1 w2] by (cases e) (auto simp: ran_ok_def same_backend_def)
qed

lemma header_step:
  "inv (rw_Header_Set (rec_rw m) k v w) = inv w" "durable (rw_Header_Set (rec_rw m) k v w) = durable w"
  "logged lg w (rw_Header_Set (rec_rw m) k v w)"
  "pg_db (rw_Header_Set (rec_rw m) k v w) = pg_db w" "pg_slots (rw_Header_Set (rec_rw m) k v w) = pg_slots w"
  using backend_local[OF header_frame(1)[of w m k v]] header_frame(1)[of w m k v]
  by (simp_all add: same_backend_def logged_same)

lemma livez_ran_ok:
  assumes op: "handleLivez app (rec_rw m) r w = (out, w')" and inv: "inv w" and un: "unanswered w"
  shows "out = Returned \<and> ran_ok (loggerFromContext (rq_Context r) (app_logger app)) w w' \<and>
    answered 200 w' \<and> pg_db w' = pg_db w \<and> pg_slots w' = pg_slots w"
proof -
  let ?w1 = "rw_Header_Set (rec_rw m) ''Content-Type'' ''application/json; charset=utf-8'' w"
  obtain e w2 where e: "Encode_health (rec_rw m) \<lparr>hr_Status = ''ok''\<rparr> ?w1 = (e, w2)" by fastforce
  let ?lg = "loggerFromContext (rq_Context r) (app_logger app)"
  have "out = Returned" and w': "w' = (case e of None \<Rightarrow> w2
      | Some x \<Rightarrow> log_at LevelError ?lg msgProbeEncodeError
          [(''probe'', LStr ''livez''), (''error'', LStr (Error_string (the e)))] w2)"
    using op e by (cases e; simp add: handleLivez_def Let_def)+
  moreover from probe_ran_ok[OF e w', of w] inv un
  have "ran_ok ?lg w w' \<and> answered 200 w' \<and> pg_db w' = pg_db w \<and> pg_slots w' = pg_slots w"
    by (simp add: header_step header_frame)
  ultimately show ?thesis by blast
qed

lemma readyz_ran_ok:
  assumes op: "handleReadyz app (rec_rw m) r w = (out, w')" and app: "app_store app = st"
    and inv: "inv w" and un: "unanswered w"
  shows "out = Returned \<and> ran_ok (loggerFromContext (rq_Context r) (app_logger app)) w w' \<and>
    (case fst (so_Ping st (rw_Header_Set (rec_rw m) ''Content-Type'' ''application/json; charset=utf-8'' w)) of
       Inl _ \<Rightarrow> answered 503 w' | Inr _ \<Rightarrow> answered 200 w')"
proof -
  let ?lg = "loggerFromContext (rq_Context r) (app_logger app)"
  let ?w1 = "rw_Header_Set (rec_rw m) ''Content-Type'' ''application/json; charset=utf-8'' w"
  obtain u w2 where u: "so_Ping st ?w1 = (u, w2)" by fastforce
  from store_step_ran_ok[OF u, where lg = ?lg] inv un have w2: "inv w2" "\<forall>x. durable w x \<longrightarrow> durable w2 x" "unanswered w2"
    "logged ?lg w w2"
    using logged_trans[OF header_step(3), of ?lg _ _ _ w w2] by (auto simp: header_step header_frame)
  show ?thesis
  proof (cases u)
    case (Inl x)
    then show ?thesis
      using op u error_ran_ok[OF w2] by (auto simp: handleReadyz_def app Let_def)
  next
    case (Inr x)
    obtain e w3 where e: "Encode_health (rec_rw m) \<lparr>hr_Status = ''ok''\<rparr> w2 = (e, w3)" by fastforce
    have "out = Returned" and w': "w' = (case e of None \<Rightarrow> w3
        | Some x \<Rightarrow> log_at LevelError ?lg msgProbeEncodeError
            [(''probe'', LStr ''readyz''), (''error'', LStr (Error_string (the e)))] w3)"
      using op u Inr e by (cases e; simp add: handleReadyz_def app Let_def)+
    moreover from probe_ran_ok[OF e w' w2] have "ran_ok ?lg w w' \<and> answered 200 w'" by blast
    ultimately show ?thesis by (simp add: u Inr)
  qed
qed

text \<open>A handler that always answers, on the requests of \<open>P\<close>.\<close>

definition handler_ok :: "logger \<Rightarrow> (request \<Rightarrow> bool) \<Rightarrow> 's api_world_scheme handler \<Rightarrow> bool" where
  "handler_ok lg P h \<longleftrightarrow>
     (\<forall>m r w out w'. h (rec_rw m) r w = (out, w') \<longrightarrow> P r \<longrightarrow> inv w \<longrightarrow> unanswered w \<longrightarrow>
        out = Returned \<and> ran_ok (loggerFromContext (rq_Context r) lg) w w')"

lemma routes_ok:
  assumes "app_store app = st" "e \<in> set (routes ce app)"
  shows "handler_ok (app_logger app) P (mx_Handler e)"
  using assms livez_ran_ok[of app] readyz_ran_ok[of app] webhook_ran_ok[of ce app]
  unfolding routes_def handler_ok_def by (auto; blast)

end

end
