(* ===== verification/Api_Request.thy ===== *)
theory Api_Request
  imports Api_Facts
begin

text \<open>
  A request from the server to its answer: routing, the request log and the composition of the
  handlers, and the instance of the store's contract on Postgres.
\<close>

section \<open>Routing\<close>

text \<open>The requests the mux does not redirect to a clean path.\<close>

definition direct :: "request \<Rightarrow> bool" where
  "direct r \<longleftrightarrow> rq_EscapedPath r = ''*'' \<or> rq_Method r = ''CONNECT'' \<or>
     cleanPath (rq_EscapedPath r) = rq_EscapedPath r"

lemma mux_paths:
  assumes "mux_ServeHTTP redirect es rw r w = (out, w')" "direct r"
  obtains
    (star) "out = Returned" "w' = rw_WriteHeader rw 400 (rw_Header_Set rw ''Connection'' ''close'' w)"
  | (route) e where "e \<in> set es" "path_matches (rq_EscapedPath r) e" "method_matches (rq_Method r) e"
      "mx_Handler e rw r w = (out, w')"
  | (not_found) "out = Returned" "w' = http_Error rw ''404 page not found'' 404 w"
  | (bad_method) v where "out = Returned" "w' = http_Error rw (StatusText 405) 405 (rw_Header_Set rw ''Allow'' v w)"
proof (cases "rq_EscapedPath r = ''*''")
  case True
  then show thesis using assms(1) star by (simp add: mux_ServeHTTP_def)
next
  case False
  let ?p = "rq_EscapedPath r"
  have p: "(if rq_Method r = ''CONNECT'' then ?p else cleanPath ?p) = ?p"
    using assms(2) False by (auto simp: direct_def)
  show thesis
  proof (cases "filter (\<lambda>e. path_matches ?p e \<and> method_matches (rq_Method r) e) es")
    case Nil
    show thesis
      using assms(1)[unfolded mux_ServeHTTP_def p] False Nil not_found bad_method
      by (auto simp: Let_def split: if_splits)
  next
    case (Cons e rest)
    then have "e \<in> set (filter (\<lambda>e. path_matches ?p e \<and> method_matches (rq_Method r) e) es)" by simp
    then have "e \<in> set es" "path_matches ?p e" "method_matches (rq_Method r) e" by simp_all
    with Cons False show thesis
      using assms(1)[unfolded mux_ServeHTTP_def p] route[of e] by (simp add: Let_def)
  qed
qed

context api_store
begin

lemma plain_error_ran_ok:
  assumes "inv w1" "\<forall>x. durable w x \<longrightarrow> durable w1 x" "unanswered w1" "logged lg w w1"
  shows "ran_ok lg w (http_Error (rec_rw m) reason code w1)"
proof -
  let ?w' = "http_Error (rec_rw m) reason code w1"
  have a: "answered code ?w'" and b: "same_backend w1 ?w'"
    using http_Error_answers[where w = w1 and code = code and m = m and msg = reason] assms(3) by simp_all
  have "logged lg w ?w'" using logged_trans[OF assms(4) api_log_frame(1)[OF b]] .
  moreover have "inv ?w' = inv w1" "durable ?w' = durable w1" using backend_local[OF b] by simp_all
  ultimately show ?thesis using a assms(1,2) unfolding ran_ok_def by metis
qed

lemma mux_ok:
  assumes "\<And>e. e \<in> set es \<Longrightarrow> handler_ok lg direct (mx_Handler e)"
  shows "handler_ok lg direct (mux_ServeHTTP redirect es)"
  unfolding handler_ok_def
proof (intro allI impI)
  fix m r and w w' :: "'s api_world_scheme" and out
  assume op: "mux_ServeHTTP redirect es (rec_rw m) r w = (out, w')" and r: "direct r"
    and inv: "inv w" and un: "unanswered w"
  let ?lg = "loggerFromContext (rq_Context r) lg"
  let ?h = "\<lambda>k v. rw_Header_Set (rec_rw m) k v w"
  have h: "inv (?h k v)" "\<forall>x. durable w x \<longrightarrow> durable (?h k v) x" "unanswered (?h k v)" "logged ?lg w (?h k v)" for k v
    using inv un by (simp_all add: header_step header_frame)
  from op r show "out = Returned \<and> ran_ok ?lg w w'"
  proof (cases rule: mux_paths)
    case star
    have "answered 400 w'" "same_backend (?h ''Connection'' ''close'') w'"
      unfolding star(2) using WriteHeader_answers(1)[OF h(3)] WriteHeader_answers(2) by blast+
    moreover from this have "logged ?lg w w'" using logged_trans[OF h(4) api_log_frame(1)] by blast
    moreover have "inv w' = inv w" "durable w' = durable w"
      using backend_local[OF calculation(2)] by (simp_all add: header_step)
    ultimately show ?thesis using star(1) inv unfolding ran_ok_def by metis
  next
    case (route e)
    from assms[OF route(1)] route(4) r inv un show ?thesis unfolding handler_ok_def by blast
  next
    case not_found
    with plain_error_ran_ok[OF inv _ un logged_same[OF refl]] show ?thesis by simp
  next
    case (bad_method v)
    with plain_error_ran_ok[OF h] show ?thesis by blast
  qed
qed

end

section \<open>The request log\<close>

definition started :: "string \<Rightarrow> request \<Rightarrow> log_entry" where
  "started i r = \<lparr>log_level = LevelInfo, log_msg = msgRequestStarted,
     log_attrs = [(''request_id'', LStr i), (''method'', LStr (rq_Method r)),
       (''path'', LStr (rq_Path r)), (''remote_addr'', LStr (rq_RemoteAddr r))]\<rparr>"

definition completed :: "string \<Rightarrow> request \<Rightarrow> int \<Rightarrow> int \<Rightarrow> log_entry" where
  "completed i r code ms = \<lparr>log_level = LevelInfo, log_msg = msgRequestCompleted,
     log_attrs = [(''request_id'', LStr i), (''method'', LStr (rq_Method r)),
       (''path'', LStr (rq_Path r)), (''status'', LInt code), (''duration_ms'', LInt ms)]\<rparr>"

definition fresh_recorder :: responseRecorder where
  "fresh_recorder = \<lparr>rr_status = 200, rr_bytes = 0, rr_wroteHeader = False\<rparr>"

definition request_logger :: "string \<Rightarrow> logger" where
  "request_logger i = logger_With (NewJSONLogger None) ''request_id'' (LStr i)"

lemma request_logger_sel [simp]:
  "with_attrs (request_logger i) = [(''request_id'', LStr i)]" "min_level (request_logger i) = 0"
  by (simp_all add: request_logger_def)

definition with_logger :: "request \<Rightarrow> string \<Rightarrow> request" where
  "with_logger r i = r\<lparr>rq_Context := withRequestContext (rq_Context r) i (request_logger i)\<rparr>"

lemma with_logger_sel [simp]:
  "loggerFromContext (rq_Context (with_logger r i)) lg = request_logger i"
  "rq_Method (with_logger r i) = rq_Method r" "rq_Path (with_logger r i) = rq_Path r"
  "rq_EscapedPath (with_logger r i) = rq_EscapedPath r" "rq_Header (with_logger r i) = rq_Header r"
  "rq_Body (with_logger r i) = rq_Body r" "rq_RemoteAddr (with_logger r i) = rq_RemoteAddr r"
  "isProbeRequest (with_logger r i) = isProbeRequest r" "direct (with_logger r i) = direct r"
  "verified ce app (with_logger r i) = verified ce app r" "reject_code (with_logger r i) = reject_code r"
  by (simp_all add: with_logger_def loggerFromContext_def withRequestContext_def isProbeRequest_def
      direct_def verified_def reject_code_def split: sum.split)

text \<open>The id of a request, and the world its handler starts from.\<close>

definition request_id :: "request \<Rightarrow> 's api_world_scheme \<Rightarrow> string" where
  "request_id r w = fst (resolveRequestID r w)"

definition handler_world :: "request \<Rightarrow> 's api_world_scheme \<Rightarrow> 's api_world_scheme" where
  "handler_world r w =
     (let w2 = snd (resolveRequestID r (snd (time_Now w)))
      in w2\<lparr>proc_logs := proc_logs w2 @ (if isProbeRequest r then [] else [started (request_id r w) r]),
            recorder := fresh_recorder\<rparr>)"

lemma resolve_frame:
  "fst (resolveRequestID r (snd (time_Now w))) = request_id r w"
  "proc_logs (handler_world r w) = proc_logs w @ (if isProbeRequest r then [] else [started (request_id r w) r])"
  "pg_db (handler_world r w) = pg_db w" "pg_slots (handler_world r w) = pg_slots w"
  "unanswered (handler_world r w) \<longleftrightarrow> resp_sent w = None"
  by (cases w; simp add: time_Now_def request_id_def resolveRequestID_def uuid_NewString_def Let_def
      handler_world_def unanswered_def fresh_recorder_def)+

lemma RequestLog_run:
  assumes "inner (recorder_writer rw) (with_logger r (request_id r w)) (handler_world r w) = (out, w4)"
  shows "\<exists>ms. RequestLog (NewJSONLogger None) inner rw r w = (out,
    (case out of Panicked v stack \<Rightarrow> w4
     | Returned \<Rightarrow> if isProbeRequest r then w4
         else w4\<lparr>clock_read := Suc (clock_read w4), proc_logs := proc_logs w4 @
                [completed (request_id r w) r (rr_status (recorder w4)) ms]\<rparr>))"
proof -
  obtain t w1 where 1: "time_Now w = (t, w1)" by fastforce
  obtain i w2 where 2: "resolveRequestID r w1 = (i, w2)" by fastforce
  have i: "i = request_id r w" using resolve_frame(1)[of r w] 1 2 by simp
  have w3: "isProbeRequest r \<Longrightarrow> handler_world r w = w2\<lparr>recorder := fresh_recorder\<rparr>"
    "\<not> isProbeRequest r \<Longrightarrow> handler_world r w = (log_Info (request_logger i) msgRequestStarted
      [(''method'', LStr (rq_Method r)), (''path'', LStr (rq_Path r)),
       (''remote_addr'', LStr (rq_RemoteAddr r))] w2)\<lparr>recorder := fresh_recorder\<rparr>"
    using 1 2 i by (cases w2; simp add: handler_world_def log_at_def started_def LevelInfo_def Let_def)+
  have "RequestLog (NewJSONLogger None) inner rw r w = (out,
    (case out of Panicked v stack \<Rightarrow> w4
     | Returned \<Rightarrow> if isProbeRequest r then w4
         else w4\<lparr>clock_read := Suc (clock_read w4), proc_logs := proc_logs w4 @
                [completed (request_id r w) r (rr_status (recorder w4))
                   (milliseconds (clock w4 (clock_read w4) - t))]\<rparr>))"
    unfolding RequestLog_def 1 prod.case 2 Let_def request_logger_def[symmetric]
      with_logger_def[symmetric] fresh_recorder_def[symmetric] i with_logger_sel
    using assms w3 i
    by (cases "isProbeRequest r"; cases out)
      (simp_all add: time_Now_def log_at_def completed_def LevelInfo_def)
  then show ?thesis by blast
qed

section \<open>One request\<close>

abbreviation api ::
  "(string \<Rightarrow> string \<Rightarrow> string \<Rightarrow> stripe_Event result) \<Rightarrow> (string \<Rightarrow> 's api_world_scheme handler)
   \<Rightarrow> 's api_world_scheme App \<Rightarrow> request \<Rightarrow> 's api_world_scheme \<Rightarrow> 's api_world_scheme" where
  "api ce redirect app \<equiv> serve_request (api_handler ce redirect (NewJSONLogger None) app)"

lemma fresh_response_sel [simp]:
  "pg_db (fresh_response w) = pg_db w" "pg_slots (fresh_response w) = pg_slots w"
  "proc_logs (fresh_response w) = proc_logs w" "resp_sent (fresh_response w) = None"
  "resp_Header (fresh_response w) = []"
  by (cases w; simp add: fresh_response_def)+

lemma request_id_fresh [simp]: "request_id r (fresh_response w) = request_id r w"
  by (cases w) (simp add: request_id_def fresh_response_def resolveRequestID_def uuid_NewString_def Let_def)

lemma serve_run:
  assumes run: "mux_ServeHTTP redirect (routes ce app) (rec_rw (rq_Method r))
      (with_logger r (request_id r w)) (handler_world r (fresh_response w)) = (Returned, w4)"
    and code: "answered code w4"
  shows "pg_db (api ce redirect app r w) = pg_db w4 \<and> pg_slots (api ce redirect app r w) = pg_slots w4 \<and>
    (\<exists>h. resp_sent (api ce redirect app r w) = Some (code, h)) \<and>
    (\<exists>ms. proc_logs (api ce redirect app r w) = proc_logs w4 @
       (if isProbeRequest r then [] else [completed (request_id r w) r code ms]))"
proof -
  let ?rw = "server_writer (rq_Method r)"
  from RequestLog_run[where w = "fresh_response w" and rw = ?rw and out = Returned and ?w4.0 = w4 and
      inner = "mux_ServeHTTP redirect (routes ce app)" and r = r] run
  obtain ms where ms: "RequestLog (NewJSONLogger None) (mux_ServeHTTP redirect (routes ce app)) ?rw r
      (fresh_response w) = (Returned, if isProbeRequest r then w4
         else w4\<lparr>clock_read := Suc (clock_read w4), proc_logs := proc_logs w4 @
                [completed (request_id r w) r (rr_status (recorder w4)) ms]\<rparr>)"
    unfolding request_id_fresh outcome.case by blast
  obtain h where h: "resp_sent w4 = Some (code, h)" "rr_status (recorder w4) = code"
    using code by (auto simp: answered_def)
  have eq: "api ce redirect app r w = (if isProbeRequest r then w4
      else w4\<lparr>clock_read := Suc (clock_read w4),
        proc_logs := proc_logs w4 @ [completed (request_id r w) r code ms]\<rparr>)"
    using h by (cases "isProbeRequest r"; cases w4)
      (simp_all add: serve_request_def api_handler_def Recover_def server_WriteHeader_def ms)
  show ?thesis
  proof (cases "isProbeRequest r")
    case True
    then show ?thesis using eq h by simp
  next
    case False
    then have "api ce redirect app r w = w4\<lparr>clock_read := Suc (clock_read w4),
        proc_logs := proc_logs w4 @ [completed (request_id r w) r code ms]\<rparr>" using eq by simp
    then show ?thesis using False h by (cases w4) auto
  qed
qed

text \<open>Requests that reach the webhook.\<close>

definition webhook_request :: "request \<Rightarrow> bool" where
  "webhook_request r \<longleftrightarrow> rq_Method r = ''POST'' \<and> rq_EscapedPath r = ''/webhooks/stripe''"

lemma webhook_direct: "webhook_request r \<Longrightarrow> direct r"
proof -
  have "cleanPath ''/webhooks/stripe'' = ''/webhooks/stripe''" by code_simp
  then show "webhook_request r \<Longrightarrow> direct r" by (simp add: webhook_request_def direct_def)
qed

lemma route_segments:
  "path_segments ''/webhooks/stripe'' = ['''', ''webhooks'', ''stripe'']"
  "path_segments ''/livez'' = ['''', ''livez'']" "path_segments ''/readyz'' = ['''', ''readyz'']"
  "Split ''/webhooks/stripe'' CHR ''/'' = ['''', ''webhooks'', ''stripe'']"
  "Split ''/livez'' CHR ''/'' = ['''', ''livez'']" "Split ''/readyz'' CHR ''/'' = ['''', ''readyz'']"
  by code_simp+

lemma clean_routes:
  "cleanPath ''/webhooks/stripe'' = ''/webhooks/stripe''" "cleanPath ''/livez'' = ''/livez''"
  "cleanPath ''/readyz'' = ''/readyz''"
  by code_simp+

lemma mux_webhook:
  "webhook_request r \<Longrightarrow>
     mux_ServeHTTP redirect (routes ce app) rw r w = handleStripeWebhook ce app rw r w"
  by (simp add: webhook_request_def mux_ServeHTTP_def clean_routes routes_def path_matches_def
      method_matches_def route_segments)

lemma webhook_request_logger [simp]: "webhook_request (with_logger r i) = webhook_request r"
  by (simp add: webhook_request_def)

lemma webhook_not_probe: "webhook_request r \<Longrightarrow> \<not> isProbeRequest r"
  by (simp add: webhook_request_def isProbeRequest_def)

context api_store
begin

lemma handler_world_store:
  "inv (handler_world r (fresh_response w)) = inv w" "durable (handler_world r (fresh_response w)) = durable w"
  using same_store[of "handler_world r (fresh_response w)" w] by (simp_all add: resolve_frame)

text \<open>Every request that is not redirected is answered once, and logged under its id.\<close>

lemma served:
  assumes "direct r" "inv w" "app_store app = st"
  shows "inv (api ce redirect app r w) \<and> (\<forall>x. durable w x \<longrightarrow> durable (api ce redirect app r w) x) \<and>
    (\<exists>code h es ms. resp_sent (api ce redirect app r w) = Some (code, h) \<and>
       (\<forall>e \<in> set es. \<exists>as. log_attrs e = (''request_id'', LStr (request_id r w)) # as) \<and>
       proc_logs (api ce redirect app r w) = proc_logs w @
         (if isProbeRequest r then es
          else started (request_id r w) r # es @ [completed (request_id r w) r code ms]))"
proof -
  let ?v = "handler_world r (fresh_response w)" and ?i = "request_id r w"
  obtain out w4 where run: "mux_ServeHTTP redirect (routes ce app) (rec_rw (rq_Method r))
      (with_logger r ?i) ?v = (out, w4)" by fastforce
  have "handler_ok (app_logger app) direct (mux_ServeHTTP redirect (routes ce app))"
    by (rule mux_ok) (rule routes_ok[OF assms(3)])
  then have "out = Returned \<and> ran_ok (request_logger ?i) ?v w4"
    using run assms(1,2) unfolding handler_ok_def by (force simp: handler_world_store resolve_frame)
  then obtain code es where ok: "out = Returned" "inv w4" "\<forall>x. durable w x \<longrightarrow> durable w4 x" "answered code w4"
    "proc_logs w4 = proc_logs ?v @ es" "\<forall>e \<in> set es. \<exists>as. log_attrs e = (''request_id'', LStr ?i) # as"
    by (auto simp: ran_ok_def logged_def handler_world_store)
  note sr = serve_run[OF run[unfolded ok(1)] ok(4)]
  have "inv (api ce redirect app r w) = inv w4" "durable (api ce redirect app r w) = durable w4"
    using same_store[of "api ce redirect app r w" w4] sr by simp_all
  moreover obtain h ms where "resp_sent (api ce redirect app r w) = Some (code, h)"
    "proc_logs (api ce redirect app r w) = proc_logs w @ (if isProbeRequest r then es
       else started ?i r # es @ [completed ?i r code ms])"
    using sr ok(5) by (cases "isProbeRequest r") (auto simp: resolve_frame)
  ultimately show ?thesis using ok(2,3,6) by metis
qed

lemma webhook_served:
  assumes "webhook_request r" "inv w" "app_store app = st"
  shows "\<exists>code h. resp_sent (api ce redirect app r w) = Some (code, h) \<and>
    (case verified ce app r of
       None \<Rightarrow> code = reject_code r \<and> pg_db (api ce redirect app r w) = pg_db w \<and>
         pg_slots (api ce redirect app r w) = pg_slots w
     | Some ev \<Rightarrow> code = 204 \<and> durable (api ce redirect app r w) (se_ID ev) \<or> code = 500)"
proof -
  let ?v = "handler_world r (fresh_response w)" and ?i = "request_id r w"
  obtain out w4 where run: "handleStripeWebhook ce app (rec_rw (rq_Method r)) (with_logger r ?i) ?v = (out, w4)"
    by fastforce
  from webhook_ran_ok[OF this assms(3)] assms(2) have ran: "out = Returned \<and>
    (case verified ce app r of
       None \<Rightarrow> answered (reject_code (with_logger r ?i)) w4 \<and> pg_db w4 = pg_db ?v \<and> pg_slots w4 = pg_slots ?v
     | Some ev \<Rightarrow> answered 204 w4 \<and> durable w4 (se_ID ev) \<or> answered 500 w4)"
    by (simp add: handler_world_store resolve_frame)
  then have ok: "out = Returned"
    "case verified ce app r of
       None \<Rightarrow> answered (reject_code r) w4 \<and> pg_db w4 = pg_db w \<and> pg_slots w4 = pg_slots w
     | Some ev \<Rightarrow> answered 204 w4 \<and> durable w4 (se_ID ev) \<or> answered 500 w4"
    by (auto simp: resolve_frame split: option.splits)
  have run': "mux_ServeHTTP redirect (routes ce app) (rec_rw (rq_Method r)) (with_logger r ?i) ?v = (Returned, w4)"
    using run ok(1) assms(1) by (simp add: mux_webhook)
  have sr: "pg_db (api ce redirect app r w) = pg_db w4 \<and> pg_slots (api ce redirect app r w) = pg_slots w4 \<and>
      (\<exists>h. resp_sent (api ce redirect app r w) = Some (code, h))" if "answered code w4" for code
    using serve_run[OF run' that] by blast
  then have "durable (api ce redirect app r w) = durable w4" if "answered code w4" for code
    using that same_store[of "api ce redirect app r w" w4] by blast
  with sr ok(2) show ?thesis by (cases "verified ce app r") (simp, blast, simp, metis)
qed

end

section \<open>The instance\<close>

definition recorded :: "'s session_scheme \<Rightarrow> string \<Rightarrow> bool" where
  "recorded w ev \<longleftrightarrow> processed_events (pg_db w) ev \<noteq> None"

interpretation api_pg: api_store pg_store "\<lambda>w. db_inv (pg_db w)" recorded
proof unfold_locales
  fix w w' :: "'s api_world_scheme" and ev ty p b es u
  have rec: "db_le (pg_db w) (pg_db w') \<Longrightarrow> \<forall>x. recorded w x \<longrightarrow> recorded w' x"
    using db_le_ledger by (fastforce simp: recorded_def)
  show "so_AcceptEvent pg_store ev ty p w = (b, w') \<Longrightarrow> db_inv (pg_db w) \<Longrightarrow>
      db_inv (pg_db w') \<and> store_frame w w' \<and> (\<forall>x. recorded w x \<longrightarrow> recorded w' x) \<and>
      (\<forall>c. b = Inr c \<longrightarrow> recorded w' ev)"
    using AcceptEvent_facts[of ev ty p w b w'] rec
    by (auto simp: pg_store_def store_frame_def accept_post_def recorded_def)
  show "so_Status pg_store ev w = (es, w') \<Longrightarrow> db_inv (pg_db w) \<Longrightarrow>
      db_inv (pg_db w') \<and> store_frame w w' \<and> (\<forall>x. recorded w x \<longrightarrow> recorded w' x)"
    using preservesD[OF preserves_Status, of ev w es w'] rec by (simp add: pg_store_def store_frame_def)
  show "so_Ping pg_store w = (u, w') \<Longrightarrow> db_inv (pg_db w) \<Longrightarrow>
      db_inv (pg_db w') \<and> store_frame w w' \<and> (\<forall>x. recorded w x \<longrightarrow> recorded w' x)"
    using preservesD[OF preserves_Ping, of w u w'] rec by (simp add: pg_store_def store_frame_def)
  show "pg_db w' = pg_db w \<Longrightarrow> pg_slots w' = pg_slots w \<Longrightarrow>
      db_inv (pg_db w') = db_inv (pg_db w) \<and> recorded w' = recorded w"
    by (simp add: recorded_def fun_eq_iff)
qed

end
