(* ===== verification/Api_Correct.thy ===== *)
theory Api_Correct
  imports Api_Request
begin

text \<open>
  The properties of the API: what the answers to Stripe mean, rejections, retries, the log,
  panics and probes.
\<close>

section \<open>What an answer to Stripe means\<close>

text \<open>
  C3: A webhook request answered with 204 was verified, and its event is in the ledger when the
  answer leaves; if the event is there as accepted, its row is in the outbox, so the publisher
  will deliver it. This holds under every schedule of database faults and of other clients.
\<close>

theorem acknowledged_recorded:
  assumes "webhook_request r" "db_inv (pg_db w)" "app_store app = pg_store"
    and "resp_sent (api ce redirect app r w) = Some (204, h)"
  shows "\<exists>ev l. verified ce app r = Some ev \<and>
    processed_events (pg_db (api ce redirect app r w)) (se_ID ev) = Some l \<and>
    (pe_status l = StatusAccepted \<longrightarrow>
       se_ID ev \<in> ob_event_id ` set (outbox_events (pg_db (api ce redirect app r w))))"
proof -
  have inv: "db_inv (pg_db (api ce redirect app r w))"
    using api_pg.served[OF webhook_direct[OF assms(1)] assms(2,3)] by blast
  from api_pg.webhook_served[OF assms(1-3), of ce redirect] assms(4)
  obtain ev where ev: "verified ce app r = Some ev" "recorded (api ce redirect app r w) (se_ID ev)"
    by (auto simp: reject_code_def split: option.splits sum.splits if_splits)
  then obtain l where "processed_events (pg_db (api ce redirect app r w)) (se_ID ev) = Some l"
    by (auto simp: recorded_def)
  with ev(1) inv show ?thesis unfolding db_inv_def outbox_complete_def by blast
qed

text \<open>
  C32: A webhook request that is not verified is answered with 413 when its body has more than
  1 MiB and with 400 otherwise (a body that cannot be read, or that ConstructEvent refuses), and
  the database is not asked: no statement is run for it.
\<close>

theorem unverified_rejected:
  assumes "webhook_request r" "db_inv (pg_db w)" "app_store app = pg_store"
    and "verified ce app r = None"
    and "\<And>e. snd (rq_Body r) = Some e \<Longrightarrow> \<not> errors_As_MaxBytes e"
  shows "\<exists>h. resp_sent (api ce redirect app r w) =
      Some (if 2 ^ 20 < length (fst (rq_Body r)) then 413 else 400, h) \<and>
    pg_db (api ce redirect app r w) = pg_db w \<and> pg_slots (api ce redirect app r w) = pg_slots w"
proof -
  have "reject_code r = (if 2 ^ 20 < length (fst (rq_Body r)) then 413 else 400)"
    using assms(5) by (auto simp: reject_code_def ReadAll_MaxBytes_def maxStripeWebhookBody_def
        split: sum.splits option.splits prod.splits)
  with api_pg.webhook_served[OF assms(1-3), of ce redirect] assms(4) show ?thesis by auto
qed

section \<open>Requests in the log\<close>

lemma request_id_cases:
  "request_id r w = uuid_source w (uuid_drawn w) \<or>
     0 < length (request_id r w) \<and> length (request_id r w) \<le> 128 \<and>
     request_id r w = TrimSpace (Header_Get (rq_Header r) ''X-Request-ID'')"
  by (simp add: request_id_def resolveRequestID_def uuid_NewString_def maxRequestIDLength_def Let_def)

text \<open>
  C34: Every request that the mux does not redirect is answered, and every line it logs starts
  with its request id: the first is request_started, the last is request_completed with the
  status that was sent. The id is the trimmed X-Request-ID header when that has 1 to 128 bytes
  and a fresh UUID otherwise, so it has 1 to 128 bytes. GET probes log neither of the two lines.
\<close>

theorem request_logged:
  assumes "direct r" "db_inv (pg_db w)" "app_store app = pg_store"
    and "\<And>n. length (uuid_source w n) = 36"
  shows "0 < length (request_id r w) \<and> length (request_id r w) \<le> 128 \<and>
    (\<exists>code h es ms. resp_sent (api ce redirect app r w) = Some (code, h) \<and>
       (\<forall>e \<in> set es. \<exists>as. log_attrs e = (''request_id'', LStr (request_id r w)) # as) \<and>
       proc_logs (api ce redirect app r w) = proc_logs w @
         (if isProbeRequest r then es
          else started (request_id r w) r # es @ [completed (request_id r w) r code ms]))"
proof -
  have "0 < length (request_id r w) \<and> length (request_id r w) \<le> 128"
    using request_id_cases[of r w] assms(4)[of "uuid_drawn w"] by (elim disjE) (simp, blast)
  with api_pg.served[OF assms(1-3), of ce redirect] show ?thesis by blast
qed

section \<open>Panics\<close>

lemma server_Write_frame:
  assumes "server_Write m b w = (x, w')" "resp_sent w = Some y"
  shows "resp_sent w' = Some y \<and> proc_logs w' = proc_logs w \<and> pg_db w' = pg_db w"
  using assms by (cases w; cases "write_answers w")
    (auto simp: server_Write_def server_WriteHeader_def Let_def split: if_splits option.splits)

lemma http_Error_server:
  "(case resp_sent w of None \<Rightarrow> \<exists>h. resp_sent (http_Error (server_writer m) msg code w) = Some (code, h)
    | Some x \<Rightarrow> resp_sent (http_Error (server_writer m) msg code w) = Some x) \<and>
   proc_logs (http_Error (server_writer m) msg code w) = proc_logs w \<and>
   pg_db (http_Error (server_writer m) msg code w) = pg_db w"
proof -
  obtain hs where hs: "http_Error (server_writer m) msg code w =
      snd (server_Write m (msg @ [newline]) (server_WriteHeader code (w\<lparr>resp_Header := hs\<rparr>)))"
    by (cases w) (auto simp: http_Error_def server_writer_def)
  let ?v = "server_WriteHeader code (w\<lparr>resp_Header := hs\<rparr>)"
  have v: "resp_sent ?v = (case resp_sent w of None \<Rightarrow> Some (code, hs) | Some x \<Rightarrow> Some x)"
    "proc_logs ?v = proc_logs w" "pg_db ?v = pg_db w"
    by (cases w; simp add: server_WriteHeader_def split: option.splits)+
  obtain x w' where w': "server_Write m (msg @ [newline]) ?v = (x, w')" by fastforce
  show ?thesis
    using server_Write_frame[OF w'] v hs w' by (cases "resp_sent w") auto
qed

text \<open>
  C35: A panic of any handler below Recover does not get out: the request is answered with 500
  when nothing was sent before, and keeps the status it has otherwise; one line is logged, with
  the panic value, the stack, the path and the method; and the database stays as the handler
  left it.
\<close>

theorem panic_answered:
  assumes "inner (server_writer (rq_Method r)) r (fresh_response w) = (Panicked v stack, w1)"
  shows "let w' = serve_request (Recover (NewJSONLogger None) inner) r w in
    (case resp_sent w1 of None \<Rightarrow> \<exists>h. resp_sent w' = Some (500, h) | Some x \<Rightarrow> resp_sent w' = Some x) \<and>
    proc_logs w' = proc_logs w1 @ [\<lparr>log_level = LevelError, log_msg = msgPanic,
      log_attrs = [(''error'', LStr v), (''stack'', LStr stack), (''path'', LStr (rq_Path r)),
        (''method'', LStr (rq_Method r))]\<rparr>] \<and>
    pg_db w' = pg_db w1"
proof -
  have keep: "resp_sent v = Some x \<Longrightarrow> server_WriteHeader 200 v = v" for v :: "'a http_world_scheme" and x
    by (simp add: server_WriteHeader_def)
  let ?v = "log_Error (NewJSONLogger None) msgPanic [(''error'', LStr v), (''stack'', LStr stack),
    (''path'', LStr (rq_Path r)), (''method'', LStr (rq_Method r))] w1"
  have v: "resp_sent ?v = resp_sent w1" "pg_db ?v = pg_db w1" "proc_logs ?v = proc_logs w1 @
      [\<lparr>log_level = LevelError, log_msg = msgPanic, log_attrs = [(''error'', LStr v), (''stack'', LStr stack),
        (''path'', LStr (rq_Path r)), (''method'', LStr (rq_Method r))]\<rparr>]"
    by (cases w1; simp add: log_at_def LevelError_def)+
  let ?e = "http_Error (server_writer (rq_Method r)) (StatusText 500) 500 ?v"
  have "serve_request (Recover (NewJSONLogger None) inner) r w = server_WriteHeader 200 ?e"
    using assms by (simp add: serve_request_def Recover_def)
  also have "\<dots> = ?e"
  proof -
    have "\<exists>y. resp_sent ?e = Some y"
      using conjunct1[OF http_Error_server[where w = ?v and m = "rq_Method r" and msg = "StatusText 500" and code = 500]] by (cases "resp_sent ?v") (simp_all only: option.case, blast+)
    then show ?thesis using keep by blast
  qed
  finally have eq: "serve_request (Recover (NewJSONLogger None) inner) r w = ?e" .
  show ?thesis
    using http_Error_server[where w = ?v and m = "rq_Method r" and msg = "StatusText 500" and code = 500]
    unfolding Let_def eq v .
qed

section \<open>Stripe's retries\<close>

lemma webhook_accepts:
  assumes "verified ce app r = Some ev" "Marshal_Job (webhook_job ev) = Inr p"
    and "so_AcceptEvent (app_store app) (se_ID ev) (se_Type ev) p w = (Inr True, w1)"
  shows "\<exists>lg m as. handleStripeWebhook ce app rw r w = (Returned, rw_WriteHeader rw 204 (log_Info lg m as w1))"
proof -
  obtain out w' where op: "handleStripeWebhook ce app rw r w = (out, w')" by fastforce
  then show ?thesis
    by (cases rule: webhook_paths) (use assms op in \<open>auto\<close>)
qed

lemma webhook_skips:
  assumes "verified ce app r = Some ev" "Marshal_Job (webhook_job ev) = Inr p"
    and "so_AcceptEvent (app_store app) (se_ID ev) (se_Type ev) p w = (Inr False, w0)"
    and "so_Status (app_store app) (se_ID ev) w0 = (Inr es, w1)"
  shows "\<exists>lg m as. handleStripeWebhook ce app rw r w = (Returned, rw_WriteHeader rw 204 (log_Info lg m as w1))"
proof -
  obtain out w' where op: "handleStripeWebhook ce app rw r w = (out, w')" by fastforce
  then show ?thesis
    by (cases rule: webhook_paths) (use assms op in \<open>auto\<close>)
qed

lemma acked_run:
  assumes run: "handleStripeWebhook ce app (rec_rw (rq_Method r)) (with_logger r (request_id r w))
      (handler_world r (fresh_response w)) = (Returned, rw_WriteHeader (rec_rw (rq_Method r)) 204 (log_Info lg m as w1))"
    and r: "webhook_request r" and w1: "unanswered w1"
  shows "(\<exists>h. resp_sent (api ce redirect app r w) = Some (204, h)) \<and>
    pg_db (api ce redirect app r w) = pg_db w1 \<and> pg_slots (api ce redirect app r w) = pg_slots w1"
proof -
  let ?w4 = "rw_WriteHeader (rec_rw (rq_Method r)) 204 (log_Info lg m as w1)"
  have w4: "answered 204 ?w4" "pg_db ?w4 = pg_db w1" "pg_slots ?w4 = pg_slots w1"
    using WriteHeader_answers(1)[of "log_Info lg m as w1" 204 "rq_Method r"]
      WriteHeader_answers(2)[of "log_Info lg m as w1" "rq_Method r" 204] w1
    by (simp_all add: same_backend_def)
  have "mux_ServeHTTP redirect (routes ce app) (rec_rw (rq_Method r)) (with_logger r (request_id r w))
      (handler_world r (fresh_response w)) = (Returned, ?w4)"
    using run r by (simp add: mux_webhook)
  from serve_run[OF this w4(1)] w4(2,3) show ?thesis by simp
qed

lemma Status_alone_known:
  "pg_slots w = [] \<Longrightarrow> pg_text_ok ev \<Longrightarrow> processed_events (pg_db w) ev \<noteq> None \<Longrightarrow> \<exists>es. Status ev w = (Inr es, w)"
  by (auto simp: Status_def alone_defs sql_select_status_def)

lemma webhook_first:
  assumes "pg_slots w = []" "db_inv (pg_db w)" "app_store app = pg_store" "webhook_request r"
    and "verified ce app r = Some ev" "Marshal_Job (webhook_job ev) = Inr p"
    and "pg_text_ok (se_ID ev)" "pg_text_ok (se_Type ev)" "pg_text_ok p"
    and "processed_events (pg_db w) (se_ID ev) = None" "jsonb_cast (pg_db w) p = Some j"
  shows "(\<exists>h. resp_sent (api ce redirect app r w) = Some (204, h)) \<and>
    pg_db (api ce redirect app r w) = accepted_db (se_ID ev) (se_Type ev) j (pg_db w) \<and>
    pg_slots (api ce redirect app r w) = []"
proof -
  let ?v = "handler_world r (fresh_response w)"
  have "AcceptEvent (se_ID ev) (se_Type ev) p ?v =
      (Inr True, ?v\<lparr>pg_db := accepted_db (se_ID ev) (se_Type ev) j (pg_db ?v)\<rparr>)"
    by (rule AcceptEvent_alone_new) (use assms in \<open>simp_all add: resolve_frame\<close>)
  then have a: "so_AcceptEvent (app_store app) (se_ID ev) (se_Type ev) p ?v =
      (Inr True, ?v\<lparr>pg_db := accepted_db (se_ID ev) (se_Type ev) j (pg_db ?v)\<rparr>)"
    by (simp add: assms(3) pg_store_def)
  obtain lg m as where run: "handleStripeWebhook ce app (rec_rw (rq_Method r)) (with_logger r (request_id r w)) ?v =
      (Returned, rw_WriteHeader (rec_rw (rq_Method r)) 204
        (log_Info lg m as (?v\<lparr>pg_db := accepted_db (se_ID ev) (se_Type ev) j (pg_db ?v)\<rparr>)))"
    using webhook_accepts[where r = "with_logger r (request_id r w)" and ce = ce and rw = "rec_rw (rq_Method r)", OF _ assms(6) a] assms(5) by auto
  have "unanswered (?v\<lparr>pg_db := d\<rparr>) = unanswered ?v" "pg_slots (?v\<lparr>pg_db := d\<rparr>) = pg_slots ?v" for d
    by (cases ?v; simp add: unanswered_def)+
  with acked_run[OF run assms(4)] assms(1) show ?thesis by (simp add: resolve_frame)
qed

lemma webhook_again:
  assumes "pg_slots w = []" "app_store app = pg_store" "webhook_request r"
    and "verified ce app r = Some ev" "Marshal_Job (webhook_job ev) = Inr p"
    and "pg_text_ok (se_ID ev)" "pg_text_ok (se_Type ev)" "processed_events (pg_db w) (se_ID ev) \<noteq> None"
  shows "(\<exists>h. resp_sent (api ce redirect app r w) = Some (204, h)) \<and>
    pg_db (api ce redirect app r w) = pg_db w \<and> pg_slots (api ce redirect app r w) = []"
proof -
  let ?v = "handler_world r (fresh_response w)"
  have v: "pg_slots ?v = []" "processed_events (pg_db ?v) (se_ID ev) \<noteq> None" "unanswered ?v"
    using assms by (simp_all add: resolve_frame)
  have a: "so_AcceptEvent (app_store app) (se_ID ev) (se_Type ev) p ?v = (Inr False, ?v)"
    using AcceptEvent_alone_known[OF v(1) assms(6,7) v(2)] by (simp add: assms(2) pg_store_def)
  obtain es where s: "so_Status (app_store app) (se_ID ev) ?v = (Inr es, ?v)"
    using Status_alone_known[OF v(1) assms(6) v(2)] by (auto simp: assms(2) pg_store_def)
  obtain lg m as where run: "handleStripeWebhook ce app (rec_rw (rq_Method r)) (with_logger r (request_id r w)) ?v =
      (Returned, rw_WriteHeader (rec_rw (rq_Method r)) 204 (log_Info lg m as ?v))"
    using webhook_skips[where r = "with_logger r (request_id r w)" and ce = ce and rw = "rec_rw (rq_Method r)", OF _ assms(5) a s] assms(4) by auto
  from acked_run[OF run assms(3) v(3)] v(1) show ?thesis by (simp add: resolve_frame)
qed

text \<open>
  C17: Without faults a new event is answered with 204 and leaves exactly its accepted ledger row
  and its pending outbox row; a later request with the same event id (a retry of Stripe, signed
  anew, perhaps with another payload) is answered with 204 too and changes nothing in the
  database.
\<close>

theorem webhook_replay:
  assumes "pg_slots w = []" "db_inv (pg_db w)" "app_store app = pg_store"
    and "webhook_request r" "verified ce app r = Some ev" "Marshal_Job (webhook_job ev) = Inr p"
    and "pg_text_ok (se_ID ev)" "pg_text_ok (se_Type ev)" "pg_text_ok p"
    and "processed_events (pg_db w) (se_ID ev) = None" "jsonb_cast (pg_db w) p = Some j"
    and "webhook_request r'" "verified ce' app r' = Some ev'" "Marshal_Job (webhook_job ev') = Inr p'"
    and "se_ID ev' = se_ID ev" "pg_text_ok (se_Type ev')"
  shows "let w1 = api ce redirect app r w; w2 = api ce' redirect app r' w1 in
    (\<exists>h. resp_sent w1 = Some (204, h)) \<and>
    pg_db w1 = accepted_db (se_ID ev) (se_Type ev) j (pg_db w) \<and>
    (\<exists>h. resp_sent w2 = Some (204, h)) \<and> pg_db w2 = pg_db w1"
proof -
  note first = webhook_first[OF assms(1-11), of redirect]
  then have "processed_events (pg_db (api ce redirect app r w)) (se_ID ev') \<noteq> None"
    by (simp add: accepted_db_def assms(15))
  from webhook_again[OF _ assms(3,12-14) _ assms(16) this, of redirect] first assms(7,15)
  show ?thesis by (simp add: Let_def)
qed

section \<open>Probes\<close>

lemma Ping_result: "pg_db v = pg_db w \<Longrightarrow> pg_slots v = pg_slots w \<Longrightarrow> fst (Ping v) = fst (Ping w)"
  by (simp add: Ping_def pg_call_def Let_def split: fault.splits)

text \<open>
  C37: GET /livez is answered with 200 and leaves the database and the schedule of its
  statements as they are: it does not ask the database. GET /readyz is answered with 200 when
  the ping of the store succeeds and with 503 when it fails.
\<close>

theorem probes_answered:
  assumes "app_store app = pg_store" "db_inv (pg_db w)" "rq_Method r = ''GET''"
  shows "(rq_EscapedPath r = ''/livez'' \<longrightarrow>
      (\<exists>h. resp_sent (api ce redirect app r w) = Some (200, h)) \<and>
      pg_db (api ce redirect app r w) = pg_db w \<and> pg_slots (api ce redirect app r w) = pg_slots w) \<and>
    (rq_EscapedPath r = ''/readyz'' \<longrightarrow>
      (\<exists>h. resp_sent (api ce redirect app r w) =
         Some (case fst (Ping w) of Inr _ \<Rightarrow> 200 | Inl _ \<Rightarrow> 503, h)))"
proof (intro conjI impI)
  let ?v = "handler_world r (fresh_response w)" and ?r = "with_logger r (request_id r w)"
  let ?rw = "rec_rw (rq_Method r)"
  {
    assume p: "rq_EscapedPath r = ''/livez''"
    obtain out w4 where run: "handleLivez app ?rw ?r ?v = (out, w4)" by fastforce
    have mux: "mux_ServeHTTP redirect (routes ce app) ?rw ?r ?v = handleLivez app ?rw ?r ?v"
      using p assms(3) by (simp add: mux_ServeHTTP_def clean_routes routes_def path_matches_def
          method_matches_def route_segments)
    from api_pg.livez_ran_ok[OF run] assms(2) have ok: "out = Returned" "answered 200 w4"
      "pg_db w4 = pg_db w" "pg_slots w4 = pg_slots w" by (simp_all add: resolve_frame)
    from serve_run[OF mux[unfolded run ok(1)] ok(2)] ok(3,4)
    show "\<exists>h. resp_sent (api ce redirect app r w) = Some (200, h)"
      "pg_db (api ce redirect app r w) = pg_db w" "pg_slots (api ce redirect app r w) = pg_slots w" by simp_all
  }
  assume p: "rq_EscapedPath r = ''/readyz''"
  let ?h = "rw_Header_Set ?rw ''Content-Type'' ''application/json; charset=utf-8'' ?v"
  obtain out w4 where run: "handleReadyz app ?rw ?r ?v = (out, w4)" by fastforce
  have mux: "mux_ServeHTTP redirect (routes ce app) ?rw ?r ?v = handleReadyz app ?rw ?r ?v"
    using p assms(3) by (simp add: mux_ServeHTTP_def clean_routes routes_def path_matches_def
        method_matches_def route_segments)
  have "pg_db ?h = pg_db w" "pg_slots ?h = pg_slots w"
    using header_frame(1)[of ?v "rq_Method r" "''Content-Type''" "''application/json; charset=utf-8''"]
    by (simp_all add: same_backend_def resolve_frame)
  from Ping_result[OF this] have ping: "fst (so_Ping pg_store ?h) = fst (Ping w)"
    by (simp add: pg_store_def)
  have v: "db_inv (pg_db ?v)" "unanswered ?v" using assms(2) by (simp_all add: resolve_frame)
  note ran = api_pg.readyz_ran_ok[OF run assms(1) v, unfolded ping]
  have ok: "out = Returned" "answered (case fst (Ping w) of Inr _ \<Rightarrow> 200 | Inl _ \<Rightarrow> 503) w4"
    using conjunct1[OF ran] conjunct2[OF conjunct2[OF ran]] by (cases "fst (Ping w)"; simp)+
  from serve_run[OF mux[unfolded run ok(1)] ok(2)]
  show "\<exists>h. resp_sent (api ce redirect app r w) =
      Some (case fst (Ping w) of Inr _ \<Rightarrow> 200 | Inl _ \<Rightarrow> 503, h)" by blast
qed

section \<open>Concrete inputs\<close>

definition api_on :: "database \<Rightarrow> slot list \<Rightarrow> api_world" where
  "api_on db ss = \<lparr>proc_logs = [], pg_db = db, pg_slots = ss, resp_Header = [], resp_sent = None,
     resp_body = [], write_answers = [], recorder = fresh_recorder,
     uuid_source = (\<lambda>n. replicate 36 CHR ''0''), uuid_drawn = 0,
     clock = (\<lambda>n. int n * 1000000), clock_read = 0\<rparr>"

lemma api_on_sel [simp]:
  "pg_db (api_on db ss) = db" "pg_slots (api_on db ss) = ss" "proc_logs (api_on db ss) = []"
  "uuid_source (api_on db ss) n = replicate 36 CHR ''0''"
  by (simp_all add: api_on_def)

text \<open>A verification that accepts the signature \<open>good\<close>.\<close>

definition test_event :: stripe_Event where
  "test_event = \<lparr>se_ID = ''evt_1'', se_Type = ''invoice.paid'', se_Data = Some (Some ''{}'')\<rparr>"

definition test_verify :: "string \<Rightarrow> string \<Rightarrow> string \<Rightarrow> stripe_Event result" where
  "test_verify body sig secret =
     (if sig = ''good'' then Inr test_event else Inl (ErrNew ''no valid signature''))"

definition test_redirect :: "string \<Rightarrow> api_world handler" where
  "test_redirect p rw r w = (Returned, rw_WriteHeader rw 307 (rw_Header_Set rw ''Location'' p w))"

definition test_app :: "api_world App" where
  "test_app = NewApp \<lparr>StripeWebhookSecret = ''whsec'', cfg_DatabaseURL = ''dsn'', Port = ''8080''\<rparr>
     (NewJSONLogger None) pg_store"

definition test_request :: "string \<Rightarrow> string \<Rightarrow> string \<Rightarrow> request" where
  "test_request method path sig = \<lparr>rq_Method = method, rq_Path = path, rq_EscapedPath = path,
     rq_RemoteAddr = ''10.0.0.1:4242'', rq_Header = [(''Stripe-Signature'', sig)],
     rq_Body = (''{}'', None), rq_Context = context_Background\<rparr>"

abbreviation "test_webhook sig \<equiv> test_request ''POST'' ''/webhooks/stripe'' sig"

lemma test_app_store [simp]: "app_store test_app = pg_store"
  by (simp add: test_app_def NewApp_def)

lemma test_webhook_request [simp]: "webhook_request (test_webhook sig)"
  by (simp add: webhook_request_def test_request_def)

lemma test_verified:
  "verified test_verify test_app (test_webhook ''good'') = Some test_event"
  "verified test_verify test_app (test_webhook ''bad'') = None"
proof -
  have k: "canonical_key ''Stripe-Signature'' = ''Stripe-Signature''" by code_simp
  show "verified test_verify test_app (test_webhook ''good'') = Some test_event"
    "verified test_verify test_app (test_webhook ''bad'') = None"
    by (simp_all add: verified_def test_request_def ReadAll_MaxBytes_def maxStripeWebhookBody_def
        Header_Get_def k test_verify_def)
qed

lemma test_job: "Marshal_Job (webhook_job test_event) =
    Inr ''{\"stripe_event_id\":\"evt_1\",\"event_type\":\"invoice.paid\",\"payload\":{}}''"
  by code_simp

definition test_payload :: string where
  "test_payload = ''{\"stripe_event_id\":\"evt_1\",\"event_type\":\"invoice.paid\",\"payload\":{}}''"

lemma test_payload_ok: "pg_text_ok test_payload"
  by code_simp

abbreviation test_api :: "request \<Rightarrow> api_world \<Rightarrow> api_world" where
  "test_api \<equiv> api test_verify test_redirect test_app"

abbreviation empty_api :: api_world where "empty_api \<equiv> api_on (empty_database test_cast) []"

lemma test_first:
  "(\<exists>h. resp_sent (test_api (test_webhook ''good'') empty_api) = Some (204, h)) \<and>
   pg_db (test_api (test_webhook ''good'') empty_api) =
     accepted_db ''evt_1'' ''invoice.paid'' test_payload (empty_database test_cast)"
  using webhook_first[of empty_api test_app "test_webhook ''good''" test_verify test_event test_payload test_payload
      test_redirect] test_job
  by (simp add: test_verified test_payload_ok test_payload_def[symmetric] test_cast_def test_event_def)

theorem acknowledged_recorded_witness:
  "\<exists>l. processed_events (pg_db (test_api (test_webhook ''good'') empty_api)) ''evt_1'' = Some l \<and>
     (pe_status l = StatusAccepted \<longrightarrow>
        ''evt_1'' \<in> ob_event_id ` set (outbox_events (pg_db (test_api (test_webhook ''good'') empty_api))))"
proof -
  obtain h where "resp_sent (test_api (test_webhook ''good'') empty_api) = Some (204, h)" using test_first by blast
  from acknowledged_recorded[OF _ _ _ this] show ?thesis by (simp add: test_verified test_event_def)
qed

theorem unverified_rejected_witness:
  "\<exists>h. resp_sent (test_api (test_webhook ''bad'') empty_api) = Some (400, h) \<and>
    pg_db (test_api (test_webhook ''bad'') empty_api) = empty_database test_cast"
  using unverified_rejected[of "test_webhook ''bad''" empty_api test_app test_verify test_redirect]
  by (simp add: test_verified) (simp add: test_request_def)

theorem request_logged_witness:
  "\<exists>i code h es ms. resp_sent (test_api (test_webhook ''good'') empty_api) = Some (code, h) \<and>
     proc_logs (test_api (test_webhook ''good'') empty_api) =
       started i (test_webhook ''good'') # es @ [completed i (test_webhook ''good'') code ms]"
  using request_logged[of "test_webhook ''good''" empty_api test_app test_verify test_redirect]
    webhook_direct[OF test_webhook_request] webhook_not_probe[OF test_webhook_request] by auto

theorem panic_answered_witness:
  "\<exists>h. resp_sent (serve_request (Recover (NewJSONLogger None)
      (\<lambda>rw r w. (Panicked ''boom'' ''goroutine 1'', w))) (test_webhook ''good'') empty_api) = Some (500, h)"
  using panic_answered[of "\<lambda>rw r w. (Panicked ''boom'' ''goroutine 1'', w)" "test_webhook ''good''" empty_api
      "''boom''" "''goroutine 1''" "fresh_response empty_api"]
  by (simp add: Let_def)

theorem webhook_replay_witness:
  "let w1 = test_api (test_webhook ''good'') empty_api; w2 = test_api (test_webhook ''good'') w1 in
    pg_db w1 = accepted_db ''evt_1'' ''invoice.paid'' test_payload (empty_database test_cast) \<and> pg_db w2 = pg_db w1"
  using webhook_replay[of empty_api test_app "test_webhook ''good''" test_verify test_event test_payload test_payload
      "test_webhook ''good''" test_verify test_event test_payload test_redirect] test_job
  by (simp add: test_verified test_payload_ok test_payload_def[symmetric] test_cast_def test_event_def Let_def)

theorem probes_answered_witness:
  "\<exists>h. resp_sent (test_api (test_request ''GET'' ''/readyz'' []) (api_on (empty_database test_cast)
     [\<lparr>sl_others = [], sl_fault = FailBefore ''connection refused''\<rparr>])) = Some (503, h)"
  using probes_answered[of test_app "api_on (empty_database test_cast)
     [\<lparr>sl_others = [], sl_fault = FailBefore ''connection refused''\<rparr>]" "test_request ''GET'' ''/readyz'' []"
     test_verify test_redirect]
  by (simp add: test_request_def Ping_def pg_call_def Let_def)

end
