(* ===== verification/Api_Main.thy ===== *)
theory Api_Main
  imports Api_Correct
begin

text \<open>
  \<open>main\<close> of cmd/api: the start, and then two goroutines (the main one, which waits for a signal
  and shuts down, and the one of the server) as a step relation over the state of the process.
\<close>

section \<open>The start\<close>

text \<open>An exit code, or the app that is served and its address.\<close>

definition api_start ::
  "(env \<Rightarrow> env) \<Rightarrow> env \<Rightarrow> (string \<Rightarrow> go_error option) \<Rightarrow> 's api_world_scheme
   \<Rightarrow> (nat + 's api_world_scheme App \<times> string) \<times> 's api_world_scheme" where
  "api_start dotenv environ open_err w =
     (let logger = NewJSONLogger None
      in case Load dotenv environ of
        Inl err \<Rightarrow>
          (Inl 1, log_Error logger msgConfigLoadFailed [(''error'', LStr (Error_string err))] w)
      | Inr cfg \<Rightarrow>
     (case NewPostgres open_err (cfg_DatabaseURL cfg) w of
        (Inl err, w1) \<Rightarrow>
          (Inl 1, log_Error logger msgStoreInitFailed [(''error'', LStr (Error_string err))] w1)
      | (Inr _, w1) \<Rightarrow> (Inr (NewApp cfg logger pg_store, CHR '':'' # Port cfg), w1)))"

section \<open>The process\<close>

datatype main_phase = WaitingForSignal | ShuttingDown | Exited nat
datatype server_phase = NotStarted | Listening | Closed

text \<open>
  \<open>ap_inflight\<close>: the requests that were accepted and are not handled yet.  \<open>ap_acked\<close> is a
  history: the events of the webhook requests that were answered with 204.
\<close>

record 'w api_process =
  ap_main :: main_phase
  ap_server :: server_phase
  ap_inflight :: "request list"
  ap_world :: 'w
  ap_acked :: "string set"

definition exited :: "'w api_process \<Rightarrow> bool" where
  "exited p \<longleftrightarrow> (case ap_main p of Exited _ \<Rightarrow> True | _ \<Rightarrow> False)"

definition newly_acked ::
  "(string \<Rightarrow> string \<Rightarrow> string \<Rightarrow> stripe_Event result) \<Rightarrow> 'w App \<Rightarrow> request \<Rightarrow> 's http_world_scheme \<Rightarrow> string set"
where
  "newly_acked ce app r w =
     (case (verified ce app r, resp_sent w) of
        (Some ev, Some (code, _)) \<Rightarrow> if webhook_request r \<and> code = 204 then {se_ID ev} else {}
      | _ \<Rightarrow> {})"

text \<open>
  \<open>listening\<close>, \<open>accepting\<close>, \<open>handling\<close> and \<open>failing\<close> are steps of the server, \<open>signalled\<close>,
  \<open>closing\<close>, \<open>drained\<close> and \<open>abandoned\<close> of main: \<open>Shutdown\<close> closes the listeners, which ends
  \<open>ListenAndServe\<close> with \<open>ErrServerClosed\<close> (not logged), and then waits for the accepted
  requests, or answers an error when its context ends first.  \<open>scheduling\<close> is the outside: the
  faults and the transactions of others that the next statements will meet.
\<close>

inductive api_step ::
  "'s api_world_scheme App \<Rightarrow> (string \<Rightarrow> 's api_world_scheme handler) \<Rightarrow> string
   \<Rightarrow> 's api_world_scheme api_process \<Rightarrow> 's api_world_scheme api_process \<Rightarrow> bool"
  for app redirect addr where
  listening: "\<lbrakk> \<not> exited p; ap_server p = NotStarted \<rbrakk> \<Longrightarrow>
    api_step app redirect addr p (p\<lparr>ap_server := Listening,
      ap_world := log_Info (NewJSONLogger None) msgServerListening [(''addr'', LStr addr)] (ap_world p)\<rparr>)"
| accepting: "\<lbrakk> \<not> exited p; ap_server p = Listening \<rbrakk> \<Longrightarrow>
    api_step app redirect addr p (p\<lparr>ap_inflight := ap_inflight p @ [r]\<rparr>)"
| handling: "\<lbrakk> \<not> exited p; r \<in> set (ap_inflight p); w = api ce redirect app r (ap_world p) \<rbrakk> \<Longrightarrow>
    api_step app redirect addr p (p\<lparr>ap_inflight := remove1 r (ap_inflight p), ap_world := w,
      ap_acked := ap_acked p \<union> newly_acked ce app r w\<rparr>)"
| failing: "\<lbrakk> \<not> exited p; ap_server p = Listening \<rbrakk> \<Longrightarrow>
    api_step app redirect addr p (p\<lparr>ap_main := Exited 1,
      ap_world := log_Error (NewJSONLogger None) msgServerListenError
        [(''error'', LStr (Error_string err)), (''addr'', LStr addr)] (ap_world p)\<rparr>)"
| signalled: "ap_main p = WaitingForSignal \<Longrightarrow>
    api_step app redirect addr p (p\<lparr>ap_main := ShuttingDown,
      ap_world := log_Info (NewJSONLogger None) msgShuttingDown [(''signal'', LStr sig)] (ap_world p)\<rparr>)"
| closing: "\<lbrakk> ap_main p = ShuttingDown; ap_server p \<noteq> Closed \<rbrakk> \<Longrightarrow>
    api_step app redirect addr p (p\<lparr>ap_server := Closed\<rparr>)"
| drained: "\<lbrakk> ap_main p = ShuttingDown; ap_server p = Closed; ap_inflight p = [] \<rbrakk> \<Longrightarrow>
    api_step app redirect addr p (p\<lparr>ap_main := Exited 0\<rparr>)"
| abandoned: "\<lbrakk> ap_main p = ShuttingDown; ap_server p = Closed \<rbrakk> \<Longrightarrow>
    api_step app redirect addr p (p\<lparr>ap_main := Exited 0,
      ap_world := log_Error (NewJSONLogger None) msgServerShutdownError
        [(''error'', LStr (Error_string err))] (ap_world p)\<rparr>)"
| scheduling: "\<not> exited p \<Longrightarrow>
    api_step app redirect addr p (p\<lparr>ap_world := (ap_world p)\<lparr>pg_slots := ss\<rparr>\<rparr>)"

inductive_cases api_stepE: "api_step app redirect addr p p'"

inductive api_reaches ::
  "'s api_world_scheme App \<Rightarrow> (string \<Rightarrow> 's api_world_scheme handler) \<Rightarrow> string
   \<Rightarrow> 's api_world_scheme api_process \<Rightarrow> 's api_world_scheme api_process \<Rightarrow> bool"
  for app redirect addr p0 where
  start: "api_reaches app redirect addr p0 p0"
| step: "api_reaches app redirect addr p0 p \<Longrightarrow> api_step app redirect addr p p' \<Longrightarrow> api_reaches app redirect addr p0 p'"

definition api_boot :: "'w \<Rightarrow> 'w api_process" where
  "api_boot w = \<lparr>ap_main = WaitingForSignal, ap_server = NotStarted, ap_inflight = [], ap_world = w, ap_acked = {}\<rparr>"

text \<open>The whole process: the start fails, or the two goroutines run.\<close>

definition api_main_reaches ::
  "(env \<Rightarrow> env) \<Rightarrow> env \<Rightarrow> (string \<Rightarrow> go_error option) \<Rightarrow> (string \<Rightarrow> 's api_world_scheme handler)
   \<Rightarrow> 's api_world_scheme \<Rightarrow> 's api_world_scheme api_process \<Rightarrow> bool" where
  "api_main_reaches dotenv environ open_err redirect w p \<longleftrightarrow>
     (case api_start dotenv environ open_err w of
        (Inl code, w1) \<Rightarrow> p = (api_boot w1)\<lparr>ap_main := Exited code\<rparr>
      | (Inr (app, addr), w1) \<Rightarrow> api_reaches app redirect addr (api_boot w1) p)"

section \<open>Every acknowledged event is in the ledger\<close>

definition log_names :: "'a proc_scheme \<Rightarrow> string list" where
  "log_names w = map log_msg (proc_logs w)"

definition api_inv :: "'s api_world_scheme api_process \<Rightarrow> bool" where
  "api_inv p \<longleftrightarrow> db_inv (pg_db (ap_world p)) \<and> (\<forall>ev \<in> ap_acked p. recorded (ap_world p) ev)"

lemma recorded_frame [simp]:
  "recorded (log_at l lg m as w) = recorded w" "recorded (w\<lparr>pg_slots := ss\<rparr>) = recorded w"
  "pg_db (w\<lparr>pg_slots := ss\<rparr>) = pg_db w" "log_names (w\<lparr>pg_slots := ss\<rparr>) = log_names w"
  by (cases w; simp add: recorded_def fun_eq_iff log_at_def log_names_def)+

lemma log_names_log [simp]:
  "0 \<le> l \<Longrightarrow> log_names (log_at l (NewJSONLogger None) m as w) = log_names w @ [m]"
  by (simp add: log_names_def log_at_def)

lemma levels [simp]: "0 \<le> LevelInfo" "0 \<le> LevelError"
  by (simp_all add: LevelInfo_def LevelError_def)

text \<open>What is known of \<open>http.RedirectHandler\<close>: it writes a response and does nothing else.\<close>

definition redirect_ok :: "(string \<Rightarrow> 's api_world_scheme handler) \<Rightarrow> bool" where
  "redirect_ok redirect \<longleftrightarrow>
     (\<forall>path m r w out w'. redirect path (rec_rw m) r w = (out, w') \<longrightarrow> unanswered w \<longrightarrow>
        out = Returned \<and> (\<exists>code. answered code w') \<and> same_backend w w')"

lemma redirected:
  assumes "\<not> direct r" "redirect_ok redirect"
  shows "pg_db (api ce redirect app r w) = pg_db w \<and> pg_slots (api ce redirect app r w) = pg_slots w \<and>
    (\<exists>es. proc_logs (api ce redirect app r w) = proc_logs w @ es)"
proof -
  let ?v = "handler_world r (fresh_response w)" and ?r = "with_logger r (request_id r w)"
  obtain out w4 where run: "redirect (cleanPath (rq_EscapedPath r)) (rec_rw (rq_Method r)) ?r ?v = (out, w4)"
    by fastforce
  have "unanswered ?v" by (simp add: resolve_frame)
  with assms(2) run obtain code where ok: "out = Returned" "answered code w4" "same_backend ?v w4"
    unfolding redirect_ok_def by blast
  have "mux_ServeHTTP redirect (routes ce app) (rec_rw (rq_Method r)) ?r ?v = (Returned, w4)"
    using assms(1) run ok(1) by (simp add: mux_ServeHTTP_def direct_def)
  from serve_run[OF this ok(2)] ok(3) show ?thesis by (auto simp: same_backend_def resolve_frame)
qed

lemma request_keeps:
  assumes "db_inv (pg_db w)" "app_store app = pg_store" "redirect_ok redirect"
  shows "db_inv (pg_db (api ce redirect app r w)) \<and> (\<forall>x. recorded w x \<longrightarrow> recorded (api ce redirect app r w) x) \<and>
    set (log_names w) \<subseteq> set (log_names (api ce redirect app r w))"
proof (cases "direct r")
  case True
  from api_pg.served[OF this assms(1,2), of ce redirect] show ?thesis by (auto simp: log_names_def)
next
  case False
  from redirected[OF this assms(3), of ce app w] assms(1) show ?thesis
    by (auto simp: log_names_def recorded_def)
qed

lemma newly_acked_recorded:
  assumes "db_inv (pg_db w)" "app_store app = pg_store" "ev \<in> newly_acked ce app r (api ce redirect app r w)"
  shows "recorded (api ce redirect app r w) ev"
proof -
  obtain e h where e: "webhook_request r" "verified ce app r = Some e" "se_ID e = ev"
    "resp_sent (api ce redirect app r w) = Some (204, h)"
    using assms(3) by (auto simp: newly_acked_def split: option.splits if_splits)
  with api_pg.webhook_served[OF e(1) assms(1,2), of ce redirect] show ?thesis by auto
qed

text \<open>The names of the lines a process logged before it ended.\<close>

definition exit_ok :: "'s api_world_scheme api_process \<Rightarrow> bool" where
  "exit_ok p \<longleftrightarrow>
     (case ap_main p of
        WaitingForSignal \<Rightarrow> True
      | ShuttingDown \<Rightarrow> msgShuttingDown \<in> set (log_names (ap_world p))
      | Exited code \<Rightarrow>
          code = 0 \<and> msgShuttingDown \<in> set (log_names (ap_world p)) \<and>
            (ap_inflight p = [] \<or> msgServerShutdownError \<in> set (log_names (ap_world p))) \<or>
          code = 1 \<and> msgServerListenError \<in> set (log_names (ap_world p)))"

lemma api_step_inv:
  assumes "api_step app redirect addr p p'" "app_store app = pg_store" "redirect_ok redirect" "api_inv p" "exit_ok p"
  shows "api_inv p' \<and> exit_ok p'"
  using assms(1)
proof cases
  case (handling r w ce)
  have inv: "db_inv (pg_db (ap_world p))" "\<And>ev. ev \<in> ap_acked p \<Longrightarrow> recorded (ap_world p) ev"
    using assms(4) by (auto simp: api_inv_def)
  note k = request_keeps[OF inv(1) assms(2,3), of ce r, folded handling(4)]
  have "recorded w ev" if "ev \<in> ap_acked p \<union> newly_acked ce app r w" for ev
    using that k inv(2) newly_acked_recorded[OF inv(1) assms(2), of ev ce r redirect] handling(4) by blast
  moreover have "exit_ok (p\<lparr>ap_inflight := remove1 r (ap_inflight p), ap_world := w,
      ap_acked := ap_acked p \<union> newly_acked ce app r w\<rparr>)"
    using assms(5) handling(2) k by (auto simp: exit_ok_def exited_def split: main_phase.splits)
  ultimately show ?thesis unfolding handling(1) using k by (simp add: api_inv_def)
qed (use assms(4,5) in \<open>auto simp: api_inv_def exit_ok_def exited_def split: main_phase.splits\<close>)

lemma api_reaches_inv:
  assumes "api_reaches app redirect addr p0 p" "app_store app = pg_store" "redirect_ok redirect"
    and "api_inv p0" "exit_ok p0"
  shows "api_inv p \<and> exit_ok p"
  using assms(1) by induction (use assms(2-5) api_step_inv in blast)+

lemma api_boot_inv: "db_inv (pg_db w) \<Longrightarrow> api_inv (api_boot w) \<and> exit_ok (api_boot w)"
  by (simp add: api_inv_def exit_ok_def api_boot_def)

lemma api_start_cases:
  assumes "api_start dotenv environ open_err w = (r, w1)" "db_inv (pg_db w)"
  shows "(\<exists>app addr. r = Inr (app, addr) \<and> app_store app = pg_store \<and> db_inv (pg_db w1)) \<or>
    r = Inl 1 \<and> set (log_names w1) \<inter> {msgConfigLoadFailed, msgStoreInitFailed} \<noteq> {}"
proof (cases "Load dotenv environ")
  case (Inl err)
  with assms(1) show ?thesis by (auto simp: api_start_def Let_def)
next
  case (Inr cfg)
  obtain u w2 where u: "NewPostgres open_err (cfg_DatabaseURL cfg) w = (u, w2)" by fastforce
  from preservesD(1)[OF preserves_NewPostgres u assms(2)] u Inr assms(1) show ?thesis
    by (cases u) (auto simp: api_start_def Let_def NewApp_def)
qed

text \<open>
  C13: Along every run of the API process from a database that satisfies the invariant (start,
  requests in any order and number, faults, other clients, a signal, shutdown, exit), every
  event of a webhook request that was answered with 204 is in the ledger, and if it is there as
  accepted its row is in the outbox.
\<close>

theorem acknowledged_stay_recorded:
  assumes "api_main_reaches dotenv environ open_err redirect w p" "db_inv (pg_db w)" "redirect_ok redirect"
    and "ev \<in> ap_acked p"
  shows "\<exists>l. processed_events (pg_db (ap_world p)) ev = Some l \<and>
    (pe_status l = StatusAccepted \<longrightarrow> ev \<in> ob_event_id ` set (outbox_events (pg_db (ap_world p))))"
proof -
  obtain r w1 where start: "api_start dotenv environ open_err w = (r, w1)" by fastforce
  with assms(1,4) obtain app addr where r: "r = Inr (app, addr)"
    "api_reaches app redirect addr (api_boot w1) p"
    by (cases r) (auto simp: api_main_reaches_def api_boot_def)
  have "api_inv p"
    using api_reaches_inv[OF r(2) _ assms(3)] api_start_cases[OF start assms(2)] r(1) api_boot_inv by blast
  with assms(4) show ?thesis
    unfolding api_inv_def db_inv_def outbox_complete_def recorded_def by blast
qed

text \<open>
  C36: When the API process has exited, its code is 0 or 1. With 0 it had logged shutting_down
  and either has no accepted request left unhandled or has logged server_shutdown_error; with 1
  it has logged why: config_load_failed, store_init_failed or server_listen_error.
\<close>

theorem api_exit_codes:
  assumes "api_main_reaches dotenv environ open_err redirect w p" "db_inv (pg_db w)" "redirect_ok redirect"
    and "ap_main p = Exited code"
  shows "code = 0 \<and> msgShuttingDown \<in> set (log_names (ap_world p)) \<and>
      (ap_inflight p = [] \<or> msgServerShutdownError \<in> set (log_names (ap_world p))) \<or>
    code = 1 \<and> set (log_names (ap_world p)) \<inter>
      {msgConfigLoadFailed, msgStoreInitFailed, msgServerListenError} \<noteq> {}"
proof -
  obtain r w1 where start: "api_start dotenv environ open_err w = (r, w1)" by fastforce
  show ?thesis
  proof (cases r)
    case (Inl c)
    with assms(1,4) start have "c = code" "ap_world p = w1" by (auto simp: api_main_reaches_def api_boot_def)
    with api_start_cases[OF start assms(2)] Inl show ?thesis by auto
  next
    case (Inr x)
    then obtain app addr where r: "r = Inr (app, addr)" by (cases x) simp
    with assms(1) start have "api_reaches app redirect addr (api_boot w1) p" by (simp add: api_main_reaches_def)
    from api_reaches_inv[OF this _ assms(3)] api_start_cases[OF start assms(2)] r api_boot_inv
    have "exit_ok p" by blast
    with assms(4) show ?thesis by (auto simp: exit_ok_def)
  qed
qed

section \<open>Concrete runs\<close>

lemma test_redirect_ok: "redirect_ok test_redirect"
  unfolding redirect_ok_def
proof (intro allI impI)
  fix path m r and w w' :: api_world and out
  assume run: "test_redirect path (rec_rw m) r w = (out, w')" and un: "unanswered w"
  let ?h = "rw_Header_Set (rec_rw m) ''Location'' path w"
  have w': "out = Returned" "w' = rw_WriteHeader (rec_rw m) 307 ?h"
    using run by (simp_all add: test_redirect_def)
  have "unanswered ?h" using un by (simp add: header_frame)
  then have "answered 307 w'" unfolding w'(2) by (rule WriteHeader_answers(1))
  moreover have "same_backend w w'"
    unfolding w'(2) using same_backend_trans[OF header_frame(1) WriteHeader_answers(2)] .
  ultimately show "out = Returned \<and> (\<exists>code. answered code w') \<and> same_backend w w'" using w'(1) by blast
qed

definition test_env :: env where
  "test_env k = (if k = ''STRIPE_WEBHOOK_SECRET'' then ''whsec'' else if k = ''DATABASE_URL'' then ''dsn'' else [])"

definition test_open :: "string \<Rightarrow> go_error option" where "test_open dsn = None"

lemma test_start:
  "api_start (\<lambda>e. e) test_env test_open empty_api = (Inr (test_app, '':8080''), empty_api)"
proof -
  have "Load (\<lambda>e. e) test_env = Inr \<lparr>StripeWebhookSecret = ''whsec'', cfg_DatabaseURL = ''dsn'', Port = ''8080''\<rparr>"
    by code_simp
  moreover have "NewPostgres test_open ''dsn'' empty_api = (Inr (), empty_api)"
    by (simp add: NewPostgres_def test_open_def Ping_def pg_call_alone_eq)
  ultimately show ?thesis by (simp add: api_start_def test_app_def Let_def)
qed

lemma test_main:
  "api_main_reaches (\<lambda>e. e) test_env test_open test_redirect empty_api p \<longleftrightarrow>
     api_reaches test_app test_redirect '':8080'' (api_boot empty_api) p"
  by (simp add: api_main_reaches_def test_start)

text \<open>A run that serves one webhook request, and one that is stopped before any came.\<close>

lemma test_serves:
  "\<exists>p. api_reaches test_app test_redirect '':8080'' (api_boot empty_api) p \<and> ''evt_1'' \<in> ap_acked p"
proof -
  let ?r = "test_webhook ''good''"
  let ?p0 = "api_boot empty_api"
  let ?p1 = "?p0\<lparr>ap_server := Listening,
      ap_world := log_Info (NewJSONLogger None) msgServerListening [(''addr'', LStr '':8080'')] (ap_world ?p0)\<rparr>"
  let ?p2 = "?p1\<lparr>ap_inflight := ap_inflight ?p1 @ [?r]\<rparr>"
  let ?w = "test_api ?r (ap_world ?p2)"
  let ?p3 = "?p2\<lparr>ap_inflight := remove1 ?r (ap_inflight ?p2), ap_world := ?w,
      ap_acked := ap_acked ?p2 \<union> newly_acked test_verify test_app ?r ?w\<rparr>"
  have "api_step test_app test_redirect '':8080'' ?p0 ?p1"
    by (rule api_step.listening) (simp_all add: api_boot_def exited_def)
  moreover have "api_step test_app test_redirect '':8080'' ?p1 ?p2"
    by (rule api_step.accepting) (simp_all add: api_boot_def exited_def)
  moreover have "api_step test_app test_redirect '':8080'' ?p2 ?p3"
    by (rule api_step.handling) (simp_all add: api_boot_def exited_def)
  ultimately have "api_reaches test_app test_redirect '':8080'' ?p0 ?p3"
    by (meson api_reaches.intros)
  moreover have "\<exists>h. resp_sent ?w = Some (204, h)"
    using webhook_first[of "ap_world ?p2" test_app ?r test_verify test_event test_payload test_payload
      test_redirect] test_job
    by (simp add: api_boot_def test_verified test_payload_ok test_payload_def[symmetric] test_cast_def test_event_def)
  then have "''evt_1'' \<in> newly_acked test_verify test_app ?r ?w"
    by (auto simp: newly_acked_def test_verified test_event_def)
  then have "''evt_1'' \<in> ap_acked ?p3" by simp
  ultimately show ?thesis by blast
qed

theorem acknowledged_stay_recorded_witness:
  "\<exists>p l. api_main_reaches (\<lambda>e. e) test_env test_open test_redirect empty_api p \<and> ''evt_1'' \<in> ap_acked p \<and>
     processed_events (pg_db (ap_world p)) ''evt_1'' = Some l"
proof -
  from test_serves obtain p where p: "api_main_reaches (\<lambda>e. e) test_env test_open test_redirect empty_api p"
    "''evt_1'' \<in> ap_acked p" unfolding test_main by blast
  from acknowledged_stay_recorded[OF p(1) _ test_redirect_ok p(2)] p show ?thesis by auto
qed

theorem api_exit_codes_witness:
  "\<exists>p. api_main_reaches (\<lambda>e. e) test_env test_open test_redirect empty_api p \<and> ap_main p = Exited 0 \<and>
     msgShuttingDown \<in> set (log_names (ap_world p))"
proof -
  let ?p0 = "api_boot empty_api"
  let ?p1 = "?p0\<lparr>ap_main := ShuttingDown,
      ap_world := log_Info (NewJSONLogger None) msgShuttingDown [(''signal'', LStr ''terminated'')] (ap_world ?p0)\<rparr>"
  let ?p2 = "?p1\<lparr>ap_server := Closed\<rparr>"
  let ?p3 = "?p2\<lparr>ap_main := Exited 0\<rparr>"
  have "api_step test_app test_redirect '':8080'' ?p0 ?p1"
    by (rule api_step.signalled) (simp add: api_boot_def)
  moreover have "api_step test_app test_redirect '':8080'' ?p1 ?p2"
    by (rule api_step.closing) (simp_all add: api_boot_def)
  moreover have "api_step test_app test_redirect '':8080'' ?p2 ?p3"
    by (rule api_step.drained) (simp_all add: api_boot_def)
  ultimately have p: "api_main_reaches (\<lambda>e. e) test_env test_open test_redirect empty_api ?p3"
    unfolding test_main by (meson api_reaches.intros)
  from api_exit_codes[OF p _ test_redirect_ok, of 0] p show ?thesis by auto
qed

end
