(* ===== verification/Pipeline.thy ===== *)
theory Pipeline
  imports Publisher_Correct "HOL-Library.Product_Lexorder" "HOL-Library.Option_ord"
begin

text \<open>
  The abstract pipeline: how far an event and each of its deliveries has come.  Every transaction
  of the program is a step of it.
\<close>

section \<open>The specification\<close>

text \<open>
  An event is processed at once (\<open>Direct\<close>), or queued for the publisher and then sent.  A delivery
  to a consumer is in flight, rejected or delivered, at a numbered attempt.
\<close>

datatype event_stage = Direct | Queued | Sent
datatype delivery_stage = InFlight int | Rejected int | Delivered int

record pipeline =
  stage_of :: "string \<rightharpoonup> event_stage"
  delivery_of :: "string \<times> string \<rightharpoonup> delivery_stage"

inductive pipeline_step :: "pipeline \<Rightarrow> pipeline \<Rightarrow> bool" where
  idle: "pipeline_step s s"
| direct: "stage_of s ev = None \<Longrightarrow> pipeline_step s (s\<lparr>stage_of := (stage_of s)(ev \<mapsto> Direct)\<rparr>)"
| queue: "stage_of s ev = None \<Longrightarrow> pipeline_step s (s\<lparr>stage_of := (stage_of s)(ev \<mapsto> Queued)\<rparr>)"
| send: "stage_of s ev = Some Queued \<Longrightarrow> pipeline_step s (s\<lparr>stage_of := (stage_of s)(ev \<mapsto> Sent)\<rparr>)"
| claim: "delivery_of s k = None \<Longrightarrow>
    pipeline_step s (s\<lparr>delivery_of := (delivery_of s)(k \<mapsto> InFlight 1)\<rparr>)"
| again: "delivery_of s k = Some (InFlight n) \<or> delivery_of s k = Some (Rejected n) \<Longrightarrow>
    pipeline_step s (s\<lparr>delivery_of := (delivery_of s)(k \<mapsto> InFlight (n + 1))\<rparr>)"
| deliver: "delivery_of s k = Some (InFlight n) \<Longrightarrow>
    pipeline_step s (s\<lparr>delivery_of := (delivery_of s)(k \<mapsto> Delivered n)\<rparr>)"
| reject: "delivery_of s k = Some (InFlight n) \<Longrightarrow>
    pipeline_step s (s\<lparr>delivery_of := (delivery_of s)(k \<mapsto> Rejected n)\<rparr>)"

inductive_cases pipeline_stepE: "pipeline_step s s'"

section \<open>The abstraction\<close>

definition row_stage :: "completion_row \<Rightarrow> delivery_stage" where
  "row_stage r =
     (if cc_status r = CompletionProcessed then Delivered (cc_attempt_count r)
      else if cc_status r = CompletionFailed then Rejected (cc_attempt_count r)
      else InFlight (cc_attempt_count r))"

definition event_stage_of :: "database \<Rightarrow> string \<rightharpoonup> event_stage" where
  "event_stage_of db ev =
     (case processed_events db ev of
        None \<Rightarrow> None
      | Some l \<Rightarrow> Some (if pe_status l = StatusProcessed then Direct
                     else if ev \<in> published_events db then Sent else Queued))"

definition pipeline_of :: "database \<Rightarrow> pipeline" where
  "pipeline_of db = \<lparr>stage_of = event_stage_of db,
     delivery_of = (\<lambda>k. map_option row_stage (consumer_completions db k))\<rparr>"

lemma pipeline_of_sel [simp]:
  "stage_of (pipeline_of db) = event_stage_of db"
  "delivery_of (pipeline_of db) k = map_option row_stage (consumer_completions db k)"
  by (simp_all add: pipeline_of_def)

lemma pipeline_of_eqI:
  "event_stage_of db' = event_stage_of db \<Longrightarrow> consumer_completions db' = consumer_completions db \<Longrightarrow>
   pipeline_of db' = pipeline_of db"
  by (simp add: pipeline_of_def)

text \<open>Steps of the completion table: an update of one row.\<close>

lemma completion_update_step:
  assumes "consumer_completions db' = (consumer_completions db)(k \<mapsto> r')"
    and "event_stage_of db' = event_stage_of db"
    and "pipeline_step (pipeline_of db)
      ((pipeline_of db)\<lparr>delivery_of := (delivery_of (pipeline_of db))(k \<mapsto> row_stage r')\<rparr>)"
  shows "pipeline_step (pipeline_of db) (pipeline_of db')"
proof -
  have "pipeline_of db' = (pipeline_of db)\<lparr>delivery_of := (delivery_of (pipeline_of db))(k \<mapsto> row_stage r')\<rparr>"
    using assms(1,2) by (auto simp: pipeline_of_def fun_eq_iff)
  with assms(3) show ?thesis by simp
qed

lemma event_stage_cong:
  "processed_events db' = processed_events db \<Longrightarrow> outbox_events db' = outbox_events db \<Longrightarrow>
   event_stage_of db' = event_stage_of db"
  by (simp add: fun_eq_iff event_stage_of_def published_events_def)

lemma event_stage_completions [simp]:
  "event_stage_of (db\<lparr>consumer_completions := m\<rparr>) = event_stage_of db"
  by (rule event_stage_cong) simp_all

lemma update_completion_step:
  assumes f: "\<And>r. consumer_completions db (ev, c) = Some r \<Longrightarrow> cc_status r = st_old \<Longrightarrow>
      pipeline_step (pipeline_of db)
        ((pipeline_of db)\<lparr>delivery_of := (delivery_of (pipeline_of db))((ev, c) \<mapsto> row_stage (f r))\<rparr>)"
  shows "pipeline_step (pipeline_of db) (pipeline_of (snd (update_completion ev c st_old f db)))"
proof (cases "snd (update_completion ev c st_old f db) = db")
  case True
  then show ?thesis by (simp add: pipeline_step.idle)
next
  case False
  then obtain r where r: "consumer_completions db (ev, c) = Some r" "cc_status r = st_old"
    and upd: "snd (update_completion ev c st_old f db) =
      db\<lparr>consumer_completions := (consumer_completions db)((ev, c) \<mapsto> f r)\<rparr>"
    by (auto simp: update_completion_def split: option.splits if_splits)
  show ?thesis unfolding upd
    by (rule completion_update_step[where k = "(ev, c)" and r' = "f r"])
      (use f[OF r] in simp_all)
qed

lemma row_of_status [simp]:
  "cc_status r = CompletionProcessing \<Longrightarrow> row_stage r = InFlight (cc_attempt_count r)"
  "cc_status r = CompletionFailed \<Longrightarrow> row_stage r = Rejected (cc_attempt_count r)"
  "cc_status r = CompletionProcessed \<Longrightarrow> row_stage r = Delivered (cc_attempt_count r)"
  by (simp_all add: row_stage_def status_simps)

lemma mark_outbox_published:
  "published_events (snd (sql_mark_outbox OutboxPublished ev OutboxPending db)) =
     ob_event_id ` {r \<in> set (outbox_events db). ob_status r = OutboxPublished \<or>
       ob_status r = OutboxPending \<and> ob_event_id r = ev}"
proof -
  obtain g where g: "outbox_events (snd (sql_mark_outbox OutboxPublished ev OutboxPending db)) = map g (outbox_events db)"
    "\<And>r. ob_event_id (g r) = ob_event_id r"
    "\<And>r. ob_status (g r) = OutboxPublished \<longleftrightarrow>
         ob_status r = OutboxPublished \<or> ob_status r = OutboxPending \<and> ob_event_id r = ev"
    using mark_outbox_map[of ev db] by blast
  have "{r \<in> set (map g (outbox_events db)). ob_status r = OutboxPublished} =
      g ` {r \<in> set (outbox_events db). ob_status r = OutboxPublished \<or>
            ob_status r = OutboxPending \<and> ob_event_id r = ev}"
    using g(3) by auto
  then show ?thesis by (simp add: published_events_def g(1,2) image_image)
qed

lemma mark_outbox_step:
  assumes "db_inv db"
  shows "pipeline_step (pipeline_of db) (pipeline_of (snd (sql_mark_outbox OutboxPublished ev OutboxPending db)))"
proof -
  let ?db' = "snd (sql_mark_outbox OutboxPublished ev OutboxPending db)"
  have same: "processed_events ?db' = processed_events db" "consumer_completions ?db' = consumer_completions db"
    by (simp_all add: sql_mark_outbox_def)
  show ?thesis
  proof (cases "\<exists>r \<in> set (outbox_events db). ob_event_id r = ev \<and> ob_status r = OutboxPending")
    case False
    then have "outbox_events ?db' = outbox_events db"
      by (auto simp: sql_mark_outbox_def intro!: map_idI)
    then have "pipeline_of ?db' = pipeline_of db"
      using same by (intro pipeline_of_eqI event_stage_cong)
    then show ?thesis by (simp add: pipeline_step.idle)
  next
    case True
    then obtain r where r: "r \<in> set (outbox_events db)" "ob_event_id r = ev" "ob_status r = OutboxPending" by blast
    with assms obtain l where l: "processed_events db ev = Some l" "pe_status l = StatusAccepted"
      unfolding db_inv_def accepted_as_def by blast
    have "ev \<notin> published_events db"
    proof
      assume "ev \<in> published_events db"
      then obtain q where "q \<in> set (outbox_events db)" "ob_event_id q = ev" "ob_status q = OutboxPublished"
        by (auto simp: published_events_def)
      moreover have "inj_on ob_event_id (set (outbox_events db))"
        using assms by (simp add: db_inv_def distinct_map)
      ultimately have "q = r" using r by (auto dest: inj_onD)
      then show False using r(3) \<open>ob_status q = OutboxPublished\<close> by (simp add: status_simps)
    qed
    moreover have "published_events ?db' = insert ev (published_events db)"
      unfolding mark_outbox_published using r by (auto simp: published_events_def)
    ultimately have "event_stage_of db ev = Some Queued" "event_stage_of ?db' = (event_stage_of db)(ev \<mapsto> Sent)"
      using l same by (auto simp: event_stage_of_def fun_eq_iff status_simps split: option.splits)
    then show ?thesis
      using pipeline_step.send[of "pipeline_of db" ev] same by (simp add: pipeline_of_def)
  qed
qed

lemma run_txn_step:
  assumes "db_inv db" "tx_inv t db"
  shows "pipeline_step (pipeline_of db) (pipeline_of (run_txn t x db))"
proof (cases x)
  case (AcceptTx i ev ty p)
  show ?thesis
  proof (cases "run_txn t x db = db")
    case True
    then show ?thesis by (simp add: pipeline_step.idle)
  next
    case False
    with AcceptTx have new: "processed_events db ev = None" by (auto split: if_splits)
    then have "ev \<notin> published_events db" using assms(1) by (auto simp: published_events_def db_inv_def accepted_as_def)
    moreover have "published_events (run_txn t x db) = published_events db"
      using run_txn_outbox_same[of x db t] AcceptTx by (simp add: outbox_same_def)
    moreover obtain l where "processed_events (run_txn t x db) = (processed_events db)(ev \<mapsto> l)"
      "pe_status l = StatusAccepted" and same: "consumer_completions (run_txn t x db) = consumer_completions db"
      using False AcceptTx by (auto split: if_splits option.splits)
    ultimately have "event_stage_of (run_txn t x db) = (event_stage_of db)(ev \<mapsto> Queued)"
      by (simp add: event_stage_of_def fun_eq_iff status_simps)
    then show ?thesis
      using new same pipeline_step.queue[of "pipeline_of db" ev] by (simp add: pipeline_of_def event_stage_of_def)
  qed
next
  case (ProcessTx ev ty)
  show ?thesis
  proof (cases "processed_events db ev = None \<and> tx_ledger t ev = None")
    case True
    have "event_stage_of (run_txn t x db) = (event_stage_of db)(ev \<mapsto> Direct)"
      using True ProcessTx by (auto simp: event_stage_of_def fun_eq_iff published_events_def)
    then show ?thesis
      using True ProcessTx pipeline_step.direct[of "pipeline_of db" ev]
      by (simp add: pipeline_of_def event_stage_of_def)
  qed (use ProcessTx in \<open>auto intro: pipeline_step.idle\<close>)
next
  case (PublishTx ev)
  then show ?thesis using mark_outbox_step[OF assms(1)] by simp
next
  case (ClaimTx ev c ty)
  show ?thesis
  proof (cases "consumer_completions db (ev, c)")
    case None
    show ?thesis
      by (rule completion_update_step[where k = "(ev, c)" and r' = "\<lparr>cc_event_type = ty, cc_status = CompletionProcessing,
          cc_error = None, cc_attempt_count = 1, cc_created_at = db_now db, cc_updated_at = db_now db,
          cc_processed_at = None\<rparr>"])
        (use None ClaimTx in \<open>simp_all add: sql_insert_completion_def pipeline_step.claim\<close>)
  next
    case (Some r)
    then show ?thesis using ClaimTx by (simp add: sql_insert_completion_def pipeline_step.idle)
  qed
next
  case (RetryTx ev c)
  then show ?thesis
    by (auto simp: sql_retry_completion_def snd_returning_attempts intro!: update_completion_step pipeline_step.again)
next
  case (ReclaimTx ev c)
  then show ?thesis
    by (auto simp: sql_reclaim_completion_def snd_returning_attempts intro!: update_completion_step pipeline_step.again)
next
  case (ProcessedTx ev c)
  then show ?thesis
    by (auto simp: sql_mark_processed_def snd_rows_of intro!: update_completion_step pipeline_step.deliver)
next
  case (FailedTx ev c m)
  then show ?thesis
    by (auto simp: sql_mark_failed_def snd_rows_of intro!: update_completion_step pipeline_step.reject)
next
  case (ClockTx n)
  have "pipeline_of (run_txn t x db) = pipeline_of db"
    using ClockTx by (intro pipeline_of_eqI event_stage_cong) simp_all
  then show ?thesis by (simp add: pipeline_step.idle)
qed

section \<open>Refinement\<close>

inductive pipeline_reaches :: "pipeline \<Rightarrow> pipeline \<Rightarrow> bool" where
  refl: "pipeline_reaches s s"
| step: "pipeline_reaches s s1 \<Longrightarrow> pipeline_step s1 s2 \<Longrightarrow> pipeline_reaches s s2"

lemma pipeline_reaches_trans: "pipeline_reaches b c \<Longrightarrow> pipeline_reaches a b \<Longrightarrow> pipeline_reaches a c"
  by (induction rule: pipeline_reaches.induct) (auto intro: pipeline_reaches.step)

lemma pipeline_step_reaches: "pipeline_step a b \<Longrightarrow> pipeline_reaches a b"
  using pipeline_reaches.intros by blast

definition empty_pipeline :: pipeline where
  "empty_pipeline = \<lparr>stage_of = Map.empty, delivery_of = Map.empty\<rparr>"

lemma pipeline_of_empty: "pipeline_of (empty_database cast) = empty_pipeline"
  by (simp add: pipeline_of_def empty_pipeline_def event_stage_of_def fun_eq_iff)

lemma run_txns_reaches:
  "db_inv db \<Longrightarrow> tx_inv t db \<Longrightarrow> pipeline_reaches (pipeline_of db) (pipeline_of (run_txns t xs db))"
proof (induction xs arbitrary: db)
  case (Cons x xs)
  have "db_inv (run_txn t x db)" "tx_inv t (run_txn t x db)"
    using run_txns_inv[OF Cons.prems, of "[x]"] by simp_all
  from Cons.IH[OF this] pipeline_step_reaches[OF run_txn_step[OF Cons.prems]]
  show ?case using pipeline_reaches_trans by auto
qed (simp add: pipeline_reaches.refl)

text \<open>
  The stages of a delivery in the order they come: by the attempt, then in flight, rejected,
  delivered.  No delivery goes back.
\<close>

fun stage_rank :: "delivery_stage \<Rightarrow> int \<times> nat" where
  "stage_rank (InFlight n) = (n, 0)"
| "stage_rank (Rejected n) = (n, 1)"
| "stage_rank (Delivered n) = (n, 2)"

lemma stage_rank_inj: "stage_rank a = stage_rank b \<Longrightarrow> a = b"
  by (cases a; cases b) auto

instantiation delivery_stage :: linorder
begin

definition "(a::delivery_stage) \<le> b \<longleftrightarrow> stage_rank a \<le> stage_rank b"
definition "(a::delivery_stage) < b \<longleftrightarrow> stage_rank a < stage_rank b"

instance
  by standard (auto simp: less_eq_delivery_stage_def less_delivery_stage_def dest: stage_rank_inj)

end

lemma pipeline_step_grows: "pipeline_step s s1 \<Longrightarrow> delivery_of s k \<le> delivery_of s1 k"
  by (cases rule: pipeline_stepE)
    (auto simp: less_eq_delivery_stage_def less_eq_prod_def)

lemma pipeline_reaches_grows: "pipeline_reaches s s1 \<Longrightarrow> delivery_of s k \<le> delivery_of s1 k"
proof (induction rule: pipeline_reaches.induct)
  case (step s s1 s2)
  from step.IH pipeline_step_grows[OF step.hyps(2)] show ?case by (rule order.trans)
qed simp

text \<open>A statement that is a step of the pipeline, called under any schedule.\<close>

definition advances :: "'s session_scheme \<Rightarrow> 's session_scheme \<Rightarrow> bool" where
  "advances w w' \<longleftrightarrow> pipeline_reaches (pipeline_of (pg_db w)) (pipeline_of (pg_db w'))"

lemma advances_refl [simp]: "advances w w"
  by (simp add: advances_def pipeline_reaches.refl)

lemma advances_trans: "advances w w1 \<Longrightarrow> advances w1 w2 \<Longrightarrow> advances w w2"
  unfolding advances_def using pipeline_reaches_trans by blast

lemma call_advances:
  assumes call: "pg_call t texts f w = (r, w')" and inv: "db_inv (pg_db w)" "tx_inv t (pg_db w)"
    and f: "\<And>db. db_inv db \<Longrightarrow> tx_inv t db \<Longrightarrow> pipeline_step (pipeline_of db) (pipeline_of (snd (f db)))"
  shows "advances w w'"
proof -
  define db where "db = run_txns t (sl_others (head_slot (pg_slots w))) (pg_db w)"
  have db: "pipeline_reaches (pipeline_of (pg_db w)) (pipeline_of db)" "db_inv db" "tx_inv t db"
    using run_txns_reaches[OF inv] run_txns_inv[OF inv] unfolding db_def by blast+
  have "pg_db w' = db \<or> pg_db w' = snd (f db)"
    using call unfolding pg_call_def Let_def db_def[symmetric]
    by (auto simp: after_fault_def prod_eq_iff split: fault.splits if_splits)
  then show ?thesis using db f[OF db(2,3)] pipeline_reaches.step by (auto simp: advances_def)
qed

lemma Query_advances:
  assumes "db_Query texts f w = (r, w')" "db_inv (pg_db w)"
    and "\<And>db. db_inv db \<Longrightarrow> pipeline_step (pipeline_of db) (pipeline_of (snd (f db)))"
  shows "advances w w'"
  using call_advances[OF assms(1)[unfolded db_Query_def] assms(2) tx_inv_no_tx] assms(3) by blast

lemma tx_Exec_advances:
  assumes "tx_Exec t texts f w = (r, w')" "db_inv (pg_db w)" "tx_inv t (pg_db w)"
    and "\<And>db. db_inv db \<Longrightarrow> tx_inv t db \<Longrightarrow> pipeline_step (pipeline_of db) (pipeline_of (snd (f t db)))"
  shows "advances w w'"
proof -
  obtain r1 where "pg_call t texts (f t) w = (r1, w')"
    using assms(1) by (auto simp: tx_Exec_def split: prod.splits sum.splits)
  from call_advances[OF this assms(2,3)] assms(4) show ?thesis by blast
qed

lemma Exec_advances:
  assumes "db_Exec texts f w = (r, w')" "db_inv (pg_db w)"
    and "\<And>db. db_inv db \<Longrightarrow> pipeline_step (pipeline_of db) (pipeline_of (snd (f db)))"
  shows "advances w w'"
proof -
  obtain r1 where "pg_call no_tx texts f w = (r1, w')"
    using assms(1) by (auto simp: db_Exec_def split: prod.splits sum.splits)
  from call_advances[OF this assms(2) tx_inv_no_tx] assms(3) show ?thesis by blast
qed

text \<open>The statements of the operations.\<close>

lemmas txn_step = run_txn_step[OF _ tx_inv_no_tx]

lemma statement_steps:
  "db_inv db \<Longrightarrow> pipeline_step (pipeline_of db)
     (pipeline_of (snd (sql_mark_outbox OutboxPublished ev OutboxPending db)))"
  "db_inv db \<Longrightarrow> pipeline_step (pipeline_of db)
     (pipeline_of (snd (sql_mark_processed CompletionProcessed ev c CompletionProcessing db)))"
  "db_inv db \<Longrightarrow> pipeline_step (pipeline_of db)
     (pipeline_of (snd (sql_mark_failed CompletionFailed m ev c CompletionProcessing db)))"
  "db_inv db \<Longrightarrow> pipeline_step (pipeline_of db)
     (pipeline_of (snd (sql_insert_completion ev c ty CompletionProcessing db)))"
  "db_inv db \<Longrightarrow> pipeline_step (pipeline_of db)
     (pipeline_of (snd (sql_retry_completion ev c CompletionProcessing db)))"
  "db_inv db \<Longrightarrow> pipeline_step (pipeline_of db)
     (pipeline_of (snd (sql_reclaim_completion CompletionProcessing ev c CompletionFailed db)))"
  "pipeline_step (pipeline_of db) (pipeline_of (snd (sql_select_completion ev c db)))"
  using txn_step[of db "PublishTx ev"] txn_step[of db "ProcessedTx ev c"] txn_step[of db "FailedTx ev c m"]
    txn_step[of db "ClaimTx ev c ty"] txn_step[of db "RetryTx ev c"] txn_step[of db "ReclaimTx ev c"]
  by (simp_all add: sql_select_completion_def pipeline_step.idle)

lemma Mark_advances:
  assumes "db_inv (pg_db w)"
  shows "advances w (snd (MarkOutboxPublished ev w))" "advances w (snd (MarkConsumerProcessed ev c w))"
    "advances w (snd (MarkConsumerFailed ev c m w))"
  unfolding single_call_worlds
  by (rule Exec_advances[OF prod.collapse[symmetric] assms], erule statement_steps)+

lemma Claim_advances:
  assumes op: "ClaimConsumerCompletion ev c ty w = (r, w')" and inv: "db_inv (pg_db w)"
  shows "advances w w'"
proof -
  obtain r1 w1 where 1: "db_Exec [ev, c, ty, CompletionProcessing]
      (sql_insert_completion ev c ty CompletionProcessing) w = (r1, w1)" by fastforce
  obtain r2 w2 where 2: "db_Query [ev, c] (sql_select_completion ev c) w1 = (r2, w2)" by fastforce
  obtain r3 w3 where 3: "db_Query [ev, c, CompletionProcessing]
      (sql_retry_completion ev c CompletionProcessing) w2 = (r3, w3)" by fastforce
  obtain r4 w4 where 4: "db_Query [CompletionProcessing, ev, c, CompletionFailed]
      (sql_reclaim_completion CompletionProcessing ev c CompletionFailed) w2 = (r4, w4)" by fastforce
  note i1 = claim_calls(1)[OF 1 inv]
  note i2 = claim_calls(5)[OF 2 i1]
  have a1: "advances w w1" by (rule Exec_advances[OF 1 inv statement_steps(4)])
  have a2: "advances w w2"
    using Query_advances[OF 2 i1 statement_steps(7)] by (rule advances_trans[OF a1])
  have a34: "advances w w3" "advances w w4"
    using Query_advances[OF 3 i2 statement_steps(5)] Query_advances[OF 4 i2 statement_steps(6)]
    by (blast intro: advances_trans[OF a2])+
  from op 1 2 3 4 show ?thesis by (cases rule: claim_paths) (use a1 a2 a34 in auto)
qed

text \<open>The transaction of \<open>AcceptEvent\<close>: only its commit moves the pipeline, by one \<open>queue\<close>.\<close>

lemma insert_steps:
  "pipeline_step (pipeline_of db) (pipeline_of (snd (sql_insert_ledger ev ty st t db)))"
  "pipeline_step (pipeline_of db) (pipeline_of (snd (sql_insert_outbox ev ty p st t db)))"
proof -
  show "pipeline_step (pipeline_of db) (pipeline_of (snd (sql_insert_ledger ev ty st t db)))"
    by (simp add: pipeline_step.idle)
  obtain n where n: "snd (sql_insert_outbox ev ty p st t db) = db\<lparr>outbox_seq := n\<rparr>"
    using insert_outbox_db by blast
  have "pipeline_of (db\<lparr>outbox_seq := n\<rparr>) = pipeline_of db"
    by (intro pipeline_of_eqI event_stage_cong) simp_all
  then show "pipeline_step (pipeline_of db) (pipeline_of (snd (sql_insert_outbox ev ty p st t db)))"
    by (simp add: n pipeline_step.idle)
qed

lemma commit_step:
  assumes "db_inv db" "tx_inv t db" and t: "tx_ledger t = [ev \<mapsto> l]" "pe_status l = StatusAccepted"
    and pending: "\<forall>r \<in> set (tx_outbox t). ob_status r = OutboxPending"
  shows "pipeline_step (pipeline_of db) (pipeline_of (snd (sql_commit t db)))"
proof -
  have new: "processed_events db ev = None" using assms(2) t by (simp add: tx_inv_def)
  then have "ev \<notin> published_events db"
    using assms(1) by (auto simp: published_events_def db_inv_def accepted_as_def)
  moreover have "published_events (snd (sql_commit t db)) = published_events db"
    using pending by (auto simp: sql_commit_def published_events_def status_simps)
  moreover have "processed_events (snd (sql_commit t db)) = (processed_events db)(ev \<mapsto> l)"
    using t by (simp add: sql_commit_def)
  ultimately have "event_stage_of (snd (sql_commit t db)) = (event_stage_of db)(ev \<mapsto> Queued)"
    using t(2) by (simp add: event_stage_of_def fun_eq_iff status_simps)
  moreover have "consumer_completions (snd (sql_commit t db)) = consumer_completions db"
    by (simp add: sql_commit_def)
  ultimately show ?thesis
    using new pipeline_step.queue[of "pipeline_of db" ev] by (simp add: pipeline_of_def event_stage_of_def)
qed

lemma accept_tail_advances:
  assumes op: "(case tx_Exec t1 [ev, ty, p, OutboxPending]
             (sql_insert_outbox ev ty p OutboxPending) w of
        (Inl e, w3) \<Rightarrow> (Inl (ErrWrap ''store: insert outbox'' e), w3)
      | (Inr (_, t2), w3) \<Rightarrow>
          (case Commit t2 w3 of
             (Inl e, w4) \<Rightarrow> (Inl (ErrWrap ''store: commit'' e), w4)
           | (Inr _, w4) \<Rightarrow> (Inr True, w4))) = (r, w')"
    and inv: "db_inv (pg_db w)" "tx_inv t1 (pg_db w)"
    and t1: "claimed_row ev ty StatusAccepted t1"
  shows "advances w w'"
proof -
  obtain d w3 where 3: "tx_Exec t1 [ev, ty, p, OutboxPending]
      (sql_insert_outbox ev ty p OutboxPending) w = (d, w3)" by fastforce
  have a3: "advances w w3" by (rule tx_Exec_advances[OF 3 inv insert_steps(2)])
  show ?thesis
  proof (cases d)
    case (Inl e)
    with op 3 a3 show ?thesis by auto
  next
    case (Inr x)
    then obtain ra t2 where x: "d = Inr (ra, t2)" by (cases x) simp
    have inv3: "db_inv (pg_db w3)" and "tx_inv t2 (pg_db w3) \<and> tx_ledger t2 = tx_ledger t1 \<and>
        (\<exists>row. tx_outbox t2 = [row] \<and> ob_event_id row = ev \<and> ob_event_type row = ty \<and>
           ob_status row = OutboxPending \<and> jsonb_cast (pg_db w3) p = Some (ob_payload row))"
      using tx_insert_outbox[OF 3 inv t1] x by simp_all
    then obtain row where t2: "tx_inv t2 (pg_db w3)"
      "tx_ledger t2 = tx_ledger t1" "tx_outbox t2 = [row]" "ob_status row = OutboxPending" by blast
    obtain l where l: "tx_ledger t2 = [ev \<mapsto> l]" "pe_status l = StatusAccepted"
      using t1 by (auto simp: claimed_row_def t2(2))
    obtain k w4 where 4: "Commit t2 w3 = (k, w4)" by fastforce
    have "advances w3 w4"
      by (rule call_advances[OF 4[unfolded Commit_def] inv3 t2(1) commit_step[OF _ _ l]]) (simp_all add: t2(2-4))
    moreover have "w' = w4" using op 3 4 x by (auto split: sum.splits)
    ultimately show ?thesis using advances_trans[OF a3] by blast
  qed
qed

lemma Accept_advances:
  assumes op: "AcceptEvent ev ty p w = (r, w')" and inv: "db_inv (pg_db w)"
  shows "advances w w'"
proof -
  obtain b w1 where 1: "BeginTx w = (b, w1)" by fastforce
  have a1: "advances w w1"
    by (rule call_advances[OF 1[unfolded BeginTx_def] inv tx_inv_no_tx]) (simp add: pipeline_step.idle)
  note f1 = BeginTx_facts[OF 1 inv]
  show ?thesis
  proof (cases b)
    case (Inl e)
    with op 1 a1 show ?thesis by (auto simp: AcceptEvent_def)
  next
    case b: (Inr t)
    with f1 have t: "tx_ledger t = Map.empty" "tx_outbox t = []" by auto
    obtain c w2 where 2: "tx_Exec t [ev, ty, StatusAccepted]
        (sql_insert_ledger ev ty StatusAccepted) w1 = (c, w2)" by fastforce
    have a2: "advances w w2"
      using tx_Exec_advances[OF 2 conjunct1[OF f1] tx_inv_empty[OF t] insert_steps(1)]
      by (rule advances_trans[OF a1])
    show ?thesis
    proof (cases "\<exists>n t1. c = Inr (Inr n, t1) \<and> n \<noteq> 0")
      case False
      then have "w' = w2" using op 1 2 b
        by (auto simp: AcceptEvent_def split: sum.splits prod.splits if_splits)
      with a2 show ?thesis by simp
    next
      case True
      then obtain n t1 where c: "c = Inr (Inr n, t1)" "n \<noteq> 0" by blast
      with tx_insert_ledger[OF 2 conjunct1[OF f1] t] have t1: "db_inv (pg_db w2)" "tx_inv t1 (pg_db w2)"
        "claimed_row ev ty StatusAccepted t1" by auto
      with op 1 2 b c have "advances w2 w'"
        by (intro accept_tail_advances[OF _ t1]) (simp add: AcceptEvent_def)
      with a2 show ?thesis by (rule advances_trans)
    qed
  qed
qed

text \<open>
  C7: The program refines the pipeline specification. Whatever transactions the processes
  commit from an empty schema, in any order and number, every event and every delivery only
  moves along the stages of the specification (an event unknown, then queued, then sent, or
  processed at once; a delivery in flight, rejected or delivered, with the attempt counted at
  each claim and nothing after delivered). And from any database so reached, AcceptEvent, the
  claim of a delivery and the three marks take only such steps, under every schedule of faults
  and of other clients' transactions, whatever they answer. No transaction takes a delivery back
  to an earlier stage.
\<close>

theorem database_refines_pipeline:
  "let db = run_txns no_tx xs (empty_database cast); w0 = w\<lparr>pg_db := db\<rparr> in
     pipeline_reaches empty_pipeline (pipeline_of db) \<and>
     advances w0 (snd (AcceptEvent ev ty p w0)) \<and>
     advances w0 (snd (MarkOutboxPublished ev w0)) \<and>
     advances w0 (snd (ClaimConsumerCompletion ev c ty w0)) \<and>
     advances w0 (snd (MarkConsumerProcessed ev c w0)) \<and>
     advances w0 (snd (MarkConsumerFailed ev c m w0)) \<and>
     delivery_of (pipeline_of db) k \<le> delivery_of (pipeline_of (run_txns no_tx ys db)) k"
proof -
  define db where "db = run_txns no_tx xs (empty_database cast)"
  define w0 where "w0 = w\<lparr>pg_db := db\<rparr>"
  have db: "db_inv db" "pipeline_reaches empty_pipeline (pipeline_of db)"
    using conjunct1[OF run_txns_inv[OF db_inv_empty tx_inv_no_tx, of xs cast]]
      run_txns_reaches[OF db_inv_empty tx_inv_no_tx, of cast xs]
    unfolding db_def pipeline_of_empty .
  then have w0: "db_inv (pg_db w0)" by (simp add: w0_def)
  show ?thesis
    unfolding Let_def db_def[symmetric] w0_def[symmetric]
    using db(2) Accept_advances[OF prod.collapse[symmetric] w0]
      Claim_advances[OF prod.collapse[symmetric] w0] Mark_advances[OF w0]
      pipeline_reaches_grows[OF run_txns_reaches[OF db(1) tx_inv_no_tx]] by (intro conjI)
qed

end
