(* ===== verification/Schema.thy ===== *)
theory Schema
  imports Store_Correct
begin

text \<open>
  The migrations of migrations/, statement by statement, on a schema whose tables may be missing.
  goose runs the statements of a migration in one transaction: after an error nothing of it stays.
\<close>

section \<open>Statements on a schema\<close>

text \<open>
  A table is \<open>None\<close> while it does not exist.  The list is what the CHECK constraint of the ledger
  allows, \<open>None\<close> without one.  The outbox has its rows and its sequence.
\<close>

record schema =
  t_ledger :: "(string \<rightharpoonup> ledger_row) option"
  t_ledger_check :: "string list option"
  t_outbox :: "(outbox_row list \<times> nat) option"
  t_completions :: "(string \<times> string \<rightharpoonup> completion_row) option"
  t_status_idx :: bool

abbreviation undefined_table :: go_error where
  "undefined_table \<equiv> ErrNew ''relation does not exist (SQLSTATE 42P01)''"
abbreviation undefined_object :: go_error where
  "undefined_object \<equiv> ErrNew ''constraint of relation does not exist (SQLSTATE 42704)''"
abbreviation duplicate_object :: go_error where
  "duplicate_object \<equiv> ErrNew ''constraint for relation already exists (SQLSTATE 42710)''"
abbreviation duplicate_table :: go_error where
  "duplicate_table \<equiv> ErrNew ''relation already exists (SQLSTATE 42P07)''"
abbreviation dependent_objects :: go_error where
  "dependent_objects \<equiv> ErrNew ''other objects depend on it (SQLSTATE 2BP01)''"

definition create_ledger :: "string list \<Rightarrow> schema \<Rightarrow> schema result" where
  "create_ledger sts s =
     (if t_ledger s \<noteq> None then Inl duplicate_table
      else Inr (s\<lparr>t_ledger := Some Map.empty, t_ledger_check := Some sts\<rparr>))"

text \<open>The foreign key of the outbox keeps the ledger from being dropped.\<close>

definition drop_ledger :: "schema \<Rightarrow> schema result" where
  "drop_ledger s =
     (if t_ledger s \<noteq> None \<and> t_outbox s \<noteq> None then Inl dependent_objects
      else Inr (s\<lparr>t_ledger := None, t_ledger_check := None\<rparr>))"

definition drop_status_check :: "schema \<Rightarrow> schema result" where
  "drop_status_check s =
     (if t_ledger s = None then Inl undefined_table
      else if t_ledger_check s = None then Inl undefined_object
      else Inr (s\<lparr>t_ledger_check := None\<rparr>))"

text \<open>\<open>ADD CONSTRAINT\<close> tests the rows that are there.\<close>

definition add_status_check :: "string list \<Rightarrow> schema \<Rightarrow> schema result" where
  "add_status_check sts s =
     (case t_ledger s of
        None \<Rightarrow> Inl undefined_table
      | Some m \<Rightarrow>
          if t_ledger_check s \<noteq> None then Inl duplicate_object
          else if \<exists>r \<in> ran m. pe_status r \<notin> set sts then Inl check_violation
          else Inr (s\<lparr>t_ledger_check := Some sts\<rparr>))"

text \<open>\<open>UPDATE processed_events SET status = .. WHERE status = ..\<close>\<close>

definition set_status :: "string \<Rightarrow> string \<Rightarrow> (string \<rightharpoonup> ledger_row) \<Rightarrow> (string \<rightharpoonup> ledger_row)" where
  "set_status st old m = (\<lambda>ev. map_option (\<lambda>r. if pe_status r = old then r\<lparr>pe_status := st\<rparr> else r) (m ev))"

definition update_status :: "string \<Rightarrow> string \<Rightarrow> schema \<Rightarrow> schema result" where
  "update_status st old s =
     (case t_ledger s of
        None \<Rightarrow> Inl undefined_table
      | Some m \<Rightarrow>
          if (\<exists>r \<in> ran m. pe_status r = old) \<and> (\<exists>sts. t_ledger_check s = Some sts \<and> st \<notin> set sts)
          then Inl check_violation
          else Inr (s\<lparr>t_ledger := Some (set_status st old m)\<rparr>))"

definition create_outbox :: "schema \<Rightarrow> schema result" where
  "create_outbox s =
     (if t_ledger s = None then Inl undefined_table
      else if t_outbox s \<noteq> None then Inl duplicate_table
      else Inr (s\<lparr>t_outbox := Some ([], 1)\<rparr>))"

definition drop_outbox :: "schema \<Rightarrow> schema result" where
  "drop_outbox s = Inr (s\<lparr>t_outbox := None\<rparr>)"

definition create_completions :: "schema \<Rightarrow> schema result" where
  "create_completions s =
     (if t_completions s \<noteq> None then Inl duplicate_table
      else Inr (s\<lparr>t_completions := Some Map.empty\<rparr>))"

definition create_status_idx :: "schema \<Rightarrow> schema result" where
  "create_status_idx s =
     (if t_completions s = None then Inl undefined_table
      else if t_status_idx s then Inl duplicate_table
      else Inr (s\<lparr>t_status_idx := True\<rparr>))"

definition drop_status_idx :: "schema \<Rightarrow> schema result" where
  "drop_status_idx s = Inr (s\<lparr>t_status_idx := False\<rparr>)"

text \<open>Dropping a table drops its indexes.\<close>

definition drop_completions :: "schema \<Rightarrow> schema result" where
  "drop_completions s = Inr (s\<lparr>t_completions := None, t_status_idx := False\<rparr>)"

section \<open>The migrations\<close>

fun run_sql :: "(schema \<Rightarrow> schema result) list \<Rightarrow> schema \<Rightarrow> schema result" where
  "run_sql [] s = Inr s"
| "run_sql (f # fs) s = (case f s of Inl e \<Rightarrow> Inl e | Inr s' \<Rightarrow> run_sql fs s')"

abbreviation m8_statuses :: "string list" where
  "m8_statuses \<equiv> [''processing'', ''processed'', ''failed'']"
abbreviation m9_statuses :: "string list" where
  "m9_statuses \<equiv> [''processing'', ''accepted'', ''processed'', ''failed'']"

definition up_1 :: "schema \<Rightarrow> schema result" where
  "up_1 = run_sql [create_ledger m8_statuses]"

definition down_1 :: "schema \<Rightarrow> schema result" where
  "down_1 = run_sql [drop_ledger]"

definition up_2 :: "schema \<Rightarrow> schema result" where
  "up_2 = run_sql [drop_status_check, add_status_check m9_statuses, update_status ''accepted'' ''processed'',
     create_outbox]"

definition down_2 :: "schema \<Rightarrow> schema result" where
  "down_2 = run_sql [drop_outbox, update_status ''processed'' ''accepted'', drop_status_check,
     add_status_check m8_statuses]"

definition up_3 :: "schema \<Rightarrow> schema result" where
  "up_3 = run_sql [create_completions, create_status_idx]"

definition down_3 :: "schema \<Rightarrow> schema result" where
  "down_3 = run_sql [drop_status_idx, drop_completions]"

section \<open>What they do\<close>

definition no_schema :: schema where
  "no_schema = \<lparr>t_ledger = None, t_ledger_check = None, t_outbox = None, t_completions = None, t_status_idx = False\<rparr>"

text \<open>The schema after the first migration, with a ledger, and after all, with the tables of a database.\<close>

definition m8_schema :: "(string \<rightharpoonup> ledger_row) \<Rightarrow> schema" where
  "m8_schema m = no_schema\<lparr>t_ledger := Some m, t_ledger_check := Some m8_statuses\<rparr>"

definition schema_of :: "database \<Rightarrow> schema" where
  "schema_of db = \<lparr>t_ledger = Some (processed_events db), t_ledger_check = Some m9_statuses,
     t_outbox = Some (outbox_events db, outbox_seq db), t_completions = Some (consumer_completions db),
     t_status_idx = True\<rparr>"

definition m8_ledger :: "(string \<rightharpoonup> ledger_row) \<Rightarrow> bool" where
  "m8_ledger m \<longleftrightarrow> (\<forall>r \<in> ran m. pe_status r \<in> set m8_statuses)"

lemmas migration_defs =
  create_ledger_def drop_ledger_def drop_status_check_def add_status_check_def update_status_def
  create_outbox_def drop_outbox_def create_completions_def create_status_idx_def drop_status_idx_def
  drop_completions_def no_schema_def m8_schema_def schema_of_def
  up_1_def down_1_def up_2_def down_2_def up_3_def down_3_def

lemma set_status_ran:
  "r \<in> ran (set_status st old m) \<Longrightarrow>
     \<exists>q \<in> ran m. r = (if pe_status q = old then q\<lparr>pe_status := st\<rparr> else q)"
  by (auto simp: set_status_def ran_def)

lemma set_status_back:
  assumes "\<forall>r \<in> ran m. pe_status r \<noteq> st"
  shows "set_status old st (set_status st old m) = m"
proof
  fix ev
  show "set_status old st (set_status st old m) ev = m ev"
  proof (cases "m ev")
    case (Some r)
    then have "pe_status r \<noteq> st" using assms by (auto intro: ranI)
    with Some show ?thesis by (simp add: set_status_def)
  qed (simp add: set_status_def)
qed

lemma up_all: "run_sql [up_1, up_2, up_3] no_schema = Inr (schema_of (empty_database cast))"
  by (simp add: migration_defs set_status_def empty_database_def)

lemma up_2_m8:
  assumes "m8_ledger m"
  shows "up_2 (m8_schema m) = Inr ((m8_schema m)\<lparr>t_ledger := Some (set_status ''accepted'' ''processed'' m),
     t_ledger_check := Some m9_statuses, t_outbox := Some ([], 1)\<rparr>)"
  using assms by (auto simp: migration_defs m8_ledger_def)

lemma down_2_any:
  assumes "t_ledger s = Some m" "t_ledger_check s = Some m9_statuses" "\<forall>r \<in> ran m. pe_status r \<in> set m9_statuses"
  shows "down_2 s = Inr (s\<lparr>t_ledger := Some (set_status ''processed'' ''accepted'' m),
     t_ledger_check := Some m8_statuses, t_outbox := None\<rparr>)"
proof -
  have "pe_status r \<in> set m8_statuses" if "r \<in> ran (set_status ''processed'' ''accepted'' m)" for r
  proof -
    from that obtain q where q: "q \<in> ran m" "r = (if pe_status q = ''accepted'' then q\<lparr>pe_status := ''processed''\<rparr> else q)"
      by (blast dest: set_status_ran)
    show ?thesis using assms(3) q by (cases "pe_status q = ''accepted''") (simp, fastforce)
  qed
  then have "\<not> (\<exists>r \<in> ran (set_status ''processed'' ''accepted'' m). pe_status r \<notin> set m8_statuses)" by blast
  with assms(1,2) show ?thesis by (simp add: migration_defs)
qed

lemma down_up_2:
  assumes "m8_ledger m"
  shows "run_sql [up_2, down_2] (m8_schema m) = Inr (m8_schema m)"
proof -
  let ?m = "set_status ''accepted'' ''processed'' m"
  have "\<forall>r \<in> ran ?m. pe_status r \<in> set m9_statuses"
  proof
    fix r assume "r \<in> ran ?m"
    then obtain q where q: "q \<in> ran m" "r = (if pe_status q = ''processed'' then q\<lparr>pe_status := ''accepted''\<rparr> else q)"
      using set_status_ran by blast
    then show "pe_status r \<in> set m9_statuses"
      using assms by (cases "pe_status q = ''processed''") (simp, fastforce simp: m8_ledger_def)
  qed
  from down_2_any[OF _ _ this] have "down_2 ((m8_schema m)\<lparr>t_ledger := Some ?m, t_ledger_check := Some m9_statuses,
      t_outbox := Some ([], 1)\<rparr>) = Inr ((m8_schema m)\<lparr>t_ledger := Some (set_status ''processed'' ''accepted'' ?m)\<rparr>)"
    by (simp add: m8_schema_def no_schema_def)
  moreover have "set_status ''processed'' ''accepted'' ?m = m"
    by (rule set_status_back) (use assms in \<open>auto simp: m8_ledger_def\<close>)
  ultimately show ?thesis using up_2_m8[OF assms] by (simp add: m8_schema_def no_schema_def)
qed

text \<open>What a database is after migrations 3 and 2 were taken back and run again.\<close>

definition remigrated :: "database \<Rightarrow> database" where
  "remigrated db = db\<lparr>processed_events :=
       set_status ''accepted'' ''processed'' (set_status ''processed'' ''accepted'' (processed_events db)),
     outbox_events := [], outbox_seq := 1, consumer_completions := Map.empty\<rparr>"

lemma db_inv_statuses: "db_inv db \<Longrightarrow> \<forall>r \<in> ran (processed_events db). pe_status r \<in> set m9_statuses"
  by (auto simp: db_inv_def ledger_row_ok_def status_simps)

lemma down_3_2:
  assumes "db_inv db"
  shows "run_sql [down_3, down_2] (schema_of db) =
    Inr (m8_schema (set_status ''processed'' ''accepted'' (processed_events db)))"
proof -
  let ?s = "(schema_of db)\<lparr>t_completions := None, t_status_idx := False\<rparr>"
  have "down_3 (schema_of db) = Inr ?s" by (simp add: down_3_def drop_status_idx_def drop_completions_def)
  moreover have "down_2 ?s = Inr (?s\<lparr>t_ledger := Some (set_status ''processed'' ''accepted'' (processed_events db)),
      t_ledger_check := Some m8_statuses, t_outbox := None\<rparr>)"
    by (rule down_2_any[OF _ _ db_inv_statuses[OF assms]]) (simp_all add: schema_of_def)
  ultimately show ?thesis by (simp add: schema_of_def m8_schema_def no_schema_def)
qed

lemma down_1_m8: "down_1 (m8_schema m) = Inr no_schema"
  by (simp add: migration_defs)

lemma up_3_after_2:
  "up_3 ((m8_schema m)\<lparr>t_ledger := Some l, t_ledger_check := Some m9_statuses, t_outbox := Some ([], 1)\<rparr>) =
   Inr \<lparr>t_ledger = Some l, t_ledger_check = Some m9_statuses, t_outbox = Some ([], 1),
     t_completions = Some Map.empty, t_status_idx = True\<rparr>"
  by (simp add: migration_defs)

lemma run_sql_append:
  "run_sql (fs @ gs) s = (case run_sql fs s of Inl e \<Rightarrow> Inl e | Inr s' \<Rightarrow> run_sql gs s')"
  by (induction fs arbitrary: s) (auto split: sum.splits)

lemma down_all:
  assumes "db_inv db" shows "run_sql [down_3, down_2, down_1] (schema_of db) = Inr no_schema"
  using run_sql_append[of "[down_3, down_2]" "[down_1]" "schema_of db"] down_3_2[OF assms]
  by (simp add: down_1_m8)

lemma m8_ledger_down:
  assumes "db_inv db" shows "m8_ledger (set_status ''processed'' ''accepted'' (processed_events db))"
  unfolding m8_ledger_def
proof
  fix r assume "r \<in> ran (set_status ''processed'' ''accepted'' (processed_events db))"
  then obtain q where q: "q \<in> ran (processed_events db)"
      "r = (if pe_status q = ''accepted'' then q\<lparr>pe_status := ''processed''\<rparr> else q)"
    by (blast dest: set_status_ran)
  show "pe_status r \<in> set m8_statuses"
    using db_inv_statuses[OF assms] q by (cases "pe_status q = ''accepted''") (simp, fastforce)
qed

lemma schema_of_remigrated:
  "schema_of (remigrated db) = \<lparr>t_ledger =
       Some (set_status ''accepted'' ''processed'' (set_status ''processed'' ''accepted'' (processed_events db))),
     t_ledger_check = Some m9_statuses, t_outbox = Some ([], 1), t_completions = Some Map.empty,
     t_status_idx = True\<rparr>"
  by (simp add: schema_of_def remigrated_def)

lemma redo_2_3:
  assumes "db_inv db"
  shows "run_sql [down_3, down_2, up_2, up_3] (schema_of db) = Inr (schema_of (remigrated db))"
  using run_sql_append[of "[down_3, down_2]" "[up_2, up_3]" "schema_of db"] down_3_2[OF assms]
  by (simp add: up_2_m8[OF m8_ledger_down[OF assms]] up_3_after_2 schema_of_remigrated del: One_nat_def)

lemma remigrated_row:
  assumes "pe_status r \<in> {StatusAccepted, StatusProcessed}"
  shows "(let q = if pe_status r = ''accepted'' then r\<lparr>pe_status := ''processed''\<rparr> else r in
      if pe_status q = ''processed'' then q\<lparr>pe_status := ''accepted''\<rparr> else q) = r\<lparr>pe_status := StatusAccepted\<rparr>"
  using assms by (cases r) (auto simp: status_simps)

lemma remigrated_eq:
  assumes "db_inv db"
  shows "remigrated db = db\<lparr>processed_events :=
       \<lambda>ev. map_option (\<lambda>r. r\<lparr>pe_status := StatusAccepted\<rparr>) (processed_events db ev),
     outbox_events := [], outbox_seq := 1, consumer_completions := Map.empty\<rparr>"
proof -
  have "set_status ''accepted'' ''processed'' (set_status ''processed'' ''accepted'' (processed_events db)) ev =
      map_option (\<lambda>r. r\<lparr>pe_status := StatusAccepted\<rparr>) (processed_events db ev)" for ev
  proof (cases "processed_events db ev")
    case (Some r)
    then have "ledger_row_ok r" using assms by (auto simp: db_inv_def intro: ranI)
    then have "pe_status r \<in> {StatusAccepted, StatusProcessed}" by (auto simp: ledger_row_ok_def)
    from remigrated_row[OF this] Some show ?thesis by (simp add: set_status_def Let_def)
  qed (simp add: set_status_def)
  then show ?thesis by (simp add: remigrated_def fun_eq_iff)
qed

section \<open>The migrations and the reachable databases\<close>

text \<open>
  C27: The three migrations, run on an empty server, end in the schema of the empty database, from
  which the other theorems start.  Migration 2 is undone by its down part on every ledger
  migration 1 allows.  On every database the program's transactions reach, no statement of the
  down parts of 3, 2 and 1 fails and nothing stays behind; and down 3, down 2 with both up parts
  after them never fail either: every ledger row comes back, a processed one as accepted, and the
  outbox is empty, so what was pending is lost.
\<close>

theorem migrations_schema:
  "run_sql [up_1, up_2, up_3] no_schema = Inr (schema_of (empty_database cast)) \<and>
   (m8_ledger m \<longrightarrow> run_sql [up_2, down_2] (m8_schema m) = Inr (m8_schema m)) \<and>
   (let db = run_txns no_tx xs (empty_database cast) in
      run_sql [down_3, down_2, down_1] (schema_of db) = Inr no_schema \<and>
      run_sql [down_3, down_2, up_2, up_3] (schema_of db) = Inr (schema_of
        (db\<lparr>processed_events := \<lambda>ev. map_option (\<lambda>r. r\<lparr>pe_status := StatusAccepted\<rparr>) (processed_events db ev),
            outbox_events := [], outbox_seq := 1, consumer_completions := Map.empty\<rparr>)))"
proof -
  have inv: "db_inv (run_txns no_tx xs (empty_database cast))"
    using run_txns_inv[OF db_inv_empty tx_inv_no_tx] by blast
  show ?thesis
    using up_all down_up_2 down_all[OF inv] redo_2_3[OF inv] by (simp add: Let_def remigrated_eq[OF inv])
qed

theorem migrations_schema_witness:
  "run_sql [up_2, down_2] (m8_schema [''evt_1'' \<mapsto> \<lparr>pe_event_type = ''t'', pe_status = ''processed'', pe_received_at = 0,
       pe_processed_at = Some 1, pe_failed_at = None, pe_error_message = None\<rparr>]) =
   Inr (m8_schema [''evt_1'' \<mapsto> \<lparr>pe_event_type = ''t'', pe_status = ''processed'', pe_received_at = 0,
       pe_processed_at = Some 1, pe_failed_at = None, pe_error_message = None\<rparr>])"
  using migrations_schema[of Map.empty "[''evt_1'' \<mapsto> \<lparr>pe_event_type = ''t'', pe_status = ''processed'',
       pe_received_at = 0, pe_processed_at = Some 1, pe_failed_at = None, pe_error_message = None\<rparr>]" "[]"]
  by (simp add: m8_ledger_def)

end
