(* ===== verification/Json_Scan.thy ===== *)
theory Json_Scan
  imports Engine
begin

text \<open>
  Facts on the JSON scanner: texts in sequence, what a step does in a string and outside one, and
  which steps look at the stack.
\<close>

section \<open>The scanner on concatenated texts\<close>

lemma steps_append:
  "steps s stk (xs @ ys) =
     (case steps s stk xs of None \<Rightarrow> None | Some (s', stk') \<Rightarrow> steps s' stk' ys)"
  by (induction xs arbitrary: s stk) (auto split: option.splits)

section \<open>Kinds of states\<close>

fun in_text :: "jstate \<Rightarrow> bool" where
  "in_text InString = True"
| "in_text InStringEsc = True"
| "in_text (InStringEscU n) = True"
| "in_text _ = False"

definition value_end :: "jstate \<Rightarrow> bool" where
  "value_end t \<longleftrightarrow> t = EndValue \<or> t = S0 \<or> t = S1 \<or> t = Dot0 \<or> t = E0 \<or> t = InLit []"

lemmas step_defs = begin_value_def begin_string_def push_state_def after_int_def exp_sign_def

lemma step_end:
  "value_end t \<Longrightarrow> c \<in> {58, 44, 125, 93} \<Longrightarrow> step t stk c = end_value stk c"
  by (auto simp: value_end_def after_int_def json_digit_def)

text \<open>The letters of a literal still to come.\<close>

definition lits_ok :: "jstate \<Rightarrow> bool" where
  "lits_ok s \<longleftrightarrow> (\<forall>ls. s = InLit ls \<longrightarrow> (\<forall>l \<in> set ls. 97 \<le> l \<and> l \<le> 122))"

lemma lits_ok_simps [simp]:
  "lits_ok (InLit ls) \<longleftrightarrow> (\<forall>l \<in> set ls. 97 \<le> l \<and> l \<le> 122)"
  "(\<nexists>ls. s = InLit ls) \<Longrightarrow> lits_ok s"
  by (auto simp: lits_ok_def)

section \<open>Steps\<close>

lemma end_value_facts:
  assumes "end_value stk c = Some (s1, stk1)"
  shows "s1 = EndTop \<or> s1 = EndValue \<or> s1 = BeginValue \<or> s1 = BeginString"
    "c \<noteq> 34" "length stk1 \<le> length stk"
    "json_space c \<Longrightarrow> stk1 = stk \<and> (s1 = EndValue \<or> s1 = EndTop)"
  using assms
  by (cases "(stk, c)" rule: end_value.cases; auto simp: after_pop_def json_space_def split: if_splits)+

lemma begin_value_facts:
  assumes "begin_value stk c = Some (s1, stk1)"
  shows "lits_ok s1" "in_text s1 \<longleftrightarrow> c = 34" "s1 \<noteq> InStringEsc"
    "length stk1 \<le> length stk + (if c = 123 \<or> c = 91 then 1 else 0)"
    "json_space c \<Longrightarrow> stk1 = stk \<and> s1 = BeginValue"
  using assms by (auto simp: begin_value_def push_state_def json_space_def split: if_splits)

lemma step_text_flags:
  assumes "step s stk c = Some (s1, stk1)" "in_text s"
  shows "(in_text s1 \<longleftrightarrow> s = InStringEsc \<or> c \<noteq> 34) \<and> (s1 = InStringEsc \<longleftrightarrow> s \<noteq> InStringEsc \<and> c = 92) \<and>
    stk1 = stk \<and> lits_ok s1"
proof -
  consider "s = InString" | "s = InStringEsc" | n where "s = InStringEscU n"
    using assms(2) by (cases s) auto
  then show ?thesis
  proof cases
    case 1
    with assms(1) show ?thesis by (simp split: if_splits)
  next
    case 2
    with assms(1) show ?thesis by (auto split: if_splits)
  next
    case 3
    with assms(1) show ?thesis by (auto simp: json_hex_def json_digit_def split: if_splits)
  qed
qed

text \<open>
  What a step outside a string is: it skips a space, goes on in a number or a word, ends a value,
  begins a value, opens the string of a key, or closes an empty object.  Only ending and
  beginning a value look at the stack.
\<close>

fun in_word :: "jstate \<Rightarrow> bool" where
  "in_word Neg = True" | "in_word S0 = True" | "in_word S1 = True" | "in_word Dot = True"
| "in_word Dot0 = True" | "in_word SE = True" | "in_word SESign = True" | "in_word E0 = True"
| "in_word EndValue = True" | "in_word (InLit ls) = True"
| "in_word _ = False"

abbreviation separator :: "nat \<Rightarrow> bool" where
  "separator c \<equiv> json_space c \<or> c = 44 \<or> c = 125 \<or> c = 93"

definition goes_on :: "jstate \<Rightarrow> nat \<Rightarrow> jstate \<Rightarrow> bool" where
  "goes_on s c s1 \<longleftrightarrow> in_word s1 \<and> lits_ok s1 \<and> c \<notin> {34, 123, 91} \<and> \<not> separator c \<and>
     (\<forall>ps. step s ps c = Some (s1, ps))"

lemma word_bytes:
  "json_digit c \<Longrightarrow> c \<notin> {34, 123, 91} \<and> \<not> separator c"
  "c \<in> {43, 45, 46, 69, 101} \<Longrightarrow> c \<notin> {34, 123, 91} \<and> \<not> separator c"
  "97 \<le> c \<Longrightarrow> c \<le> 122 \<Longrightarrow> c \<notin> {34, 123, 91} \<and> \<not> separator c"
  by (auto simp: json_digit_def json_space_def)

lemma goes_onI:
  assumes "in_word s1" "lits_ok s1" "\<And>ps. step s ps c = Some (s1, ps)"
    and "json_digit c \<or> c \<in> {43, 45, 46, 69, 101} \<or> 97 \<le> c \<and> c \<le> 122"
  shows "goes_on s c s1"
  using assms(1-3) word_bytes assms(4) unfolding goes_on_def by blast

lemma word_step:
  assumes "step s stk c = Some (s1, stk1)" "in_word s" "lits_ok s"
  shows "goes_on s c s1 \<and> stk1 = stk \<or> (\<forall>ps. step s ps c = end_value ps c) \<and> value_end s"
proof -
  have go: ?thesis if "\<And>ps. step s ps c = Some (s1, ps)" "in_word s1" "lits_ok s1"
      "json_digit c \<or> c \<in> {43, 45, 46, 69, 101} \<or> 97 \<le> c \<and> c \<le> 122"
    using goes_onI[OF that(2,3,1,4)] that(1)[of stk] assms(1) by simp
  have stop: ?thesis if "\<And>ps. step s ps c = end_value ps c" "value_end s" using that by blast
  show ?thesis
  proof (cases s)
    case Neg
    with assms(1) show ?thesis by (intro go) (auto simp: json_digit_def split: if_splits)
  next
    case S0
    then show ?thesis
    proof (cases "c \<in> {46, 101, 69}")
      case True
      with assms(1) S0 show ?thesis by (intro go) (auto simp: after_int_def)
    qed (intro stop, simp_all add: after_int_def value_end_def)
  next
    case S1
    then show ?thesis
    proof (cases "json_digit c \<or> c \<in> {46, 101, 69}")
      case True
      with assms(1) S1 show ?thesis by (intro go) (auto simp: after_int_def split: if_splits)
    qed (intro stop, simp_all add: after_int_def value_end_def)
  next
    case Dot
    with assms(1) show ?thesis by (intro go) (auto split: if_splits)
  next
    case Dot0
    then show ?thesis
    proof (cases "json_digit c \<or> c \<in> {101, 69}")
      case True
      with assms(1) Dot0 show ?thesis by (intro go) (auto split: if_splits)
    qed (intro stop, simp_all add: value_end_def)
  next
    case SE
    with assms(1) show ?thesis by (intro go) (auto simp: exp_sign_def split: if_splits)
  next
    case SESign
    with assms(1) show ?thesis by (intro go) (auto simp: exp_sign_def split: if_splits)
  next
    case E0
    then show ?thesis
    proof (cases "json_digit c")
      case True
      with assms(1) E0 show ?thesis by (intro go) auto
    qed (intro stop, simp_all add: value_end_def)
  next
    case (InLit ls)
    then show ?thesis
    proof (cases ls)
      case Cons
      with assms(1,3) InLit show ?thesis by (intro go) (auto split: if_splits)
    qed (intro stop, simp_all add: value_end_def)
  qed (use assms(2) stop in \<open>simp_all add: value_end_def\<close>)
qed

lemma step_kind:
  assumes "step s stk c = Some (s1, stk1)" "\<not> in_text s" "lits_ok s"
  obtains
    (space) "json_space c" "s1 = s" "stk1 = stk" "\<And>ps. step s ps c = Some (s1, ps)"
  | (word) "goes_on s c s1" "stk1 = stk"
  | (ends) "end_value stk c = Some (s1, stk1)" "\<And>ps. step s ps c = end_value ps c"
  | (begins) "begin_value stk c = Some (s1, stk1)" "\<And>ps. step s ps c = begin_value ps c"
  | (key) "c = 34" "s1 = InString" "stk1 = stk" "\<And>ps. step s ps c = Some (InString, ps)"
  | (empty) p where "s = BeginStringOrEmpty" "c = 125" "stk = p # stk1" "s1 = after_pop stk1"
proof (cases "in_word s")
  case True
  with word_step[OF assms(1) True assms(3)] assms(1) word ends show thesis by auto
next
  case False
  show thesis
  proof (cases s)
    case BeginValueOrEmpty
    consider "json_space c" | "\<not> json_space c" "c = 93" | "\<not> json_space c" "c \<noteq> 93" by blast
    then show thesis
      by cases (use assms(1) BeginValueOrEmpty space ends begins in simp_all)
  next
    case BeginString
    with assms(1) show thesis
      by (cases "json_space c"; cases "c = 34") (use space key in \<open>simp_all add: begin_string_def\<close>)
  next
    case BeginStringOrEmpty
    consider "json_space c" | "\<not> json_space c" "c = 125" | "\<not> json_space c" "c = 34"
      using assms(1) BeginStringOrEmpty by (auto simp: begin_string_def split: if_splits)
    then show thesis
    proof cases
      case 2
      with assms(1) BeginStringOrEmpty empty show thesis by (cases stk) auto
    qed (use assms(1) BeginStringOrEmpty space key in \<open>simp_all add: begin_string_def\<close>)
  next
    case EndTop
    with assms(1) space show thesis by (simp split: if_splits)
  qed (use assms False begins in simp_all)
qed

text \<open>Consequences for the state and for the depth.\<close>

definition depth_after :: "nat \<Rightarrow> nat \<Rightarrow> nat" where
  "depth_after c d = (if c = 123 \<or> c = 91 then Suc d else if c = 125 \<or> c = 93 then d - 1 else d)"

lemma depth_after_simps [simp]:
  "json_space c \<Longrightarrow> depth_after c d = d" "depth_after 34 d = d"
  by (auto simp: depth_after_def json_space_def)

lemma depth_after_le: "depth_after c d \<le> d + (if c = 123 \<or> c = 91 then 1 else 0)"
  by (simp add: depth_after_def)

lemma end_value_depth:
  assumes "end_value stk c = Some (s1, stk1)"
  shows "length stk1 = depth_after c (length stk) \<and> (stk1 = [] \<longrightarrow> s1 = EndTop)"
proof (cases "json_space c")
  case True
  with assms show ?thesis by (cases "(stk, c)" rule: end_value.cases) auto
next
  case False
  with assms show ?thesis
    by (cases "(stk, c)" rule: end_value.cases) (auto simp: depth_after_def after_pop_def split: if_splits)
qed

lemma begin_value_depth:
  assumes "begin_value stk c = Some (s1, stk1)"
  shows "length stk1 = depth_after c (length stk)"
proof (cases "json_space c")
  case True
  with begin_value_facts(5)[OF assms] show ?thesis by simp
next
  case False
  with assms show ?thesis
    unfolding begin_value_def push_state_def depth_after_def by (simp split: if_splits) (auto split: if_splits)
qed

lemma step_plain_flags:
  assumes "step s stk c = Some (s1, stk1)" "\<not> in_text s" "lits_ok s"
  shows "(in_text s1 \<longleftrightarrow> c = 34) \<and> s1 \<noteq> InStringEsc \<and> lits_ok s1 \<and> length stk1 = depth_after c (length stk)"
  using assms
proof (cases rule: step_kind)
  case space
  then have "c \<noteq> 34" by (auto simp: json_space_def)
  with space assms(2,3) show ?thesis by auto
next
  case word
  have "\<not> in_text s1" if "in_word s1" using that by (cases s1) auto
  with word show ?thesis by (auto simp: goes_on_def depth_after_def)
next
  case ends
  with end_value_facts(1,2)[OF ends(1)] end_value_depth[OF ends(1)] show ?thesis by auto
next
  case begins
  with begin_value_facts[OF begins(1)] begin_value_depth[OF begins(1)] show ?thesis by auto
next
  case empty
  then show ?thesis by (auto simp: depth_after_def after_pop_def)
qed simp_all

lemma step_emptied:
  assumes "step s stk c = Some (s1, [])" "\<not> in_text s" "lits_ok s" "stk \<noteq> []"
  shows "s1 = EndTop"
  using assms(1-3)
proof (cases rule: step_kind)
  case ends
  with end_value_depth[OF ends(1)] show ?thesis by blast
next
  case begins
  with begin_value_depth[OF begins(1)] assms(4) show ?thesis by (auto simp: depth_after_def begin_value_def split: if_splits)
qed (use assms(4) in \<open>simp_all add: after_pop_def\<close>)

lemma step_lits: "step s stk c = Some (s1, stk1) \<Longrightarrow> lits_ok s \<Longrightarrow> lits_ok s1"
  using step_text_flags step_plain_flags by blast

end
