(* ===== verification/Json_Strings.thy ===== *)
theory Json_Strings
  imports Json_Scan
begin

text \<open>
  Strings in JSON: what \<open>json.Marshal\<close> quotes, \<open>json.Unmarshal\<close> reads back, and the scanner
  and the decoder find the closing quote.
\<close>

section \<open>Quoted strings\<close>

lemma hex_digit_hex [simp]: "d < 16 \<Longrightarrow> json_hex (hex_digit d)"
  by (auto simp: hex_digit_def json_hex_def json_digit_def)

lemma hex_val_digit [simp]: "d < 16 \<Longrightarrow> hex_val (hex_digit d) = d"
  by (auto simp: hex_digit_def hex_val_def json_digit_def)

lemma hex_digit_lt [simp]: "d < 16 \<Longrightarrow> hex_digit d < 128"
  by (simp add: hex_digit_def)

lemma hex_digit_neq [simp]: "hex_digit d \<noteq> 34" "hex_digit d \<noteq> 92"
  by (simp_all add: hex_digit_def)

lemma json_hex_48 [simp]: "json_hex 48" "json_hex 50" "hex_val 48 = 0" "hex_val 50 = 2"
  "json_hex 102" "json_hex 100"
  by (simp_all add: json_hex_def json_digit_def hex_val_def)

text \<open>A rune's size depends on its bytes only.\<close>

lemma rune_size_le_4: "rune_size bs \<le> 4"
  by (cases bs rule: rune_size.cases) (auto split: list.splits)

text \<open>The sizes of \<open>rune_size\<close> one by one.\<close>

lemma rune_size_1: "b0 < 128 \<Longrightarrow> rune_size (b0 # bs) = 1"
  by (cases bs; cases "tl bs") auto

lemma rune_size_2: "194 \<le> b0 \<Longrightarrow> b0 \<le> 223 \<Longrightarrow> rune_size (b0 # b1 # bs) = (if is_cont b1 then 2 else 0)"
  by (cases bs) auto

lemma rune_size_cases:
  assumes "rune_size bs \<noteq> 0"
  obtains b0 cs where "bs = b0 # cs" "b0 < 128"
  | b0 b1 cs where "bs = b0 # b1 # cs" "194 \<le> b0" "b0 \<le> 223" "is_cont b1"
  | b0 b1 b2 cs where "bs = b0 # b1 # b2 # cs" "224 \<le> b0" "b0 \<le> 239" "is_cont b2"
      "(if b0 = 224 then 160 else 128) \<le> b1" "b1 \<le> (if b0 = 237 then 159 else 191)"
  | b0 b1 b2 b3 cs where "bs = b0 # b1 # b2 # b3 # cs" "240 \<le> b0" "b0 \<le> 244" "is_cont b2" "is_cont b3"
      "(if b0 = 240 then 144 else 128) \<le> b1" "b1 \<le> (if b0 = 244 then 143 else 191)"
  using assms that
  by (cases bs rule: rune_size.cases) (force split: if_splits list.splits)+

lemma rune_size_take:
  "rune_size bs \<noteq> 0 \<Longrightarrow> rune_size (take (rune_size bs) bs @ xs) = rune_size bs"
  by (erule rune_size_cases) (simp_all add: rune_size_1 rune_size_2)

lemma quote_body_Nil [simp]: "quote_body [] = []"
  by (simp add: quote_body.simps)

lemma unquote_Nil [simp]: "unquote [] = []"
  by (simp add: unquote.simps)

lemma unquote_plain: "c < 128 \<Longrightarrow> c \<noteq> 92 \<Longrightarrow> unquote (c # cs) = c # unquote cs"
  by (simp add: unquote.simps[of "c # cs"])

lemma unquote_esc: "e \<noteq> 117 \<Longrightarrow> unquote (92 # e # cs) = esc_byte e # unquote cs"
proof -
  assume "e \<noteq> 117"
  then have "getu4 (92 # e # cs) = None" by (cases "92 # e # cs" rule: getu4.cases) auto
  then show ?thesis by (simp add: unquote.simps[of "92 # e # cs"])
qed

lemma utf16_pair_low [simp]: "r < 55296 \<Longrightarrow> utf16_pair r r1 = None"
  by (simp add: utf16_pair_def)

lemma unquote_u4:
  assumes "getu4 (92 # 117 # h1 # h2 # h3 # h4 # cs) = Some r" "r < 55296"
  shows "unquote (92 # 117 # h1 # h2 # h3 # h4 # cs) = utf8_encode r @ unquote cs"
  using assms by (simp add: unquote.simps[of "92 # 117 # h1 # h2 # h3 # h4 # cs"] split: option.splits)

lemma unquote_quote_ascii: "c < 128 \<Longrightarrow> unquote (quote_ascii c @ xs) = c # unquote xs"
  by (auto simp: quote_ascii_def u00_def unquote_esc esc_byte_def unquote_plain unquote_u4 utf8_encode_def)

lemma unquote_sep:
  assumes "c = 168 \<or> c = 169"
  shows "unquote ([92, 117, 50, 48, 50, hex_digit (c mod 16)] @ xs) = 226 # 128 # c # unquote xs"
proof -
  have "c mod 16 < 16" by simp
  with assms show ?thesis by (auto simp: unquote_u4 utf8_encode_def)
qed

lemma rune_size_le_length: "rune_size bs \<le> length bs"
  by (cases bs rule: rune_size.cases) (auto split: list.splits)

lemma unquote_multibyte:
  "\<not> c < 128 \<Longrightarrow> rune_size (c # cs) \<noteq> 0 \<Longrightarrow> unquote (c # cs) =
     take (rune_size (c # cs)) (c # cs) @ unquote (drop (rune_size (c # cs)) (c # cs))"
  by (simp add: unquote.simps[of "c # cs"])

lemma unquote_rune:
  assumes "rune_size bs \<noteq> 0" "\<not> hd bs < 128"
  shows "unquote (take (rune_size bs) bs @ xs) = take (rune_size bs) bs @ unquote xs"
proof -
  let ?ys = "take (rune_size bs) bs @ xs"
  obtain c ys where ys: "?ys = c # ys" "c = hd bs"
    using assms(1) by (cases bs; cases "rune_size bs") auto
  have n: "rune_size ?ys = rune_size bs" "take (rune_size bs) ?ys = take (rune_size bs) bs"
      "drop (rune_size bs) ?ys = xs"
    using rune_size_take[OF assms(1)] rune_size_le_length[of bs] by simp_all
  have "unquote ?ys = take (rune_size ?ys) ?ys @ unquote (drop (rune_size ?ys) ?ys)"
    unfolding ys(1) by (rule unquote_multibyte) (use assms ys n(1) in auto)
  then show ?thesis unfolding n .
qed

text \<open>\<open>json.Unmarshal\<close> reads back the string \<open>json.Marshal\<close> wrote, when it is UTF-8.\<close>

lemma take_3_eq: "take 3 bs = [a, b, c] \<Longrightarrow> bs = a # b # c # drop 3 bs"
  by (metis append_Cons append_Nil append_take_drop_id)

abbreviation line_sep :: "nat list \<Rightarrow> bool" where
  "line_sep bs \<equiv> take 3 bs = [226, 128, 168] \<or> take 3 bs = [226, 128, 169]"

lemma line_sepE:
  assumes "line_sep bs"
  obtains d cs where "d = 168 \<or> d = 169" "bs = 226 # 128 # d # cs"
  using assms by (elim disjE) (drule take_3_eq, rule that; simp)+

lemma quote_body_ascii: "c < 128 \<Longrightarrow> quote_body (c # cs) = quote_ascii c @ quote_body cs"
  by (simp add: quote_body.simps[of "c # cs"])

lemma rune_size_sep: "d = 168 \<or> d = 169 \<Longrightarrow> rune_size (226 # 128 # d # cs) = 3"
  by (auto simp: is_cont_def)

lemma quote_body_sep:
  "d = 168 \<or> d = 169 \<Longrightarrow> quote_body (226 # 128 # d # cs) =
     [92, 117, 50, 48, 50, hex_digit (d mod 16)] @ quote_body cs"
  using rune_size_sep[of d cs] by (subst quote_body.simps) auto

lemma quote_body_rune:
  assumes "rune_size bs \<noteq> 0" "\<not> hd bs < 128" "\<not> line_sep bs"
  shows "quote_body bs = take (rune_size bs) bs @ quote_body (drop (rune_size bs) bs)"
  using assms by (cases bs) (auto simp: quote_body.simps[of "_ # _"])

lemma utf8_valid_drop: "utf8_valid bs \<Longrightarrow> bs \<noteq> [] \<Longrightarrow> rune_size bs \<noteq> 0 \<and> utf8_valid (drop (rune_size bs) bs)"
  by (cases bs) (auto simp: drop_Cons' split: if_splits)

text \<open>Induction over the runes of a text.\<close>

lemma utf8_induct [consumes 1, case_names Nil ascii sep rune]:
  assumes "utf8_valid bs" "P []"
    and "\<And>c cs. c < 128 \<Longrightarrow> utf8_valid cs \<Longrightarrow> P cs \<Longrightarrow> P (c # cs)"
    and "\<And>d cs. d = 168 \<or> d = 169 \<Longrightarrow> utf8_valid cs \<Longrightarrow> P cs \<Longrightarrow> P (226 # 128 # d # cs)"
    and "\<And>bs. rune_size bs \<noteq> 0 \<Longrightarrow> \<not> hd bs < 128 \<Longrightarrow> \<not> line_sep bs \<Longrightarrow>
       utf8_valid (drop (rune_size bs) bs) \<Longrightarrow> P (drop (rune_size bs) bs) \<Longrightarrow> P bs"
  shows "P bs"
  using assms(1)
proof (induction bs rule: length_induct)
  case (1 bs)
  show ?case
  proof (cases bs)
    case Nil
    then show ?thesis using assms(2) by simp
  next
    case (Cons c cs)
    then have ne: "bs \<noteq> []" by simp
    note size = conjunct1[OF utf8_valid_drop[OF 1(2) ne]] conjunct2[OF utf8_valid_drop[OF 1(2) ne]]
    have "length (drop (rune_size bs) bs) < length bs" using size(1) ne by simp
    then have IH: "P (drop (rune_size bs) bs)" using 1(1) size(2) by blast
    show ?thesis
    proof (cases "c < 128")
      case True
      then have "rune_size bs = 1" using Cons by (cases cs; cases "tl cs") auto
      with size(2) IH Cons have "utf8_valid cs" "P cs" by simp_all
      then show ?thesis unfolding Cons by (rule assms(3)[OF True])
    next
      case big: False
      show ?thesis
      proof (cases "line_sep bs")
        case True
        then obtain d ds where d: "d = 168 \<or> d = 169" "bs = 226 # 128 # d # ds" by (rule line_sepE)
        have "rune_size bs = 3" unfolding d(2) by (rule rune_size_sep[OF d(1)])
        with size(2) IH d(2) have "utf8_valid ds" "P ds" by simp_all
        then show ?thesis unfolding d(2) by (rule assms(4)[OF d(1)])
      next
        case False
        show ?thesis by (rule assms(5)[OF size(1) _ False size(2) IH]) (use big Cons in simp)
      qed
    qed
  qed
qed

lemma unquote_quote_body: "utf8_valid bs \<Longrightarrow> unquote (quote_body bs @ xs) = bs @ unquote xs"
proof (induction rule: utf8_induct)
  case (ascii c cs)
  then show ?case by (simp add: quote_body_ascii unquote_quote_ascii)
next
  case (sep d cs)
  then show ?case using unquote_sep[OF sep(1)] by (simp add: quote_body_sep)
next
  case (rune bs)
  then show ?case
    using unquote_rune[of bs] by (simp add: quote_body_rune)
qed simp

text \<open>The scanner stays in the string, and the string ends at its closing quote.\<close>

definition in_string :: "nat list \<Rightarrow> bool" where
  "in_string xs \<longleftrightarrow>
     (\<forall>stk ys. steps InString stk (xs @ ys) = steps InString stk ys) \<and>
     (\<forall>ys. string_len False (xs @ ys) = length xs + string_len False ys)"

lemma in_string_Nil [simp]: "in_string []"
  by (simp add: in_string_def)

lemma in_string_append: "in_string xs \<Longrightarrow> in_string ys \<Longrightarrow> in_string (xs @ ys)"
  by (simp add: in_string_def)

lemma in_string_plain: "\<forall>b \<in> set xs. b \<noteq> 34 \<and> b \<noteq> 92 \<and> 32 \<le> b \<Longrightarrow> in_string xs"
  by (induction xs) (simp_all add: in_string_def)

lemma in_string_u00: "c < 256 \<Longrightarrow> in_string (u00 c)"
  by (auto simp: in_string_def u00_def)

lemma in_string_sep:
  "in_string [92, 117, 50, 48, 50, hex_digit (d mod 16)]"
  by (auto simp: in_string_def)

lemma in_string_ascii: "c < 128 \<Longrightarrow> in_string (quote_ascii c)"
  using in_string_u00[of c] in_string_plain[of "[c]"]
  by (auto simp: quote_ascii_def) (auto simp: in_string_def)

lemma rune_bytes:
  "rune_size bs \<noteq> 0 \<Longrightarrow> \<not> hd bs < 128 \<Longrightarrow> b \<in> set (take (rune_size bs) bs) \<Longrightarrow> 128 \<le> b"
  by (cases bs rule: rune_size.cases) (auto simp: is_cont_def split: if_splits list.splits)

lemma in_string_quote_body: "utf8_valid bs \<Longrightarrow> in_string (quote_body bs)"
proof (induction rule: utf8_induct)
  case (ascii c cs)
  then show ?case by (simp add: quote_body_ascii in_string_append in_string_ascii)
next
  case (sep d cs)
  then show ?case
    using in_string_append[OF in_string_sep[of d] sep(3)] by (simp add: quote_body_sep[OF sep(1)])
next
  case (rune bs)
  have "in_string (take (rune_size bs) bs)"
    by (rule in_string_plain) (use rune_bytes[OF rune(1,2)] in force)
  with rune show ?case by (simp add: quote_body_rune in_string_append)
qed simp

lemma u00_bytes: "c < 256 \<Longrightarrow> \<forall>b \<in> set (u00 c). b < 256"
  by (auto simp: u00_def hex_digit_def)

lemma quote_body_bytes: "utf8_valid bs \<Longrightarrow> \<forall>b \<in> set bs. b < 256 \<Longrightarrow> \<forall>b \<in> set (quote_body bs). b < 256"
proof (induction rule: utf8_induct)
  case (ascii c cs)
  then show ?case using u00_bytes[of c] by (auto simp: quote_body_ascii quote_ascii_def)
next
  case (sep d cs)
  have "hex_digit (d mod 16) < 128" by simp
  then show ?case using sep by (auto simp: quote_body_sep simp del: hex_digit_lt)
next
  case (rune bs)
  then show ?case by (auto simp: quote_body_rune dest: in_set_takeD in_set_dropD)
qed simp

end
