(* ===== verification/Json_Compact.thy ===== *)
theory Json_Compact
  imports Json_Strings
begin

text \<open>
  What \<open>compact\<close> makes of a JSON text is accepted by the scanner too, alone and inside an object.
\<close>

section \<open>Compacted texts\<close>

text \<open>
  What \<open>compact\<close> writes scans like the text it was given, without white space outside strings,
  also inside an object (\<open>base\<close>).  After a number the given text may end the value with a
  space, where the compacted one is still in the number.
\<close>

fun tsteps :: "jstate \<Rightarrow> jparse list \<Rightarrow> nat list \<Rightarrow> (jstate \<times> jparse list) option" where
  "tsteps s stk [] = Some (s, stk)"
| "tsteps s stk (c # cs) =
     (if json_space c \<and> \<not> in_text s then None
      else case step s stk c of None \<Rightarrow> None | Some (s', stk') \<Rightarrow> tsteps s' stk' cs)"

lemma tsteps_steps: "tsteps s stk xs = Some r \<Longrightarrow> steps s stk xs = Some r"
  by (induction xs arbitrary: s stk) (auto split: if_splits option.splits)

definition sim :: "jparse list \<Rightarrow> jstate \<Rightarrow> jstate \<Rightarrow> bool" where
  "sim base s t \<longleftrightarrow>
     s = t \<and> (s = EndTop \<longrightarrow> base = []) \<or> (s = EndValue \<or> s = EndTop) \<and> value_end t"

lemma end_value_sim:
  assumes "end_value stk c = Some (s1, stk1)" "\<not> json_space c"
  shows "c \<in> {58, 44, 125, 93} \<and>
    (\<exists>t1. end_value (stk @ base) c = Some (t1, stk1 @ base) \<and> sim base s1 t1)"
  using assms
  by (cases "(stk, c)" rule: end_value.cases)
    (auto simp: sim_def value_end_def after_pop_def split: if_splits)

lemma sim_refl: "s \<noteq> EndTop \<Longrightarrow> sim base s s"
  by (simp add: sim_def)

lemma begin_value_sim:
  assumes "begin_value stk c = Some (s1, stk1)" "length stk1 + length base \<le> max_nesting"
  shows "begin_value (stk @ base) c = Some (s1, stk1 @ base) \<and> s1 \<noteq> EndTop"
  using assms by (auto simp: begin_value_def push_state_def split: if_splits)

lemma step_sim_same:
  assumes "step s stk c = Some (s1, stk1)" "\<not> (json_space c \<and> \<not> in_text s)" "lits_ok s"
    and "length stk1 + length base \<le> max_nesting" "s \<noteq> EndTop"
  shows "\<exists>t1. step s (stk @ base) c = Some (t1, stk1 @ base) \<and> sim base s1 t1"
proof (cases "in_text s")
  case True
  have "step s (stk @ base) c = Some (s1, stk1 @ base)" "s1 \<noteq> EndTop"
    using assms(1) True by (cases s; auto split: if_splits)+
  then show ?thesis by (simp add: sim_refl)
next
  case False
  with assms(2) have ns: "\<not> json_space c" by simp
  from assms(1) False assms(3) show ?thesis
  proof (cases rule: step_kind)
    case word
    then have "s1 \<noteq> EndTop" by (auto simp: goes_on_def)
    with word show ?thesis by (auto simp: goes_on_def sim_refl)
  next
    case ends
    with end_value_sim[OF ends(1) ns] show ?thesis by simp
  next
    case begins
    with begin_value_sim[OF begins(1) assms(4)] show ?thesis by (simp add: sim_refl)
  next
    case empty
    then show ?thesis by (auto simp: after_pop_def sim_def value_end_def json_space_def)
  qed (use ns in \<open>simp_all add: sim_refl\<close>)
qed

lemma step_sim:
  assumes "step s stk c = Some (s1, stk1)" "sim base s t" "\<not> (json_space c \<and> \<not> in_text s)"
    and "length stk1 + length base \<le> max_nesting" "lits_ok s"
  shows "\<exists>t1. step t (stk @ base) c = Some (t1, stk1 @ base) \<and> sim base s1 t1"
proof (cases "s = EndTop")
  case True
  with assms(1,3) show ?thesis by simp
next
  case False
  show ?thesis
  proof (cases "s = t")
    case True
    with step_sim_same[OF assms(1,3,5,4) False] show ?thesis by simp
  next
    case neq: False
    with False assms(2) have "s = EndValue" "value_end t" by (auto simp: sim_def)
    with assms(1,3) end_value_sim[of stk c s1 stk1 base] step_end[of t c "stk @ base"]
    show ?thesis by auto
  qed
qed

lemma step_space:
  assumes "step s stk c = Some (s1, stk1)" "sim base s t" "json_space c" "\<not> in_text s" "lits_ok s"
  shows "stk1 = stk \<and> sim base s1 t \<and> \<not> in_text s1"
proof -
  have c: "c = 32 \<or> c = 9 \<or> c = 10 \<or> c = 13" using assms(3) by (simp add: json_space_def)
  have e: "stk1 = stk \<and> (s1 = EndValue \<or> s1 = EndTop)" if "end_value stk c = Some (s1, stk1)"
    using end_value_facts(4)[OF that assms(3)] .
  show ?thesis
  proof (cases s)
    case (InLit ls)
    then show ?thesis
      using assms e c by (cases ls) (auto simp: sim_def value_end_def split: if_splits)
  qed (use assms e c in \<open>auto simp: step_defs sim_def value_end_def json_digit_def split: if_splits list.splits\<close>)
qed

text \<open>The bytes \<open>compact\<close> replaces occur in strings only.\<close>

lemma step_special:
  assumes "step s stk c = Some (s1, stk1)" "c = 60 \<or> c = 62 \<or> c = 38 \<or> 128 \<le> c" "lits_ok s"
  shows "s = InString \<and> s1 = InString \<and> stk1 = stk"
proof -
  have ne: "c \<notin> {9, 10, 13, 32, 34, 43, 44, 45, 46, 48, 58, 69, 91, 92, 93, 101, 123, 125, 98, 102, 110, 114, 116, 47, 117}"
    "\<not> json_digit c" "\<not> json_hex c" "\<not> (49 \<le> c \<and> c \<le> 57)" "\<not> c < 32" "\<not> json_space c"
    using assms(2) by (auto simp: json_digit_def json_hex_def json_space_def)
  have e: "end_value stk c = None" for stk
    using ne by (cases "(stk, c)" rule: end_value.cases) auto
  have b: "begin_value stk c = None" "begin_string stk c = None" "after_int stk c = None"
    using ne e by (auto simp: begin_value_def begin_string_def after_int_def)
  show ?thesis
  proof (cases s)
    case (InLit ls)
    show ?thesis
    proof (cases ls)
      case (Cons l ls')
      with assms(2,3) InLit have "c \<noteq> l" by auto
      with assms(1) InLit Cons show ?thesis by simp
    qed (use assms(1) InLit e in simp)
  qed (use assms(1) ne e b in \<open>auto simp: exp_sign_def\<close>)
qed

lemma tsteps_u00: "c < 256 \<Longrightarrow> tsteps InString stk (u00 c @ ys) = tsteps InString stk ys"
  by (simp add: u00_def)

lemma tsteps_sep: "tsteps InString stk ([92, 117, 50, 48, 50, hex_digit (d mod 16)] @ ys) = tsteps InString stk ys"
  by simp

abbreviation opens :: "nat list \<Rightarrow> nat" where
  "opens q \<equiv> length (filter (\<lambda>c. c = 123 \<or> c = 91) q)"

lemma opens_drop: "opens (drop n q) \<le> opens q"
  by (metis append_take_drop_id filter_append le_add2 length_append)

lemma compact_unfold:
  "c = 60 \<or> c = 62 \<or> c = 38 \<Longrightarrow> compact ins esc (c # cs) = u00 c @ compact ins False cs"
  "d = 168 \<or> d = 169 \<Longrightarrow> compact ins esc (226 # 128 # d # cs) =
     [92, 117, 50, 48, 50, hex_digit (d mod 16)] @ compact ins False cs"
  "\<not> (c = 60 \<or> c = 62 \<or> c = 38) \<Longrightarrow> \<not> line_sep (c # cs) \<Longrightarrow>
     compact True esc (c # cs) = c # compact (esc \<or> c \<noteq> 34) (\<not> esc \<and> c = 92) cs"
  "\<not> (c = 60 \<or> c = 62 \<or> c = 38) \<Longrightarrow> \<not> line_sep (c # cs) \<Longrightarrow>
     compact False esc (c # cs) =
       (if json_space c then compact False False cs else c # compact (c = 34) False cs)"
  by auto

lemma compact_sim:
  assumes "steps s stk q = Some (s1, stk1)" "sim base s t" "lits_ok s"
    and "length stk + length base + opens q \<le> max_nesting"
  shows "\<exists>t1. tsteps t (stk @ base) (compact (in_text s) (s = InStringEsc) q) = Some (t1, stk1 @ base) \<and>
    sim base s1 t1"
  using assms
proof (induction "length q" arbitrary: q s stk t rule: less_induct)
  case less
  note IH = less.hyps and len = less.prems(4)
  show ?case
  proof (cases q)
    case Nil
    with less.prems show ?thesis by simp
  next
    case (Cons c cs)
    from less.prems(1) Cons obtain s2 stk2 where step: "step s stk c = Some (s2, stk2)"
      and rest: "steps s2 stk2 cs = Some (s1, stk1)" by (auto split: option.splits)
    have len1: "length stk + length base + opens cs \<le> max_nesting" using len Cons by (simp split: if_splits)
    have ins: "sim base InString InString" "lits_ok InString" by (simp_all add: sim_def)
    consider "c = 60 \<or> c = 62 \<or> c = 38" | "line_sep q"
      | "\<not> (c = 60 \<or> c = 62 \<or> c = 38)" "\<not> line_sep q" "json_space c" "\<not> in_text s"
      | "\<not> (c = 60 \<or> c = 62 \<or> c = 38)" "\<not> line_sep q" "\<not> (json_space c \<and> \<not> in_text s)" by blast
    then show ?thesis
    proof cases
      case 1
      have s: "s = InString" "s2 = InString" "stk2 = stk"
        using step_special[OF step _ less.prems(3)] 1 by auto
      have t: "t = InString" using less.prems(2) s by (simp add: sim_def)
      have "\<exists>t1. tsteps InString (stk @ base) (compact True False cs) = Some (t1, stk1 @ base) \<and> sim base s1 t1"
        using IH[of cs InString stk InString] rest s Cons len1 ins by simp
      then show ?thesis using 1 s t Cons by (auto simp: compact_unfold(1) tsteps_u00)
    next
      case 2
      obtain d ds where d: "d = 168 \<or> d = 169" "q = 226 # 128 # d # ds" using 2 by (rule line_sepE)
      have s: "s = InString" "s2 = InString" "stk2 = stk"
        using step_special[OF step _ less.prems(3)] d Cons by auto
      have t: "t = InString" using less.prems(2) s by (simp add: sim_def)
      have "steps InString stk ds = Some (s1, stk1)" using rest s d Cons by auto
      then have "\<exists>t1. tsteps InString (stk @ base) (compact True False ds) = Some (t1, stk1 @ base) \<and> sim base s1 t1"
        using IH[of ds InString stk InString] d len ins by auto
      then show ?thesis unfolding s(1) t d(2) compact_unfold(2)[OF d(1)] tsteps_sep by simp
    next
      case 3
      note sp = step_space[OF step less.prems(2) 3(3,4) less.prems(3)]
      have plain: "s2 \<noteq> InStringEsc" "lits_ok s2"
        using step_plain_flags[OF step 3(4) less.prems(3)] by auto
      have "\<exists>t1. tsteps t (stk @ base) (compact False False cs) = Some (t1, stk1 @ base) \<and> sim base s1 t1"
        using IH[of cs s2 stk t] rest sp plain Cons len1 by simp
      moreover have "compact (in_text s) (s = InStringEsc) q = compact False False cs"
        using compact_unfold(4)[of c cs] 3 Cons by auto
      ultimately show ?thesis by simp
    next
      case 4
      have depth: "lits_ok s2 \<and> length stk2 + opens cs \<le> length stk + opens q"
        using step_text_flags[OF step] step_plain_flags[OF step _ less.prems(3)] depth_after_le[of c "length stk"] Cons
        by (cases "in_text s") (auto split: if_splits)
      then obtain t2 where t2: "step t (stk @ base) c = Some (t2, stk2 @ base)" "sim base s2 t2"
        using step_sim[OF step less.prems(2) 4(3) _ less.prems(3)] len by auto
      have "\<exists>t1. tsteps t2 (stk2 @ base) (compact (in_text s2) (s2 = InStringEsc) cs) = Some (t1, stk1 @ base) \<and> sim base s1 t1"
        using IH[of cs s2 stk2 t2] rest t2(2) depth Cons len by auto
      moreover have "compact (in_text s) (s = InStringEsc) q = c # compact (in_text s2) (s2 = InStringEsc) cs"
        using step_text_flags[OF step] step_plain_flags[OF step _ less.prems(3)] 4 Cons
        by (cases "in_text s") (auto simp: compact_unfold(3,4))
      moreover have "in_text t = in_text s" using less.prems(2) by (auto simp: sim_def value_end_def)
      ultimately show ?thesis using t2(1) 4(3) by simp
    qed
  qed
qed

end
