(* ===== verification/Json_Extent.thy ===== *)
theory Json_Extent
  imports Json_Compact
begin

text \<open>
  How far a value reaches: the decoder's extent functions stop where the scanner does on a
  compacted text.
\<close>

section \<open>The extent of a compacted value\<close>

lemma after_pop_simps [simp]: "after_pop stk = EndTop \<longleftrightarrow> stk = []" "after_pop stk = EndValue \<longleftrightarrow> stk \<noteq> []"
  by (simp_all add: after_pop_def)

lemma step_EndTop:
  assumes "step s stk c = Some (EndTop, stk1)" "s = EndTop \<longrightarrow> stk = []" "lits_ok s"
  shows "stk1 = []"
proof (cases "in_text s")
  case True
  with assms(1) show ?thesis by (cases s) (auto split: if_splits)
next
  case False
  from assms(1) False assms(3) show ?thesis
  proof (cases rule: step_kind)
    case ends
    then show ?thesis by (cases "(stk, c)" rule: end_value.cases) (auto split: if_splits)
  next
    case begins
    then show ?thesis by (simp add: begin_value_def push_state_def split: if_splits)
  qed (use assms(2) in \<open>auto simp: goes_on_def after_pop_def split: if_splits\<close>)
qed

lemma steps_EndTop:
  "steps s stk q = Some (EndTop, stk1) \<Longrightarrow> s = EndTop \<longrightarrow> stk = [] \<Longrightarrow> lits_ok s \<Longrightarrow> stk1 = []"
proof (induction q arbitrary: s stk)
  case (Cons c cs)
  then obtain s2 stk2 where step: "step s stk c = Some (s2, stk2)" and rest: "steps s2 stk2 cs = Some (EndTop, stk1)"
    by (auto split: option.splits)
  have "s2 = EndTop \<longrightarrow> stk2 = []" using step_EndTop step Cons.prems(2,3) by blast
  moreover have "lits_ok s2" using step_lits[OF step Cons.prems(3)] .
  ultimately show ?case using Cons.IH[OF rest] by blast
qed simp

lemma eof_states:
  assumes "step s stk 32 = Some (EndTop, stk1)"
  shows "(s = EndTop \<or> value_end s) \<and> (s \<noteq> EndTop \<longrightarrow> stk = [])"
proof -
  have e: "stk = []" if "end_value stk 32 = Some (EndTop, stk1)" for stk
    using that by (cases "(stk, 32::nat)" rule: end_value.cases) (auto simp: json_space_def)
  have b: "begin_value stk 32 \<noteq> Some (EndTop, stk1)" "begin_string stk 32 \<noteq> Some (EndTop, stk1)"
    by (auto simp: begin_value_def begin_string_def json_space_def)
  show ?thesis
    using assms b
    by (cases s) (auto simp: value_end_def after_int_def exp_sign_def json_space_def json_digit_def json_hex_def
        split: if_splits list.splits dest!: e)
qed

lemma json_valid_end:
  assumes "json_valid q"
  shows "\<exists>s. steps BeginValue [] q = Some (s, []) \<and> (s = EndTop \<or> value_end s)"
proof -
  from assms obtain s stk where st: "steps BeginValue [] q = Some (s, stk)"
    and valid: "s = EndTop \<or> (case step s stk 32 of Some (EndTop, _) \<Rightarrow> True | _ \<Rightarrow> False)"
    by (cases "steps BeginValue [] q") (auto simp: json_valid_def)
  have "\<exists>stk1. step s stk 32 = Some (EndTop, stk1)" if "s \<noteq> EndTop"
  proof (cases "step s stk 32")
    case (Some r)
    obtain s1 stk1 where "r = (s1, stk1)" by fastforce
    with Some that valid show ?thesis by (cases s1) auto
  qed (use that valid in simp)
  with st have s: "steps BeginValue [] q = Some (s, stk)"
    "s = EndTop \<or> (\<exists>stk1. step s stk 32 = Some (EndTop, stk1))" by blast+
  from s(2) have fin: "s = EndTop \<or> value_end s" "s \<noteq> EndTop \<longrightarrow> stk = []"
    using eof_states by blast+
  moreover have "stk = []" if "s = EndTop"
    using steps_EndTop[of BeginValue "[]" q stk] s(1) that by simp
  ultimately show ?thesis using s(1) by auto
qed

text \<open>A compacted JSON text scans without outer space, alone and as a member of an object.\<close>

lemma compact_value:
  assumes "json_valid q" "opens q < max_nesting"
  obtains t u where "tsteps BeginValue [] (compact False False q) = Some (t, [])" "t = EndTop \<or> value_end t"
    "tsteps BeginValue [ObjectValue] (compact False False q) = Some (u, [ObjectValue])" "value_end u"
proof -
  obtain s where s: "steps BeginValue [] q = Some (s, [])" "s = EndTop \<or> value_end s"
    using json_valid_end[OF assms(1)] by blast
  have start: "sim base BeginValue BeginValue" "lits_ok BeginValue" for base by (simp_all add: sim_def)
  obtain t where "tsteps BeginValue [] (compact False False q) = Some (t, [])" "sim [] s t"
    using compact_sim[OF s(1) start, of "[]"] assms(2) by auto
  moreover obtain u where "tsteps BeginValue [ObjectValue] (compact False False q) = Some (u, [ObjectValue])"
    "sim [ObjectValue] s u"
    using compact_sim[OF s(1) start, of "[ObjectValue]"] assms(2) by auto
  moreover have "t = EndTop \<or> value_end t" if "sim [] s t" using that s(2) by (auto simp: sim_def)
  moreover have "value_end u" if "sim [ObjectValue] s u"
    using that s(2) by (auto simp: sim_def value_end_def)
  ultimately show ?thesis using that by blast
qed

text \<open>Strings.\<close>

lemma EndValue_last: "tsteps EndValue [] xs = Some r \<Longrightarrow> xs = []"
  by (cases xs) (auto split: if_splits)

lemma EndTop_last: "tsteps EndTop [] xs = Some r \<Longrightarrow> xs = []"
  by (cases xs) (auto split: if_splits)

lemma tsteps_ConsE:
  assumes "tsteps s stk (c # cs) = Some r"
  obtains s1 stk1 where "\<not> (json_space c \<and> \<not> in_text s)" "step s stk c = Some (s1, stk1)"
    "tsteps s1 stk1 cs = Some r"
  using assms by (auto split: if_splits option.splits)

lemma string_len_tsteps:
  "tsteps s [] xs = Some (t, []) \<Longrightarrow> in_text s \<Longrightarrow> \<not> in_text t \<Longrightarrow>
     string_len (s = InStringEsc) (xs @ ys) = length xs"
proof (induction xs arbitrary: s)
  case (Cons c cs)
  from Cons.prems(1) obtain s1 stk1 where step: "step s [] c = Some (s1, stk1)" and rest: "tsteps s1 stk1 cs = Some (t, [])"
    by (rule tsteps_ConsE)
  note f = step_text_flags[OF step Cons.prems(2)]
  show ?case
  proof (cases "in_text s1")
    case True
    with f rest Cons.IH[of s1] Cons.prems(3) show ?thesis by auto
  next
    case False
    with f have "c = 34" "s \<noteq> InStringEsc" by auto
    moreover have "s1 = EndValue"
      using step False Cons.prems(2) by (cases s) (auto split: if_splits)
    ultimately show ?thesis using EndValue_last rest f by auto
  qed
qed simp

text \<open>Numbers and words.\<close>

lemma word_len_tsteps:
  "tsteps s [] xs = Some r \<Longrightarrow> in_word s \<Longrightarrow> lits_ok s \<Longrightarrow> word_len (xs @ 125 # ys) = length xs"
proof (induction xs arbitrary: s)
  case (Cons c cs)
  from Cons.prems(1) obtain s1 stk1 where step: "\<not> (json_space c \<and> \<not> in_text s)" "step s [] c = Some (s1, stk1)"
    and rest: "tsteps s1 stk1 cs = Some r" by (rule tsteps_ConsE)
  have ns: "\<not> json_space c" using step(1) Cons.prems(2) by (cases s) auto
  with step(2) have "goes_on s c s1 \<and> stk1 = []" using word_step[OF step(2) Cons.prems(2,3)] by auto
  then show ?case using rest Cons.IH[of s1] by (auto simp: goes_on_def)
qed simp

text \<open>Bracketed values.\<close>

lemma bracket_len_tsteps:
  "tsteps s stk xs = Some (t, []) \<Longrightarrow> stk \<noteq> [] \<Longrightarrow> lits_ok s \<Longrightarrow>
     bracket_len (length stk) (in_text s) (s = InStringEsc) (xs @ ys) = length xs"
proof (induction xs arbitrary: s stk)
  case (Cons c cs)
  from Cons.prems(1) obtain s1 stk1 where sp: "\<not> (json_space c \<and> \<not> in_text s)" and step: "step s stk c = Some (s1, stk1)"
    and rest: "tsteps s1 stk1 cs = Some (t, [])" by (rule tsteps_ConsE)
  show ?case
  proof (cases "in_text s")
    case True
    note f = step_text_flags[OF step True]
    have "bracket_len (length stk) (in_text s1) (s1 = InStringEsc) (cs @ ys) = length cs"
      using Cons.IH[OF rest] f Cons.prems(2) by simp
    with True f show ?thesis by simp
  next
    case False
    with sp have ns: "\<not> json_space c" by simp
    note f = step_plain_flags[OF step False Cons.prems(3)]
    have d: "length stk1 = depth_after c (length stk) \<and> (stk1 = [] \<longrightarrow> s1 = EndTop)"
      using f step_emptied[OF _ False Cons.prems(3,2)] step by auto
    have ne: "s \<noteq> InStringEsc" using False by auto
    show ?thesis
    proof (cases "stk1 = []")
      case True
      with d rest have "cs = []" using EndTop_last by blast
      moreover have "c = 125 \<or> c = 93" "length stk \<le> 1"
        using d True Cons.prems(2) by (auto simp: depth_after_def split: if_splits)
      ultimately show ?thesis using False ne by auto
    next
      case ne1: False
      have IH: "bracket_len (length stk1) (in_text s1) (s1 = InStringEsc) (cs @ ys) = length cs"
        using Cons.IH[OF rest ne1] f by simp
      have "\<not> (length stk \<le> 1 \<and> (c = 125 \<or> c = 93))"
        using d ne1 by (auto simp: depth_after_def split: if_splits)
      then show ?thesis using False ne f d IH by (auto simp: depth_after_def split: if_splits)
    qed
  qed
qed simp

text \<open>So the decoder finds the end of the value where the encoder put it.\<close>

lemma value_len_compact:
  assumes "tsteps BeginValue [] p = Some (t, [])" "t = EndTop \<or> value_end t"
  shows "value_len (p @ 125 # ys) = length p \<and> p \<noteq> [] \<and> \<not> json_space (hd p)"
proof -
  have t: "\<not> in_text t" "t \<noteq> BeginValue" using assms(2) by (auto simp: value_end_def)
  then obtain c cs where p: "p = c # cs" using assms(1) by (cases p) auto
  with assms(1) obtain s1 stk1 where ns: "\<not> json_space c" and b: "begin_value [] c = Some (s1, stk1)"
    and rest: "tsteps s1 stk1 cs = Some (t, [])" by (auto split: if_splits option.splits)
  have lits: "lits_ok s1" using begin_value_facts(1)[OF b] .
  consider "c = 34" "s1 = InString" "stk1 = []" | "c = 123 \<or> c = 91" "stk1 \<noteq> []" "length stk1 = 1" "\<not> in_text s1" "s1 \<noteq> InStringEsc"
    | "c \<noteq> 34" "c \<noteq> 123" "c \<noteq> 91" "c \<noteq> 44" "c \<noteq> 125" "c \<noteq> 93" "in_word s1" "stk1 = []"
    using b ns by (auto simp: begin_value_def push_state_def split: if_splits)
  then have "value_len (p @ 125 # ys) = length p"
  proof cases
    case 1
    with string_len_tsteps[of InString cs t "125 # ys"] rest t(1) show ?thesis by (simp add: p value_len_def)
  next
    case 2
    have "bracket_len (Suc 0) False False (cs @ 125 # ys) = length cs"
      using bracket_len_tsteps[OF rest 2(2) lits, of "125 # ys"] 2 by simp
    with 2(1) show ?thesis by (auto simp: p value_len_def)
  next
    case 3
    with word_len_tsteps[of s1 cs "(t, [])" ys] rest lits ns show ?thesis by (simp add: p value_len_def)
  qed
  with p ns show ?thesis by simp
qed

end
