(* ===== verification/Job_Codec.thy ===== *)
theory Job_Codec
  imports Json_Extent
begin

text \<open>
  The wire format of a job: what \<open>json.Marshal\<close> writes, \<open>json.Unmarshal\<close> reads back.
\<close>

section \<open>Bytes\<close>

lemma compact_bytes: "\<forall>b \<in> set q. b < 256 \<Longrightarrow> \<forall>b \<in> set (compact ins esc q). b < 256"
proof (induction "length q" arbitrary: q ins esc rule: less_induct)
  case less
  show ?case
  proof (cases q)
    case (Cons c cs)
    have IH: "\<forall>b \<in> set (compact i e (drop n cs)). b < 256" for i e n
    proof (rule less.hyps)
      show "length (drop n cs) < length q" using Cons by simp
      show "\<forall>b \<in> set (drop n cs). b < 256" using less.prems Cons by (auto dest: in_set_dropD)
    qed
    note IH0 = IH[of _ _ 0, simplified]
    have "hex_digit (q ! 2 mod 16) < 128" by simp
    then have h: "hex_digit (q ! 2 mod 16) < 256" by linarith
    show ?thesis
      using IH0 IH[of _ _ 2] h u00_bytes[of c] less.prems Cons by auto
  qed simp
qed

lemma bytes_of_string_of: "\<forall>b \<in> set bs. b < 256 \<Longrightarrow> bytes_of (string_of bs) = bs"
  by (induction bs) (auto simp: bytes_of_def string_of_def)

lemma bytes_of_lt: "b \<in> set (bytes_of s) \<Longrightarrow> b < 256"
  by (auto simp: bytes_of_def)

section \<open>The text of a job\<close>

lemma value_len_quote: "in_string (quote_body bs) \<Longrightarrow> value_len (json_quote bs @ ys) = length (json_quote bs)"
  by (simp add: value_len_def json_quote_def in_string_def)

text \<open>One member, and the rest of the object.\<close>

lemma members_Cons:
  assumes "in_string (bytes_of name)" "value_len (v @ sep # rest) = length v" "v \<noteq> []" "\<not> json_space (hd v)"
    and "sep = 44 \<or> sep = 125"
  shows "members (field_key name @ v @ sep # rest) = (34 # bytes_of name @ [34], v) # members rest"
proof -
  let ?k = "34 # bytes_of name @ [34]"
  have k: "value_len (?k @ xs) = length ?k" for xs
    using assms(1) by (simp add: value_len_def in_string_def)
  have v: "skip_space (v @ sep # rest) = v @ sep # rest" using assms(3,4) by (cases v) auto
  have sp: "skip_space (sep # rest) = sep # rest" using assms(5) by (auto simp: json_space_def)
  have txtq: "field_key name @ v @ sep # rest = ?k @ 58 # v @ sep # rest" by (simp add: field_key_def)
  have colon: "skip_space (58 # xs) = 58 # xs" for xs by (simp add: json_space_def)
  have k2: "value_len (34 # bytes_of name @ 34 # xs) = Suc (Suc (length (bytes_of name)))" for xs
    using k[of xs] by simp
  show ?thesis
    unfolding txtq by (subst members.simps) (use assms(5) in \<open>auto simp: json_space_def k2 v sp assms(2) colon\<close>)
qed

lemma field_key_steps:
  assumes "s = BeginString \<or> s = BeginStringOrEmpty" "in_string (bytes_of name)"
  shows "steps s [ObjectKey] (field_key name @ ys) = steps BeginValue [ObjectValue] ys"
  using assms by (auto simp: field_key_def in_string_def json_space_def begin_string_def)

lemma json_quote_steps:
  assumes "in_string (quote_body bs)"
  shows "steps BeginValue [ObjectValue] (json_quote bs @ 44 # ys) = steps BeginString [ObjectKey] ys"
  using assms by (simp add: json_quote_def in_string_def json_space_def begin_value_def)

lemma field_names [simp]:
  "in_string (bytes_of ''stripe_event_id'')" "in_string (bytes_of ''event_type'')" "in_string (bytes_of ''payload'')"
  by (rule in_string_plain; simp add: bytes_of_def)+

lemma field_is_names:
  "field_is (34 # bytes_of ''stripe_event_id'' @ [34]) ''stripe_event_id''"
  "\<not> field_is (34 # bytes_of ''event_type'' @ [34]) ''stripe_event_id''"
  "field_is (34 # bytes_of ''event_type'' @ [34]) ''event_type''"
  "\<not> field_is (34 # bytes_of ''payload'' @ [34]) ''stripe_event_id''"
  "\<not> field_is (34 # bytes_of ''payload'' @ [34]) ''event_type''"
  "field_is (34 # bytes_of ''payload'' @ [34]) ''payload''"
  by code_simp+

text \<open>The payload as \<open>json.Marshal\<close> writes it.\<close>

definition payload_text :: "Job \<Rightarrow> string" where
  "payload_text j = (case Payload j of None \<Rightarrow> ''null'' | Some s \<Rightarrow> s)"

definition wire_payload :: "Job \<Rightarrow> string" where
  "wire_payload j = string_of (compact False False (bytes_of (payload_text j)))"

lemma null_text: "json_valid (bytes_of ''null'')" "compact False False (bytes_of ''null'') = bytes_of ''null''"
  by code_simp+

lemma marshal_raw_Inr:
  "marshal_raw (Payload j) = Inr p \<Longrightarrow>
     json_valid (bytes_of (payload_text j)) \<and> p = compact False False (bytes_of (payload_text j))"
  by (auto simp: marshal_raw_def payload_text_def null_text split: option.splits if_splits)

lemma decode_string_quote:
  "utf8_valid (bytes_of s) \<Longrightarrow> decode_string (json_quote (bytes_of s)) old = (s, False)"
  using unquote_quote_body[of "bytes_of s" "[]"]
  by (simp add: decode_string_def starts_def json_quote_def butlast_append)

lemma null_bytes [simp]: "bytes_of ''null'' = [110, 117, 108, 108]"
  by (simp add: bytes_of_def)

section \<open>The round trip\<close>

definition job_text :: "Job \<Rightarrow> nat list \<Rightarrow> nat list" where
  "job_text j p = 123 # field_key ''stripe_event_id'' @ json_quote (bytes_of (StripeEventID j)) @ 44 #
     field_key ''event_type'' @ json_quote (bytes_of (EventType j)) @ 44 # field_key ''payload'' @ p @ [125]"

lemma job_text_valid:
  assumes "in_string (quote_body (bytes_of (StripeEventID j)))" "in_string (quote_body (bytes_of (EventType j)))"
    and "tsteps BeginValue [ObjectValue] p = Some (u, [ObjectValue])" "value_end u"
  shows "json_valid (job_text j p)"
proof -
  have "steps BeginValue [] (job_text j p) =
      steps BeginStringOrEmpty [ObjectKey] (tl (job_text j p))"
    by (simp add: job_text_def begin_value_def json_space_def push_state_def max_nesting_def)
  also have "\<dots> = steps BeginValue [ObjectValue] (p @ [125])"
    by (simp add: job_text_def field_key_steps json_quote_steps assms(1,2))
  also have "\<dots> = Some (EndTop, [])"
    using tsteps_steps[OF assms(3)] step_end[OF assms(4), of 125]
    by (simp add: steps_append json_space_def)
  finally show ?thesis by (simp add: json_valid_def)
qed

lemma job_text_members:
  assumes ids: "in_string (quote_body (bytes_of (StripeEventID j)))" "in_string (quote_body (bytes_of (EventType j)))"
    and p: "value_len (p @ [125]) = length p" "p \<noteq> []" "\<not> json_space (hd p)"
  shows "members (tl (job_text j p)) =
    [(34 # bytes_of ''stripe_event_id'' @ [34], json_quote (bytes_of (StripeEventID j))),
     (34 # bytes_of ''event_type'' @ [34], json_quote (bytes_of (EventType j))),
     (34 # bytes_of ''payload'' @ [34], p)]"
proof -
  have q: "json_quote bs \<noteq> []" "\<not> json_space (hd (json_quote bs))" for bs
    by (simp_all add: json_quote_def json_space_def)
  have "members [] = []" by (simp add: members.simps)
  with members_Cons[of "''payload''" p 125 "[]"] p
  have 3: "members (field_key ''payload'' @ p @ [125]) = [(34 # bytes_of ''payload'' @ [34], p)]" by simp
  show ?thesis
    unfolding job_text_def list.sel
    by (subst members_Cons[OF _ value_len_quote[OF ids(1)] q], simp_all,
        subst members_Cons[OF _ value_len_quote[OF ids(2)] q], simp_all add: 3)
qed

lemma job_text_bytes:
  assumes "utf8_valid (bytes_of (StripeEventID j))" "utf8_valid (bytes_of (EventType j))"
  shows "\<forall>b \<in> set (job_text j (compact False False (bytes_of (payload_text j)))). b < 256"
proof -
  have q: "\<forall>b \<in> set (json_quote (bytes_of t)). b < 256" if "utf8_valid (bytes_of t)" for t
    using quote_body_bytes[OF that] bytes_of_lt by (simp add: json_quote_def)
  have p: "\<forall>b \<in> set (compact False False (bytes_of (payload_text j))). b < 256"
    by (rule compact_bytes) (simp add: bytes_of_lt)
  have k: "\<forall>b \<in> set (field_key t). b < 256" for t
    using bytes_of_lt by (simp add: field_key_def)
  show ?thesis unfolding job_text_def using q[OF assms(1)] q[OF assms(2)] p k by (simp add: ball_Un)
qed

lemma job_roundtrip:
  assumes "Marshal_Job j = Inr s"
    and "utf8_valid (bytes_of (StripeEventID j))" "utf8_valid (bytes_of (EventType j))"
    and "opens (bytes_of (payload_text j)) < max_nesting"
  shows "Unmarshal_Job s = Inr (j\<lparr>Payload := Some (wire_payload j)\<rparr>)"
proof -
  define p where "p = compact False False (bytes_of (payload_text j))"
  have valid: "json_valid (bytes_of (payload_text j))" and s: "s = string_of (job_text j p)"
    using assms(1) marshal_raw_Inr[of j]
    by (auto simp: Marshal_Job_def job_text_def p_def split: sum.splits)
  obtain t u where t: "tsteps BeginValue [] p = Some (t, [])" "t = EndTop \<or> value_end t"
    and u: "tsteps BeginValue [ObjectValue] p = Some (u, [ObjectValue])" "value_end u"
    unfolding p_def using compact_value[OF valid assms(4)] by blast
  note ids = in_string_quote_body[OF assms(2)] in_string_quote_body[OF assms(3)]
  have "\<forall>b \<in> set (job_text j p). b < 256"
    unfolding p_def by (rule job_text_bytes[OF assms(2,3)])
  then have bytes: "bytes_of s = job_text j p" unfolding s by (rule bytes_of_string_of)
  have "members (tl (job_text j p)) =
    [(34 # bytes_of ''stripe_event_id'' @ [34], json_quote (bytes_of (StripeEventID j))),
     (34 # bytes_of ''event_type'' @ [34], json_quote (bytes_of (EventType j))),
     (34 # bytes_of ''payload'' @ [34], p)]"
    using value_len_compact[OF t, of "[]"] by (intro job_text_members ids) simp_all
  then have "fold decode_Job_member (members (tl (job_text j p))) (zero_Job, False) =
      (j\<lparr>Payload := Some (string_of p)\<rparr>, False)"
    using assms(2,3)
    by (simp add: decode_Job_member_def field_is_names decode_string_quote zero_Job_def)
  moreover have "skip_space (job_text j p) = job_text j p" "starts 123 (job_text j p)"
    by (simp_all add: job_text_def json_space_def starts_def)
  ultimately show ?thesis
    using job_text_valid[OF ids u]
    by (simp add: Unmarshal_Job_def decode_top_def bytes wire_payload_def p_def)
qed

text \<open>
  C9: A job survives its way through JSON. Whenever json.Marshal of a job succeeds and its
  two identifiers are UTF-8, json.Unmarshal of the text gives the same identifiers and the
  payload as the compacted text of the one given (null for a nil payload), for every
  payload with fewer opening brackets than the nesting limit of the decoder. The text holds the
  quotes, escapes, HTML characters and separators as encoding/json writes them.
\<close>

theorem Unmarshal_Marshal_Job:
  assumes "Marshal_Job j = Inr s"
    and "utf8_valid (bytes_of (StripeEventID j))" "utf8_valid (bytes_of (EventType j))"
    and "opens (bytes_of (payload_text j)) < max_nesting"
  shows "Unmarshal_Job s = Inr (j\<lparr>Payload := Some (wire_payload j)\<rparr>)"
  by (rule job_roundtrip[OF assms])

definition sample_job :: Job where
  "sample_job = \<lparr>StripeEventID = ''evt_<1>'', EventType = ''invoice.paid'', Payload = Some ''{\"a\": [1, {}] }''\<rparr>"

definition sample_text :: string where
  "sample_text = (case Marshal_Job sample_job of Inr s \<Rightarrow> s | Inl _ \<Rightarrow> [])"

lemma sample_marshal: "Marshal_Job sample_job = Inr sample_text"
  by code_simp

lemma sample_facts:
  "utf8_valid (bytes_of (StripeEventID sample_job))" "utf8_valid (bytes_of (EventType sample_job))"
  "opens (bytes_of (payload_text sample_job)) < max_nesting"
  "wire_payload sample_job = ''{\"a\":[1,{}]}''"
  by code_simp+

theorem Unmarshal_Marshal_Job_witness:
  "Unmarshal_Job sample_text = Inr (sample_job\<lparr>Payload := Some ''{\"a\":[1,{}]}''\<rparr>)"
  using Unmarshal_Marshal_Job[OF sample_marshal sample_facts(1-3)] unfolding sample_facts(4) .

end
