(* ===== verification/Json_Members.thy ===== *)
theory Json_Members
  imports Job_Codec
begin

text \<open>
  The decoder on any text the scanner accepts: each item it cuts out of an object is a JSON text,
  so decoded jobs and events are well formed and can be encoded.
\<close>

section \<open>Members of an accepted object\<close>

text \<open>The scanner and the decoder agree on where the parts of any accepted text end.\<close>

definition accepts :: "jstate \<Rightarrow> jparse list \<Rightarrow> nat list \<Rightarrow> bool" where
  "accepts s stk xs \<longleftrightarrow> steps s stk xs = Some (EndTop, [])"

lemma accepts_Nil [simp]: "accepts s stk [] \<longleftrightarrow> s = EndTop \<and> stk = []"
  by (simp add: accepts_def)

lemma accepts_Cons: "accepts s stk (c # cs) \<longleftrightarrow> (\<exists>s1 stk1. step s stk c = Some (s1, stk1) \<and> accepts s1 stk1 cs)"
  by (auto simp: accepts_def split: option.splits)

lemma accepts_skip:
  "s = BeginValue \<or> s = BeginString \<or> s = BeginStringOrEmpty \<or> (s = EndValue \<and> stk \<noteq> []) \<Longrightarrow>
     accepts s stk (skip_space xs) = accepts s stk xs"
proof (induction xs)
  case (Cons c cs)
  have "step s stk c = Some (s, stk)" if "json_space c"
  proof -
    have "end_value stk c = Some (EndValue, stk)" if "stk \<noteq> []"
      using that \<open>json_space c\<close> by (cases "(stk, c)" rule: end_value.cases) auto
    with that Cons.prems show ?thesis by (auto simp: begin_value_def begin_string_def)
  qed
  with Cons show ?case by (auto simp: accepts_Cons)
qed simp

text \<open>A string: its scan does not look at the stack.\<close>

lemma string_split:
  "accepts s stk xs \<Longrightarrow> in_text s \<Longrightarrow>
     steps s ps (take (string_len (s = InStringEsc) xs) xs) = Some (EndValue, ps) \<and>
     accepts EndValue stk (drop (string_len (s = InStringEsc) xs) xs)"
proof (induction xs arbitrary: s)
  case (Cons c cs)
  then obtain s1 stk1 where step: "step s stk c = Some (s1, stk1)" and rest: "accepts s1 stk1 cs"
    by (auto simp: accepts_Cons)
  note f = step_text_flags[OF step Cons.prems(2)]
  have any: "step s ps c = Some (s1, ps)"
    using step Cons.prems(2) by (cases s) (auto split: if_splits)
  show ?case
  proof (cases "in_text s1")
    case True
    with f have "string_len (s = InStringEsc) (c # cs) = Suc (string_len (s1 = InStringEsc) cs)" by auto
    with Cons.IH[of s1] True rest f any show ?thesis by simp
  next
    case False
    with f have "string_len (s = InStringEsc) (c # cs) = 1" by auto
    moreover have "s1 = EndValue" using step False Cons.prems(2) by (cases s) (auto split: if_splits)
    ultimately show ?thesis using rest f any by simp
  qed
qed auto

text \<open>A number or a word.\<close>

lemma word_split:
  assumes "accepts s [ObjectValue] xs" "in_word s" "lits_ok s"
  shows "(\<exists>t. steps s ps (take (word_len xs) xs) = Some (t, ps) \<and> value_end t) \<and>
    accepts EndValue [ObjectValue] (drop (word_len xs) xs)"
  using assms
proof (induction xs arbitrary: s)
  case (Cons c cs)
  then obtain s1 stk1 where step: "step s [ObjectValue] c = Some (s1, stk1)" and rest: "accepts s1 stk1 cs"
    by (auto simp: accepts_Cons)
  have n: "word_len (c # cs) = (if separator c then 0 else Suc (word_len cs))" by simp
  from word_step[OF step Cons.prems(2,3)] show ?case
  proof (elim disjE conjE)
    assume g: "goes_on s c s1" "stk1 = [ObjectValue]"
    then have "\<not> separator c" "step s ps c = Some (s1, ps)" by (auto simp: goes_on_def)
    with g n rest Cons.IH[of s1] show ?thesis by (auto simp: goes_on_def)
  next
    assume e: "\<forall>ps. step s ps c = end_value ps c" "value_end s"
    with step have "separator c" by (auto split: if_splits)
    with n e step rest show ?thesis by (auto simp: accepts_Cons)
  qed
qed auto

text \<open>A bracketed value: the stack below it does not matter.\<close>

lemma end_value_base:
  assumes "end_value (ps @ [ObjectValue]) c = Some (s1, stk1)" "ps \<noteq> []"
  shows "\<exists>ps1. stk1 = ps1 @ [ObjectValue] \<and> (ps1 \<noteq> [] \<longrightarrow> end_value ps c = Some (s1, ps1)) \<and>
    (ps1 = [] \<longrightarrow> s1 = EndValue \<and> end_value ps c = Some (EndTop, []))"
proof -
  obtain p qs where ps: "ps = p # qs" using assms(2) by (cases ps) auto
  show ?thesis
    using assms(1) unfolding ps
    by (cases p) (auto simp: after_pop_def split: if_splits)
qed

definition same_below :: "jstate \<Rightarrow> jparse list \<Rightarrow> jstate \<Rightarrow> jparse list \<Rightarrow> nat \<Rightarrow> bool" where
  "same_below s ps s1 stk1 c \<longleftrightarrow>
     (\<exists>ps1. stk1 = ps1 @ [ObjectValue] \<and> (ps1 \<noteq> [] \<longrightarrow> step s ps c = Some (s1, ps1)) \<and>
       (ps1 = [] \<longrightarrow> s1 = EndValue \<and> step s ps c = Some (EndTop, [])))"

lemma same_belowI: "ps1 \<noteq> [] \<Longrightarrow> step s ps c = Some (s1, ps1) \<Longrightarrow> same_below s ps s1 (ps1 @ [ObjectValue]) c"
  by (simp add: same_below_def)

lemma begin_value_base:
  assumes "begin_value (ps @ [ObjectValue]) c = Some (s1, stk1)"
  shows "\<exists>ps1. stk1 = ps1 @ [ObjectValue] \<and> begin_value ps c = Some (s1, ps1) \<and> length ps \<le> length ps1"
proof (cases "c = 123 \<or> c = 91")
  case True
  define p where "p = (if c = 123 then ObjectKey else ArrayValue)"
  have "stk1 = (p # ps) @ [ObjectValue] \<and> begin_value ps c = Some (s1, p # ps)"
    using assms True by (auto simp: p_def begin_value_def push_state_def json_space_def split: if_splits)
  then show ?thesis by (intro exI[of _ "p # ps"]) simp
next
  case False
  with assms show ?thesis by (auto simp: begin_value_def split: if_splits)
qed

lemma step_base:
  assumes "step s (ps @ [ObjectValue]) c = Some (s1, stk1)" "ps \<noteq> []" "s \<noteq> EndTop" "lits_ok s"
  shows "same_below s ps s1 stk1 c"
proof -
  have id: ?thesis if "stk1 = ps @ [ObjectValue]" "step s ps c = Some (s1, ps)"
    using that same_belowI[OF assms(2)] by blast
  show ?thesis
  proof (cases "in_text s")
    case True
    with assms(1) show ?thesis by (intro id; cases s) (auto split: if_splits)
  next
    case False
    from assms(1) False assms(4) show ?thesis
    proof (cases rule: step_kind)
      case ends
      from end_value_base[OF ends(1) assms(2)] show ?thesis unfolding same_below_def ends(2) .
    next
      case begins
      obtain ps1 where "stk1 = ps1 @ [ObjectValue]" "begin_value ps c = Some (s1, ps1)" "length ps \<le> length ps1"
        using begin_value_base[OF begins(1)] by blast
      moreover from this assms(2) have "ps1 \<noteq> []" by auto
      ultimately show ?thesis using same_belowI begins(2) by simp
    next
      case (empty p)
      then show ?thesis
        using assms(2) by (cases ps) (auto simp: same_below_def after_pop_def json_space_def)
    qed (use id in \<open>simp_all add: goes_on_def\<close>)
  qed
qed

lemma bracket_split:
  "accepts s (ps @ [ObjectValue]) xs \<Longrightarrow> ps \<noteq> [] \<Longrightarrow> lits_ok s \<Longrightarrow> s \<noteq> EndTop \<Longrightarrow>
   n = bracket_len (length ps) (in_text s) (s = InStringEsc) xs \<Longrightarrow>
     steps s ps (take n xs) = Some (EndTop, []) \<and> accepts EndValue [ObjectValue] (drop n xs)"
proof (induction xs arbitrary: s ps n)
  case (Cons c cs)
  then obtain s1 stk1 where step: "step s (ps @ [ObjectValue]) c = Some (s1, stk1)" and rest: "accepts s1 stk1 cs"
    by (auto simp: accepts_Cons)
  obtain ps1 where ps1: "stk1 = ps1 @ [ObjectValue]" "ps1 \<noteq> [] \<Longrightarrow> step s ps c = Some (s1, ps1)"
    "ps1 = [] \<Longrightarrow> s1 = EndValue \<and> step s ps c = Some (EndTop, [])"
    using step_base[OF step Cons.prems(2,4,3)] unfolding same_below_def by blast
  have flags: "lits_ok s1" "in_text s \<Longrightarrow> (in_text s1 \<longleftrightarrow> s = InStringEsc \<or> c \<noteq> 34) \<and>
      (s1 = InStringEsc \<longleftrightarrow> s \<noteq> InStringEsc \<and> c = 92) \<and> ps1 = ps"
    "\<not> in_text s \<Longrightarrow> (in_text s1 \<longleftrightarrow> c = 34) \<and> s1 \<noteq> InStringEsc \<and> s \<noteq> InStringEsc \<and>
      length ps1 = depth_after c (Suc (length ps)) - 1"
    using step_text_flags[OF step] step_plain_flags[OF step _ Cons.prems(3)] ps1(1)
    by (cases "in_text s"; auto)+
  show ?case
  proof (cases "ps1 = []")
    case True
    have ns: "\<not> in_text s" using flags(2) True Cons.prems(2) by blast
    then have c: "c = 125 \<or> c = 93" "length ps \<le> 1"
      using flags(3) True Cons.prems(2) by (auto simp: depth_after_def split: if_splits)
    then have "n = 1" using Cons.prems(5) ns by auto
    then show ?thesis using ps1(3)[OF True] ps1(1) True rest by simp
  next
    case False
    have "s1 \<noteq> EndTop"
    proof
      assume "s1 = EndTop"
      then have "stk1 = []" using step_EndTop[of s "ps @ [ObjectValue]" c stk1] step Cons.prems(3,4) by simp
      with ps1(1) show False by simp
    qed
    note IH = Cons.IH[OF rest[unfolded ps1(1)] False flags(1) this refl]
    have "n = Suc (bracket_len (length ps1) (in_text s1) (s1 = InStringEsc) cs)"
      using Cons.prems(2,5) flags(2,3) False
      by (cases "in_text s") (auto simp: depth_after_def split: if_splits)
    then show ?thesis using IH ps1(2)[OF False] by simp
  qed
qed simp

text \<open>So the item the decoder cuts out of an accepted object is JSON itself.\<close>

lemma json_validI:
  "steps BeginValue [] xs = Some (s, []) \<Longrightarrow> s = EndTop \<or> value_end s \<Longrightarrow> json_valid xs"
  by (auto simp: json_valid_def value_end_def after_int_def json_space_def json_digit_def)

lemma value_split:
  assumes "accepts BeginValue [ObjectValue] v" "v \<noteq> []" "\<not> json_space (hd v)"
  shows "json_valid (take (value_len v) v) \<and> accepts EndValue [ObjectValue] (drop (value_len v) v)"
proof -
  obtain c cs where v: "v = c # cs" using assms(2) by (cases v) auto
  with assms obtain s1 stk1 where ns: "\<not> json_space c" and b: "begin_value [ObjectValue] c = Some (s1, stk1)"
    and rest: "accepts s1 stk1 cs" by (auto simp: accepts_Cons)
  have lits: "lits_ok s1" using begin_value_facts(1)[OF b] .
  consider (quote) "c = 34" "s1 = InString" "stk1 = [ObjectValue]"
    | (bracket) p where "c = 123 \<or> c = 91" "stk1 = [p] @ [ObjectValue]" "begin_value [] c = Some (s1, [p])"
        "\<not> in_text s1" "s1 \<noteq> InStringEsc" "s1 \<noteq> EndTop"
    | (plain) "c \<noteq> 34" "c \<noteq> 123" "c \<noteq> 91" "\<not> separator c" "in_word s1" "stk1 = [ObjectValue]"
        "begin_value [] c = Some (s1, [])"
    using b ns by (auto simp: begin_value_def push_state_def max_nesting_def split: if_splits)
  then show ?thesis
  proof cases
    case c: quote
    from string_split[of InString "[ObjectValue]" cs "[]"] rest c
    show ?thesis by (auto simp: v value_len_def begin_value_def json_space_def value_end_def intro!: json_validI)
  next
    case c: (bracket p)
    have n: "value_len v = Suc (bracket_len (Suc 0) False False cs)" using c(1) by (auto simp: v value_len_def)
    have "steps s1 [p] (take (bracket_len (Suc 0) False False cs) cs) = Some (EndTop, []) \<and>
        accepts EndValue [ObjectValue] (drop (bracket_len (Suc 0) False False cs) cs)"
      using bracket_split[OF rest[unfolded c(2)] _ lits c(6) refl] c(4,5) by simp
    then show ?thesis unfolding n using c(3) by (auto simp: v intro!: json_validI)
  next
    case c: plain
    from word_split[of s1 cs "[]"] rest c(5,6) lits obtain t where
      "steps s1 [] (take (word_len cs) cs) = Some (t, [])" "value_end t" "accepts EndValue [ObjectValue] (drop (word_len cs) cs)"
      by auto
    then show ?thesis using c by (auto simp: v value_len_def intro!: json_validI)
  qed
qed

lemma skip_space_head: "skip_space xs = c # cs \<Longrightarrow> \<not> json_space c"
  by (induction xs) (auto split: if_splits)

lemma member_split:
  assumes "accepts s [ObjectKey] (34 # cs)" "s = BeginString \<or> s = BeginStringOrEmpty"
    and "v = skip_space (tl (skip_space (drop (value_len (34 # cs)) (34 # cs))))"
  shows "json_valid (take (value_len v) v) \<and>
    (accepts BeginString [ObjectKey] (tl (skip_space (drop (value_len v) v))) \<or>
     accepts EndTop [] (tl (skip_space (drop (value_len v) v))))"
proof -
  let ?w = "drop (string_len False cs) cs" and ?r = "drop (value_len v) v"
  have "accepts InString [ObjectKey] cs"
    using assms(1,2) by (auto simp: accepts_Cons begin_string_def json_space_def)
  from string_split[OF this] have "accepts EndValue [ObjectKey] ?w" by simp
  then have "accepts EndValue [ObjectKey] (skip_space ?w)" by (simp add: accepts_skip)
  then obtain u where u: "skip_space ?w = 58 # u" "accepts BeginValue [ObjectValue] u"
    using skip_space_head[of ?w] by (cases "skip_space ?w") (auto simp: accepts_Cons split: if_splits)
  have v: "v = skip_space u" using assms(3) u(1) by (simp add: value_len_def)
  then have av: "accepts BeginValue [ObjectValue] v" using u(2) by (simp add: accepts_skip)
  then have ne: "v \<noteq> []" by auto
  then have "\<not> json_space (hd v)" using v skip_space_head[of u "hd v" "tl v"] by simp
  note item = value_split[OF av ne this]
  then have "accepts EndValue [ObjectValue] (skip_space ?r)" by (simp add: accepts_skip)
  then have "accepts BeginString [ObjectKey] (tl (skip_space ?r)) \<or> accepts EndTop [] (tl (skip_space ?r))"
    using skip_space_head[of ?r]
    by (cases "skip_space ?r") (auto simp: accepts_Cons after_pop_def split: if_splits)
  with item show ?thesis by blast
qed

lemma accepts_EndTop: "accepts EndTop [] xs \<Longrightarrow> skip_space xs = []"
  by (induction xs) (auto simp: accepts_Cons split: if_splits)

lemma members_valid:
  "accepts s [ObjectKey] bs \<Longrightarrow> s = BeginString \<or> s = BeginStringOrEmpty \<Longrightarrow>
     \<forall>(k, item) \<in> set (members bs). json_valid item"
proof (induction bs arbitrary: s rule: members.induct)
  case (1 bs)
  from 1(2,3) have acc: "accepts s [ObjectKey] (skip_space bs)" by (auto simp: accepts_skip)
  show ?case
  proof (cases "\<exists>cs. skip_space bs = 34 # cs")
    case False
    then have "members bs = []"
      by (subst members.simps) (auto split: list.splits)
    then show ?thesis by simp
  next
    case True
    then obtain cs where cs: "skip_space bs = 34 # cs" by blast
    define v where "v = skip_space (tl (skip_space (drop (value_len (34 # cs)) (34 # cs))))"
    let ?rest = "tl (skip_space (drop (value_len v) v))"
    note sp = member_split[OF acc[unfolded cs] 1(3) v_def]
    have eq: "members bs = (take (value_len (34 # cs)) (34 # cs), take (value_len v) v) # members ?rest"
      by (subst members.simps) (simp add: cs v_def Let_def)
    have "\<forall>(k, item) \<in> set (members ?rest). json_valid item"
    proof (cases "accepts BeginString [ObjectKey] ?rest")
      case True
      then show ?thesis by (rule "1.IH"[OF cs refl v_def]) simp
    next
      case False
      with sp accepts_EndTop have "skip_space ?rest = []" by blast
      then have "members ?rest = []" by (subst members.simps) simp
      then show ?thesis by simp
    qed
    with sp show ?thesis unfolding eq by simp
  qed
qed

section \<open>Decoded values are well formed\<close>

text \<open>A raw message is nil or a JSON text.\<close>

definition raw_ok :: "string option \<Rightarrow> bool" where
  "raw_ok m \<longleftrightarrow> (case m of None \<Rightarrow> True | Some s \<Rightarrow> json_valid (bytes_of s))"

lemma fold_invariant_members:
  assumes "\<forall>(k, item) \<in> set kvs. Q item" "P (fst acc)"
    and "\<And>k item acc. Q item \<Longrightarrow> P (fst acc) \<Longrightarrow> P (fst (f (k, item) acc))"
  shows "P (fst (fold f kvs acc))"
  using assms(1,2)
proof (induction kvs arbitrary: acc)
  case (Cons kv kvs)
  then have "P (fst (f kv acc))" using assms(3)[of "snd kv" acc "fst kv"] by auto
  with Cons show ?case by simp
qed simp

text \<open>The bytes of a raw message are bytes of the text it was cut from.\<close>

lemma skip_space_set: "set (skip_space xs) \<subseteq> set xs"
  by (induction xs) auto

lemma members_bytes:
  "\<forall>b \<in> set bs. b < 256 \<Longrightarrow> \<forall>(k, item) \<in> set (members bs). \<forall>b \<in> set item. b < 256"
proof (induction bs rule: members.induct)
  case (1 bs)
  show ?case
  proof (cases "\<exists>cs. skip_space bs = 34 # cs")
    case False
    then have "members bs = []" by (subst members.simps) (auto split: list.splits)
    then show ?thesis by simp
  next
    case True
    then obtain cs where cs: "skip_space bs = 34 # cs" by blast
    define v where "v = skip_space (tl (skip_space (drop (value_len (34 # cs)) (34 # cs))))"
    let ?rest = "tl (skip_space (drop (value_len v) v))"
    have tl: "set (tl xs) \<subseteq> set xs" for xs :: "nat list" by (cases xs) auto
    have cs_bs: "set (34 # cs) \<subseteq> set bs" using skip_space_set[of bs] cs by simp
    have v_bs: "set v \<subseteq> set (34 # cs)" unfolding v_def
      using skip_space_set tl set_drop_subset by (meson subset_trans)
    have r_v: "set ?rest \<subseteq> set v"
      using skip_space_set tl set_drop_subset by (meson subset_trans)
    have eq: "members bs = (take (value_len (34 # cs)) (34 # cs), take (value_len v) v) # members ?rest"
      by (subst members.simps) (simp add: cs v_def Let_def)
    have "\<forall>(k, item) \<in> set (members ?rest). \<forall>b \<in> set item. b < 256"
      by (rule "1.IH"[OF cs refl v_def]) (use 1(2) cs_bs v_bs r_v in auto)
    moreover have "\<forall>b \<in> set (take (value_len v) v). b < 256"
      using 1(2) cs_bs v_bs by (auto dest!: in_set_takeD)
    ultimately show ?thesis unfolding eq by simp
  qed
qed

lemma raw_ok_item: "json_valid item \<Longrightarrow> \<forall>b \<in> set item. b < 256 \<Longrightarrow> raw_ok (Some (string_of item))"
  by (simp add: raw_ok_def bytes_of_string_of)

lemma steps_emptied:
  "steps s stk xs = Some (s1, []) \<Longrightarrow> stk = [] \<longrightarrow> s = EndTop \<Longrightarrow> lits_ok s \<Longrightarrow> s1 = EndTop"
proof (induction xs arbitrary: s stk)
  case (Cons c cs)
  then obtain s2 stk2 where step: "step s stk c = Some (s2, stk2)" and rest: "steps s2 stk2 cs = Some (s1, [])"
    by (auto split: option.splits)
  have lits: "lits_ok s2" using step_lits[OF step Cons.prems(3)] .
  have "s2 = EndTop" if e: "stk2 = []"
  proof (cases "stk = []")
    case True
    with Cons.prems(2) step show ?thesis by (simp split: if_splits)
  next
    case ne: False
    show ?thesis
    proof (cases "in_text s")
      case True
      with step_text_flags[OF step] e ne show ?thesis by simp
    next
      case False
      with step_emptied[of s stk c s2] step e ne Cons.prems(3) show ?thesis by simp
    qed
  qed
  then show ?case using Cons.IH[OF rest _ lits] by blast
qed simp

lemma object_members:
  assumes "json_valid bs" "starts 123 (skip_space bs)" "\<forall>b \<in> set bs. b < 256"
  shows "\<forall>(k, item) \<in> set (members (tl (skip_space bs))). json_valid item \<and> (\<forall>b \<in> set item. b < 256)"
proof -
  obtain cs where cs: "skip_space bs = 123 # cs"
    using assms(2) by (cases "skip_space bs") (auto simp: starts_def)
  obtain s where s: "steps BeginValue [] bs = Some (s, [])" "s = EndTop \<or> value_end s"
    using json_valid_end[OF assms(1)] by blast
  have skip: "steps BeginValue [] (skip_space xs) = steps BeginValue [] xs" for xs
    by (induction xs) (auto simp: begin_value_def)
  have o: "steps BeginStringOrEmpty [ObjectKey] cs = Some (s, [])"
    using s(1) skip[of bs] cs by (simp add: begin_value_def json_space_def push_state_def max_nesting_def)
  have "s = EndTop" using steps_emptied[OF o] by simp
  then have "accepts BeginStringOrEmpty [ObjectKey] cs" using o by (simp add: accepts_def)
  then show ?thesis
    using members_valid[of BeginStringOrEmpty cs] members_bytes[of cs] assms(3) skip_space_set[of bs] cs by fastforce
qed

lemma decode_top_invariant:
  assumes "decode_top f z s = Inr x" "P z"
    and "\<And>k item acc. json_valid item \<Longrightarrow> \<forall>b \<in> set item. b < 256 \<Longrightarrow> P (fst acc) \<Longrightarrow> P (fst (f (k, item) acc))"
  shows "P x"
proof (cases "starts 123 (skip_space (bytes_of s))")
  case False
  with assms(1,2) show ?thesis by (auto simp: decode_top_def Let_def split: if_splits)
next
  case True
  then have x: "json_valid (bytes_of s)" "x = fst (fold f (members (tl (skip_space (bytes_of s)))) (z, False))"
    using assms(1) by (auto simp: decode_top_def Let_def split: if_splits prod.splits)
  show ?thesis unfolding x(2)
    by (rule fold_invariant_members[where Q = "\<lambda>item. json_valid item \<and> (\<forall>b \<in> set item. b < 256)"])
      (use object_members[OF x(1) True] bytes_of_lt assms(2,3) in auto)
qed

lemma decode_Job_payload:
  "json_valid item \<Longrightarrow> \<forall>b \<in> set item. b < 256 \<Longrightarrow> raw_ok (Payload (fst acc)) \<Longrightarrow>
     raw_ok (Payload (fst (decode_Job_member (k, item) acc)))"
  using raw_ok_item[of item] by (cases acc) (auto simp: decode_Job_member_def split: prod.splits)

lemma decode_Data_object:
  assumes "json_valid item" "\<forall>b \<in> set item. b < 256" "raw_ok (Object old)"
  shows "raw_ok (Object (fst (decode_Data item old)))"
proof (cases "starts 123 item")
  case True
  have "skip_space item = item" using True by (cases item) (auto simp: starts_def json_space_def)
  then have m: "\<forall>(k, i) \<in> set (members (tl item)). json_valid i \<and> (\<forall>b \<in> set i. b < 256)"
    using object_members[OF assms(1) _ assms(2)] True by simp
  have "raw_ok (Object (fst (fold decode_Data_member (members (tl item)) (old, False))))"
    by (rule fold_invariant_members[OF m, where P = "\<lambda>d. raw_ok (Object d)"])
      (use assms(3) raw_ok_item in \<open>auto simp: decode_Data_member_def\<close>)
  with True show ?thesis by (simp add: decode_Data_def)
qed (use assms(3) in \<open>simp add: decode_Data_def\<close>)

lemma decode_Event_object:
  "json_valid item \<Longrightarrow> \<forall>b \<in> set item. b < 256 \<Longrightarrow> raw_ok (Object (ev_Data (fst acc))) \<Longrightarrow>
     raw_ok (Object (ev_Data (fst (decode_Event_member (k, item) acc))))"
  using decode_Data_object[of item "ev_Data (fst acc)"]
  by (cases acc) (auto simp: decode_Event_member_def split: prod.splits)

lemma Marshal_Job_ok: "raw_ok (Payload j) \<Longrightarrow> \<exists>t. Marshal_Job j = Inr t"
  by (auto simp: Marshal_Job_def marshal_raw_def raw_ok_def split: option.splits)

lemma Unmarshal_raw_ok: "Unmarshal_Job s = Inr j \<Longrightarrow> raw_ok (Payload j)"
  unfolding Unmarshal_Job_def
  by (erule decode_top_invariant) (auto simp: zero_Job_def raw_ok_def[of None] intro!: decode_Job_payload)

lemma ParseStripeEvent_raw_ok: "ParseStripeEvent s = Inr ev \<Longrightarrow> raw_ok (Object (ev_Data ev))"
proof -
  assume "ParseStripeEvent s = Inr ev"
  then have "decode_top decode_Event_member zero_StripeEvent s = Inr ev"
    by (simp add: ParseStripeEvent_def split: sum.splits)
  then show ?thesis
    by (rule decode_top_invariant) (auto simp: zero_StripeEvent_def raw_ok_def[of None] intro!: decode_Event_object)
qed

text \<open>
  C24: What the decoders return is well formed. The payload of a job decoded by json.Unmarshal,
  and the object of a Stripe event decoded by ParseStripeEvent, is nil or a JSON text of its own,
  whatever the input, so json.Marshal of that job, and of the job made of that event, never
  fails: the worker's error for a job it cannot encode does not occur on records it decoded.
\<close>

theorem decoded_jobs_encode:
  "(\<forall>j. Unmarshal_Job s = Inr j \<longrightarrow> raw_ok (Payload j) \<and> (\<exists>t. Marshal_Job j = Inr t)) \<and>
   (\<forall>ev. ParseStripeEvent s = Inr ev \<longrightarrow> raw_ok (Object (ev_Data ev)) \<and>
      (\<exists>t. Marshal_Job (JobFromStripeEvent ev) = Inr t))"
  using Unmarshal_raw_ok ParseStripeEvent_raw_ok Marshal_Job_ok[of "JobFromStripeEvent ev" for ev] Marshal_Job_ok
  by (auto simp: JobFromStripeEvent_def)

definition sample_event_text :: string where
  "sample_event_text = ''{\"id\": \"evt_1\", \"type\": \"invoice.paid\", \"data\": {\"object\": {\"n\": [0]}}, \"livemode\": true}''"

lemma sample_event: "\<exists>ev. ParseStripeEvent sample_event_text = Inr ev \<and> Object (ev_Data ev) = Some ''{\"n\": [0]}''"
proof -
  have "map_sum (\<lambda>_. ()) (\<lambda>ev. Object (ev_Data ev)) (ParseStripeEvent sample_event_text) = Inr (Some ''{\"n\": [0]}'')"
    by code_simp
  then show ?thesis by (cases "ParseStripeEvent sample_event_text") auto
qed

theorem decoded_jobs_encode_witness:
  "(\<exists>t. Marshal_Job (sample_job\<lparr>Payload := Some ''{\"a\":[1,{}]}''\<rparr>) = Inr t) \<and>
   (\<exists>ev t. ParseStripeEvent sample_event_text = Inr ev \<and> Marshal_Job (JobFromStripeEvent ev) = Inr t)"
proof -
  have "Unmarshal_Job sample_text = Inr (sample_job\<lparr>Payload := Some ''{\"a\":[1,{}]}''\<rparr>)" by code_simp
  with sample_event show ?thesis
    using decoded_jobs_encode[of sample_text] decoded_jobs_encode[of sample_event_text] by blast
qed

end
