(* ===== verification/End_To_End.thy ===== *)
theory End_To_End
  imports Api_Main Worker_Main Publisher_Live Json_Members
begin

text \<open>
  The three binaries together: a webhook taken by the API, moved by the publisher, delivered by
  the worker.
\<close>

text \<open>
  What the columns of type \<open>JSONB\<close> do to the text of a job: Postgres stores the value and prints it
  again (other white space, keys in an order of its own), so a decoder of the printed text reads
  the same strings for the same keys.
\<close>

definition keeps_ids :: "(string \<Rightarrow> string option) \<Rightarrow> bool" where
  "keeps_ids cast \<longleftrightarrow>
     (\<forall>j s t j0. Marshal_Job j = Inr s \<longrightarrow> cast s = Some t \<longrightarrow> Unmarshal_Job s = Inr j0 \<longrightarrow>
        (\<exists>j1. Unmarshal_Job t = Inr j1 \<and> StripeEventID j1 = StripeEventID j0 \<and> EventType j1 = EventType j0))"

lemma pg_text_utf8: "pg_text_ok s \<Longrightarrow> utf8_valid (bytes_of s)"
  by (simp add: pg_text_ok_def)

text \<open>The text the outbox holds for a webhook decodes to a job of the event that can be posted.\<close>

lemma stored_job:
  assumes "Marshal_Job (webhook_job ev) = Inr p" "pg_text_ok (se_ID ev)" "pg_text_ok (se_Type ev)"
    and "opens (bytes_of (payload_text (webhook_job ev))) < max_nesting"
    and "keeps_ids cast" "cast p = Some t"
  obtains job body where "Unmarshal_Job t = Inr job" "Marshal_Job job = Inr body"
    "StripeEventID job = se_ID ev" "EventType job = se_Type ev"
proof -
  have ids: "StripeEventID (webhook_job ev) = se_ID ev" "EventType (webhook_job ev) = se_Type ev"
    by (simp_all add: webhook_job_def Let_def)
  have "Unmarshal_Job p = Inr ((webhook_job ev)\<lparr>Payload := Some (wire_payload (webhook_job ev))\<rparr>)"
    using job_roundtrip[OF assms(1)] pg_text_utf8 assms(2-4) by (simp add: ids)
  from assms(5)[unfolded keeps_ids_def, rule_format, OF assms(1,6) this] obtain job where
    job: "Unmarshal_Job t = Inr job" "StripeEventID job = se_ID ev" "EventType job = se_Type ev"
    by (auto simp: ids)
  with Marshal_Job_ok[OF Unmarshal_raw_ok[OF job(1)]] that show ?thesis by blast
qed

text \<open>Without faults the publisher leaves the record of every pending row in the log.\<close>

lemma drained_log:
  assumes "fault_free v" "row \<in> set (pending (pg_db v))"
    and "v' = (pub_step log topic d ^^ length (pending (pg_db v))) v"
  shows "row_record topic row \<in> set (kafka_log v')" "pending (pg_db v') = []" "db_inv (pg_db v')"
    "consumer_completions (pg_db v') = consumer_completions (pg_db v)"
  using drain_steps[OF assms(1) refl, of log topic d] assms(2,3) by (auto simp: fault_free_def)

lemma accepted_pending:
  "\<lparr>ob_id = outbox_seq db, ob_event_id = ev, ob_event_type = ty, ob_payload = t, ob_status = OutboxPending,
     ob_created_at = db_now db, ob_published_at = None\<rparr> \<in> set (pending (accepted_db ev ty t db))"
  by (simp add: pending_def accepted_db_def)

lemma accepted_inv:
  assumes "pg_slots w = []" "pg_text_ok ev" "pg_text_ok ty" "pg_text_ok p" "db_inv (pg_db w)"
    and "processed_events (pg_db w) ev = None" "jsonb_cast (pg_db w) p = Some t"
  shows "db_inv (accepted_db ev ty t (pg_db w))"
  using AcceptEvent_facts[OF AcceptEvent_alone_new[OF assms] assms(5)] by simp

text \<open>
  C1: End to end. A verified webhook with a new event is answered with 204; when the publisher
  then runs without faults until nothing is pending, the topic holds a record keyed by the event
  id; and a worker of a group that has not seen the event, which gets that record and a 2xx from
  the downstream service, posts exactly one request, a job of this event with its type, answers
  true (the offset may be committed), and leaves the delivery processed at its first attempt.
\<close>

theorem webhook_delivered:
  fixes w :: "api_world" and v :: "publisher_world" and u :: "worker_world"
  assumes api: "pg_slots w = []" "db_inv (pg_db w)" "app_store app = pg_store" "webhook_request r"
      "verified ce app r = Some ev" "Marshal_Job (webhook_job ev) = Inr p"
      "pg_text_ok (se_ID ev)" "pg_text_ok (se_Type ev)" "pg_text_ok p"
      "processed_events (pg_db w) (se_ID ev) = None" "jsonb_cast (pg_db w) p = Some t"
    and job: "se_ID ev \<noteq> []" "opens (bytes_of (payload_text (webhook_job ev))) < max_nesting"
      "keeps_ids (jsonb_cast (pg_db w))"
    and publisher: "pg_db v = pg_db (api ce redirect app r w)" "pg_slots v = []" "produce_answers v = []"
      "list_all pg_text_ok (map ob_event_id (outbox_events (pg_db v)))"
      "v' = (pub_step log topic d ^^ length (pending (pg_db v))) v"
    and worker: "pg_db u = pg_db v'" "pg_slots u = []" "net_answers u = Inr s # as" "200 \<le> s" "s < 300"
      "nre url = None" "pg_text_ok c" "consumer_completions (pg_db w) (se_ID ev, c) = None"
  shows "(\<exists>h. resp_sent (api ce redirect app r w) = Some (204, h)) \<and>
    \<lparr>pr_Topic = topic, pr_Key = se_ID ev, pr_Value = t\<rparr> \<in> set (kafka_log v') \<and>
    pending (pg_db v') = [] \<and>
    (\<forall>rec. rec_Value rec = t \<longrightarrow>
      (\<exists>u' job body row. handleRecord wlog pg_completion_store (net_downstream nre url) c rec u = (True, u') \<and>
        Marshal_Job job = Inr body \<and> StripeEventID job = se_ID ev \<and> EventType job = se_Type ev \<and>
        net_sent u' = net_sent u @
          [\<lparr>req_URL = url, req_ContentType = ''application/json'', req_Body = body\<rparr>] \<and>
        consumer_completions (pg_db u') (se_ID ev, c) = Some row \<and>
        cc_status row = CompletionProcessed \<and> cc_attempt_count row = 1))"
proof -
  note first = webhook_first[OF api, of redirect]
  let ?db = "accepted_db (se_ID ev) (se_Type ev) t (pg_db w)"
  have v: "pg_db v = ?db" using first publisher(1) by simp
  have ff: "fault_free v"
    using accepted_inv[OF api(1,7,8,9,2,10,11)] publisher(2-4) by (simp add: fault_free_def v)
  note drained = drained_log[OF ff accepted_pending[of "pg_db w" "se_ID ev" "se_Type ev" t, folded v] publisher(5)]
  have open_row: "consumer_completions (pg_db u) (se_ID ev, c) = None"
    using worker(1,8) drained(4) by (simp add: v accepted_db_def)
  obtain job body where j: "Unmarshal_Job t = Inr job" "Marshal_Job job = Inr body"
    "StripeEventID job = se_ID ev" "EventType job = se_Type ev"
    by (rule stored_job[OF api(6-8) job(2,3) api(11)])
  have e: "delivery_error (Inr s) = None" using worker(4,5) by (simp add: delivery_error_def)
  have "\<exists>u' row. handleRecord wlog pg_completion_store (net_downstream nre url) c rec u = (True, u') \<and>
      net_sent u' = net_sent u @ [\<lparr>req_URL = url, req_ContentType = ''application/json'', req_Body = body\<rparr>] \<and>
      consumer_completions (pg_db u') (se_ID ev, c) = Some row \<and>
      cc_status row = CompletionProcessed \<and> cc_attempt_count row = 1" if "rec_Value rec = t" for rec
  proof -
    have "db_inv (pg_db u)" using drained(3) worker(1) by simp
    from handled_alone[OF worker(2) this, of rec job c body nre url "Inr s" as wlog] j that job(1) e open_row
      worker(3,6,7) api(7,8)
    show ?thesis by (auto simp: attempts_after_def put_completion_def)
  qed
  with first drained(1,2) j(2-4) show ?thesis by (fastforce simp: row_record_def)
qed

text \<open>A database that stores the text as it is, and the three processes on it.\<close>

abbreviation accepted_example :: database where
  "accepted_example \<equiv> accepted_db ''evt_1'' ''invoice.paid'' test_payload (empty_database test_cast)"

definition example_published_db :: database where
  "example_published_db = pg_db ((example_step ^^ length (pending accepted_example)) (publisher_on accepted_example [] [] None))"

lemma keeps_ids_test: "keeps_ids (jsonb_cast (empty_database test_cast))"
  by (auto simp: keeps_ids_def empty_database_def test_cast_def)

lemma test_brackets: "opens (bytes_of (payload_text (webhook_job test_event))) < max_nesting"
  by code_simp

theorem webhook_delivered_witness:
  "\<exists>u' row. handleRecord (NewJSONLogger None) pg_completion_store (net_downstream no_url_error ''http://svc/'') ''svc''
       \<lparr>rec_Topic = ''jobs'', rec_Partition = 0, rec_Offset = 0, rec_Key = ''evt_1'', rec_Value = test_payload\<rparr>
       (worker_on example_published_db [Inr 200]) = (True, u') \<and>
     length (net_sent u') = 1 \<and> consumer_completions (pg_db u') (''evt_1'', ''svc'') = Some row \<and>
     cc_status row = CompletionProcessed"
proof -
  let ?v = "publisher_on accepted_example [] [] None" and ?u = "worker_on example_published_db [Inr 200]"
  have api: "pg_slots empty_api = []" "db_inv (pg_db empty_api)" "app_store test_app = pg_store"
    "webhook_request (test_webhook ''good'')" "verified test_verify test_app (test_webhook ''good'') = Some test_event"
    "Marshal_Job (webhook_job test_event) = Inr test_payload" "pg_text_ok (se_ID test_event)" "pg_text_ok (se_Type test_event)"
    "pg_text_ok test_payload" "processed_events (pg_db empty_api) (se_ID test_event) = None"
    "jsonb_cast (pg_db empty_api) test_payload = Some test_payload"
    using test_job by (simp_all add: test_verified test_payload_ok test_payload_def[symmetric] test_cast_def test_event_def)
  have job: "se_ID test_event \<noteq> []" "opens (bytes_of (payload_text (webhook_job test_event))) < max_nesting"
    "keeps_ids (jsonb_cast (pg_db empty_api))"
    using keeps_ids_test test_brackets by (simp_all add: test_event_def)
  have publisher: "pg_db ?v = pg_db (test_api (test_webhook ''good'') empty_api)" "pg_slots ?v = []" "produce_answers ?v = []"
    "list_all pg_text_ok (map ob_event_id (outbox_events (pg_db ?v)))"
    using test_first by (simp_all add: accepted_db_def)
  have worker: "pg_db ?u = pg_db ((example_step ^^ length (pending (pg_db ?v))) ?v)" "pg_slots ?u = []"
    "net_answers ?u = Inr 200 # []" "200 \<le> (200::int)" "(200::int) < 300" "no_url_error ''http://svc/'' = None"
    "pg_text_ok ''svc''" "consumer_completions (pg_db empty_api) (se_ID test_event, ''svc'') = None"
    by (simp_all add: example_published_db_def no_url_error_def)
  note all = webhook_delivered[where nre = no_url_error and url = "''http://svc/''" and wlog = "NewJSONLogger None",
      OF api job publisher refl worker]
  let ?rec = "\<lparr>rec_Topic = ''jobs'', rec_Partition = 0, rec_Offset = 0, rec_Key = ''evt_1'', rec_Value = test_payload\<rparr>"
  have "rec_Value ?rec = test_payload" by simp
  from all[THEN conjunct2, THEN conjunct2, THEN conjunct2, rule_format, OF this] show ?thesis
    by (auto simp: test_event_def)
qed

end
