(* ===== verification/Provenance.thy ===== *)
theory Provenance
  imports Api_Main Publisher_Live Worker_Main
begin

text \<open>
  Where the data of a delivery comes from: rows of the outbox hold jobs of given events, the
  topic holds payloads of such rows, and every operation of the three binaries keeps it so.
\<close>

section \<open>Rows of given events\<close>

text \<open>\<open>V\<close> is a set of Stripe events; the outbox stores their jobs through the cast of Postgres.\<close>

definition posted :: "stripe_Event set \<Rightarrow> string \<Rightarrow> string \<Rightarrow> bool" where
  "posted V ev p \<longleftrightarrow> (\<exists>e \<in> V. se_ID e = ev \<and> Marshal_Job (webhook_job e) = Inr p)"

definition stored :: "stripe_Event set \<Rightarrow> (string \<Rightarrow> string option) \<Rightarrow> string \<Rightarrow> string \<Rightarrow> bool" where
  "stored V cast ev t \<longleftrightarrow> (\<exists>p. posted V ev p \<and> cast p = Some t)"

lemma storedI: "posted V ev p \<Longrightarrow> cast p = Some t \<Longrightarrow> stored V cast ev t"
  by (auto simp: stored_def)

definition rows_from :: "stripe_Event set \<Rightarrow> (string \<Rightarrow> string option) \<Rightarrow> database \<Rightarrow> bool" where
  "rows_from V cast db \<longleftrightarrow> jsonb_cast db = cast \<and>
     (\<forall>r \<in> set (outbox_events db). stored V cast (ob_event_id r) (ob_payload r))"

text \<open>The other clients of a schedule accept jobs of these events only.\<close>

definition accepts_from :: "stripe_Event set \<Rightarrow> slot list \<Rightarrow> bool" where
  "accepts_from V ss \<longleftrightarrow>
     (\<forall>sl \<in> set ss. \<forall>i ev ty p. AcceptTx i ev ty p \<in> set (sl_others sl) \<longrightarrow> posted V ev p)"

definition genuine :: "stripe_Event set \<Rightarrow> (string \<Rightarrow> string option) \<Rightarrow> 's session_scheme \<Rightarrow> bool" where
  "genuine V cast w \<longleftrightarrow> rows_from V cast (pg_db w) \<and> accepts_from V (pg_slots w)"

lemma rows_from_same:
  "outbox_events db' = outbox_events db \<Longrightarrow> jsonb_cast db' = jsonb_cast db \<Longrightarrow>
     rows_from V cast db' = rows_from V cast db"
  by (simp add: rows_from_def)

lemma update_completion_rows [simp]:
  "rows_from V cast (snd (update_completion ev c st f db)) = rows_from V cast db"
  by (rule rows_from_same) (auto simp: update_completion_def split: option.splits)

lemma insert_completion_rows [simp]:
  "rows_from V cast (snd (sql_insert_completion ev c ty st db)) = rows_from V cast db"
  by (rule rows_from_same) (auto simp: sql_insert_completion_def)

lemma mark_outbox_rows:
  assumes "rows_from V cast db"
  shows "rows_from V cast (snd (sql_mark_outbox st ev old db))"
  using assms by (auto simp: rows_from_def sql_mark_outbox_def Let_def)

lemmas completion_sql_rows =
  sql_retry_completion_def sql_reclaim_completion_def sql_mark_processed_def sql_mark_failed_def
  snd_rows_of snd_returning_attempts

lemma run_txn_rows:
  assumes "rows_from V cast db" "\<And>i ev ty p. x = AcceptTx i ev ty p \<Longrightarrow> posted V ev p"
  shows "rows_from V cast (run_txn t x db)"
proof (cases x)
  case (AcceptTx i ev ty p)
  with assms show ?thesis
    by (auto simp: rows_from_def stored_def split: option.splits)
next
  case (ProcessTx ev ty)
  then show ?thesis using assms(1) by (simp add: rows_from_def)
next
  case (ClockTx n)
  then show ?thesis using assms(1) by (simp add: rows_from_def)
qed (use assms(1) in \<open>simp_all add: mark_outbox_rows completion_sql_rows\<close>)

lemma run_txns_rows:
  "rows_from V cast db \<Longrightarrow> \<forall>i ev ty p. AcceptTx i ev ty p \<in> set xs \<longrightarrow> posted V ev p \<Longrightarrow>
     rows_from V cast (run_txns t xs db)"
proof (induction xs arbitrary: db)
  case (Cons x xs)
  have "posted V ev p" if "x = AcceptTx i ev ty p" for i ev ty p
    using Cons.prems(2) that by (meson list.set_intros(1))
  from Cons.IH[OF run_txn_rows[OF Cons.prems(1) this]] Cons.prems(2) show ?case by simp
qed simp

section \<open>Calls\<close>

lemma genuine_call:
  assumes "pg_call t texts f w = (r, w')" "genuine V cast w"
    and "\<And>db. rows_from V cast db \<Longrightarrow> rows_from V cast (snd (f db))"
  shows "genuine V cast w' \<and> (\<forall>x. r = Inr x \<longrightarrow> (\<exists>db. rows_from V cast db \<and> f db = (Inr x, pg_db w')))"
proof -
  define db where "db = run_txns t (sl_others (head_slot (pg_slots w))) (pg_db w)"
  have db: "rows_from V cast db"
    using assms(2) unfolding db_def genuine_def accepts_from_def
    by (cases "pg_slots w") (auto intro!: run_txns_rows simp: quiet_def)
  have "pg_slots w' = tl (pg_slots w)" "pg_db w' = db \<or> pg_db w' = snd (f db)"
    "\<forall>x. r = Inr x \<longrightarrow> f db = (Inr x, pg_db w')"
    using assms(1) unfolding pg_call_def Let_def db_def[symmetric]
    by (auto simp: after_fault_def prod_eq_iff split: fault.splits if_splits)
  moreover have "accepts_from V (tl (pg_slots w))"
    using assms(2) by (cases "pg_slots w") (auto simp: genuine_def accepts_from_def)
  ultimately show ?thesis using db assms(3)[OF db] unfolding genuine_def by metis
qed

lemma genuine_Query:
  assumes "db_Query texts f w = (r, w')" "genuine V cast w"
    and "\<And>db. rows_from V cast db \<Longrightarrow> rows_from V cast (snd (f db))"
  shows "genuine V cast w'"
  using genuine_call[OF assms(1)[unfolded db_Query_def] assms(2,3)] by blast

lemma genuine_Exec:
  assumes "db_Exec texts f w = (r, w')" "genuine V cast w"
    and "\<And>db. rows_from V cast db \<Longrightarrow> rows_from V cast (snd (f db))"
  shows "genuine V cast w'"
proof -
  obtain q where "pg_call no_tx texts f w = (q, w')"
    using assms(1) by (auto simp: db_Exec_def split: prod.splits sum.splits)
  from genuine_call[OF this assms(2,3)] show ?thesis by blast
qed

lemma genuine_tx_Exec:
  assumes "tx_Exec t texts f w = (r, w')" "genuine V cast w"
    and "\<And>db. rows_from V cast db \<Longrightarrow> rows_from V cast (snd (f t db))"
  shows "genuine V cast w' \<and> (\<forall>n t'. r = Inr (n, t') \<longrightarrow> (\<exists>db k. rows_from V cast db \<and> fst (f t db) = Inr (k, t')))"
proof -
  obtain q where q: "pg_call t texts (f t) w = (q, w')"
    using assms(1) by (auto simp: tx_Exec_def split: prod.splits sum.splits)
  have "\<exists>k. q = Inr (k, t')" if "r = Inr (n, t')" for n t'
    using that assms(1) q by (auto simp: tx_Exec_def split: sum.splits)
  with genuine_call[OF q assms(2,3)] show ?thesis by (metis fst_conv)
qed

section \<open>Operations of the store\<close>

lemma genuine_Ping: "Ping w = (r, w') \<Longrightarrow> genuine V cast w \<Longrightarrow> genuine V cast w'"
  unfolding Ping_def using genuine_call[of no_tx "[]" "\<lambda>db. (Inr (), db)"] by fastforce

lemma genuine_Status:
  assumes "Status ev w = (r, w')" "genuine V cast w" shows "genuine V cast w'"
proof -
  obtain q where "db_Query [ev] (sql_select_status ev) w = (q, w')"
    using assms(1) single_call_worlds(1)[of ev w] by (metis prod.collapse snd_conv)
  from genuine_Query[OF this assms(2)] show ?thesis by (simp add: sql_select_status_def)
qed

lemma genuine_Mark:
  assumes "MarkOutboxPublished ev w = (r, w')" "genuine V cast w" shows "genuine V cast w'"
proof -
  obtain q where "db_Exec [OutboxPublished, ev, OutboxPending]
      (sql_mark_outbox OutboxPublished ev OutboxPending) w = (q, w')"
    using assms(1) single_call_worlds(5)[of ev w] by (metis prod.collapse snd_conv)
  from genuine_Exec[OF this assms(2) mark_outbox_rows] show ?thesis .
qed

lemma least_id_mem: "least_id rs = Some m \<Longrightarrow> m \<in> set rs"
  by (induction rs arbitrary: m) (auto split: option.splits if_splits)

lemma genuine_Next:
  assumes "NextPendingOutbox w = (r, w')" "genuine V cast w"
  shows "genuine V cast w' \<and> (\<forall>row. r = Inr (Some row) \<longrightarrow> stored V cast (or_EventID row) (or_Payload row))"
proof -
  let ?f = "sql_next_outbox OutboxPending"
  obtain q where q: "pg_call no_tx [OutboxPending] ?f w = (q, w')"
    using assms(1) single_call_worlds(3)[of w] by (metis db_Query_def prod.collapse snd_conv)
  have "rows_from V cast (snd (?f db))" if "rows_from V cast db" for db
    using that by (simp add: sql_next_outbox_def)
  note k = genuine_call[OF q assms(2) this]
  have "stored V cast (or_EventID row) (or_Payload row)" if "r = Inr (Some row)" for row
  proof -
    have "q = Inr (or_EventID row, or_Payload row)"
      using that assms(1) q
      by (auto simp: NextPendingOutbox_def db_Query_def split: sum.splits if_splits)
    with k obtain db where db: "rows_from V cast db" "?f db = (Inr (or_EventID row, or_Payload row), pg_db w')"
      by blast
    then obtain m where m: "least_id (filter (\<lambda>r. ob_status r = OutboxPending) (outbox_events db)) = Some m"
      "ob_event_id m = or_EventID row" "ob_payload m = or_Payload row"
      by (auto simp: sql_next_outbox_def split: option.splits)
    from least_id_mem[OF m(1)] have "m \<in> set (outbox_events db)" by simp
    with db(1) m(2,3) show ?thesis by (auto simp: rows_from_def)
  qed
  with k show ?thesis by blast
qed

text \<open>What the open transaction of \<open>AcceptEvent\<close> holds.\<close>

definition tx_from :: "stripe_Event set \<Rightarrow> (string \<Rightarrow> string option) \<Rightarrow> tx \<Rightarrow> bool" where
  "tx_from V cast t \<longleftrightarrow> (\<forall>r \<in> set (tx_outbox t). stored V cast (ob_event_id r) (ob_payload r))"

lemma insert_ledger_from:
  "fst (sql_insert_ledger ev ty st t db) = Inr (k, t') \<Longrightarrow> tx_from V cast t \<Longrightarrow> tx_from V cast t'"
  "snd (sql_insert_ledger ev ty st t db) = db"
  by (auto simp: sql_insert_ledger_def tx_from_def split: if_splits)

lemma insert_outbox_from:
  assumes "fst (sql_insert_outbox ev ty p st t db) = Inr (k, t')" "rows_from V cast db" "posted V ev p" "tx_from V cast t"
  shows "tx_from V cast t'"
proof -
  obtain j where j: "jsonb_cast db p = Some j" using assms(1) by (auto simp: sql_insert_outbox_def split: option.splits)
  have "stored V cast ev j" using storedI[OF assms(3)] j assms(2) by (simp add: rows_from_def)
  with assms(1,4) j show ?thesis by (auto simp: sql_insert_outbox_def tx_from_def Let_def split: if_splits)
qed

lemma insert_outbox_rows: "rows_from V cast (snd (sql_insert_outbox ev ty p st t db)) = rows_from V cast db"
  by (rule rows_from_same) (auto simp: sql_insert_outbox_def Let_def split: option.splits)

lemma commit_from: "rows_from V cast db \<Longrightarrow> tx_from V cast t \<Longrightarrow> rows_from V cast (snd (sql_commit t db))"
  by (auto simp: sql_commit_def rows_from_def tx_from_def)

lemma genuine_AcceptEvent:
  assumes op: "AcceptEvent ev ty p w = (b, w')" and w: "genuine V cast w" and p: "posted V ev p"
  shows "genuine V cast w'"
proof -
  obtain r1 w1 where 1: "BeginTx w = (r1, w1)" by fastforce
  have k1: "genuine V cast w1" "\<And>t. r1 = Inr t \<Longrightarrow> tx_from V cast t"
    using genuine_call[OF 1[unfolded BeginTx_def] w] by (auto simp: tx_start_def tx_from_def)
  show ?thesis
  proof (cases r1)
    case (Inr t)
    obtain r2 w2 where 2: "tx_Exec t [ev, ty, StatusAccepted]
        (sql_insert_ledger ev ty StatusAccepted) w1 = (r2, w2)" by fastforce
    note e2 = genuine_tx_Exec[OF 2 k1(1), unfolded insert_ledger_from(2)]
    show ?thesis
    proof (cases "\<exists>n t1. r2 = Inr (Inr n, t1) \<and> n \<noteq> 0")
      case False
      then have "w' = w2" using op 1 2 Inr by (cases r2) (auto simp: AcceptEvent_def split: sum.splits if_splits)
      with e2 show ?thesis by blast
    next
      case True
      then obtain n t1 where r2: "r2 = Inr (Inr n, t1)" "n \<noteq> 0" by blast
      have t1: "tx_from V cast t1" using e2 r2(1) insert_ledger_from(1) k1(2)[OF Inr] by blast
      obtain r3 w3 where 3: "tx_Exec t1 [ev, ty, p, OutboxPending]
          (sql_insert_outbox ev ty p OutboxPending) w2 = (r3, w3)" by fastforce
      have e3: "genuine V cast w3" "\<And>m t2. r3 = Inr (m, t2) \<Longrightarrow> tx_from V cast t2"
        using genuine_tx_Exec[OF 3, unfolded insert_outbox_rows] e2 insert_outbox_from[OF _ _ p t1] by blast+
      show ?thesis
      proof (cases r3)
        case (Inl e)
        then show ?thesis using op 1 2 3 Inr r2 e3(1) by (simp add: AcceptEvent_def)
      next
        case r3: (Inr x)
        obtain m t2 where x: "x = (m, t2)" by fastforce
        obtain r4 w4 where 4: "Commit t2 w3 = (r4, w4)" by fastforce
        have "w' = w4" using op 1 2 3 4 Inr r2 r3 x by (cases r4) (simp_all add: AcceptEvent_def)
        with genuine_call[OF 4[unfolded Commit_def] e3(1) commit_from[OF _ e3(2)[OF r3[unfolded x]]]]
        show ?thesis by blast
      qed
    qed
  qed (use op 1 k1(1) in \<open>simp add: AcceptEvent_def\<close>)
qed

end
