(* ===== verification/System.thy ===== *)
theory System
  imports Provenance End_To_End
begin

text \<open>
  All pods of the three binaries on one database, one topic and one downstream service, as a step
  relation, and what every reachable state satisfies.
\<close>

section \<open>The API keeps the rows genuine\<close>

text \<open>The Postgres store, when it is only asked to accept jobs of the events \<open>V\<close>.\<close>

definition vouched_store :: "stripe_Event set \<Rightarrow> 's api_world_scheme store_ops" where
  "vouched_store V = pg_store\<lparr>so_AcceptEvent := \<lambda>ev ty p w.
     if posted V ev p then AcceptEvent ev ty p w else (Inl invalid_text, w)\<rparr>"

interpretation vouched: api_store "vouched_store V"
  "\<lambda>w. db_inv (pg_db w) \<and> genuine V cast w" "\<lambda>w x. True" for V cast
proof unfold_locales
  fix w w' :: "'s api_world_scheme" and ev ty p b es u
  show "so_AcceptEvent (vouched_store V) ev ty p w = (b, w') \<Longrightarrow> db_inv (pg_db w) \<and> genuine V cast w \<Longrightarrow>
      (db_inv (pg_db w') \<and> genuine V cast w') \<and> store_frame w w' \<and> (\<forall>x. True \<longrightarrow> True) \<and> (\<forall>c. b = Inr c \<longrightarrow> True)"
    using AcceptEvent_facts[of ev ty p w b w'] genuine_AcceptEvent[of ev ty p w b w' V cast]
    by (auto simp: vouched_store_def store_frame_def split: if_splits)
  show "so_Status (vouched_store V) ev w = (es, w') \<Longrightarrow> db_inv (pg_db w) \<and> genuine V cast w \<Longrightarrow>
      (db_inv (pg_db w') \<and> genuine V cast w') \<and> store_frame w w' \<and> (\<forall>x. True \<longrightarrow> True)"
    using preservesD[OF preserves_Status, of ev w es w'] genuine_Status[of ev w es w' V cast]
    by (simp add: vouched_store_def pg_store_def store_frame_def)
  show "so_Ping (vouched_store V) w = (u, w') \<Longrightarrow> db_inv (pg_db w) \<and> genuine V cast w \<Longrightarrow>
      (db_inv (pg_db w') \<and> genuine V cast w') \<and> store_frame w w' \<and> (\<forall>x. True \<longrightarrow> True)"
    using preservesD[OF preserves_Ping, of w u w'] genuine_Ping[of w u w' V cast]
    by (simp add: vouched_store_def pg_store_def store_frame_def)
qed (simp add: genuine_def)

lemma vouched_sel:
  "app_store (app\<lparr>app_store := st\<rparr>) = st" "app_logger (app\<lparr>app_store := st\<rparr>) = app_logger app"
  "app_cfg (app\<lparr>app_store := st\<rparr>) = app_cfg app"
  "so_Status (vouched_store V) = so_Status pg_store" "so_Ping (vouched_store V) = so_Ping pg_store"
  by (simp_all add: vouched_store_def)

lemma webhook_vouched:
  assumes "app_store app = pg_store" "\<And>e. verified ce app r = Some e \<Longrightarrow> e \<in> V"
  shows "handleStripeWebhook ce (app\<lparr>app_store := vouched_store V\<rparr>) rw r w = handleStripeWebhook ce app rw r w"
proof (cases "ReadAll_MaxBytes maxStripeWebhookBody (rq_Body r)")
  case (Inl e)
  show ?thesis unfolding handleStripeWebhook_def Let_def Inl sum.case vouched_sel ..
next
  case body: (Inr body)
  show ?thesis
  proof (cases "ce body (Header_Get (rq_Header r) ''Stripe-Signature'') (StripeWebhookSecret (app_cfg app))")
    case (Inl e)
    show ?thesis unfolding handleStripeWebhook_def Let_def body sum.case vouched_sel Inl ..
  next
    case ev: (Inr ev)
    show ?thesis
    proof (cases "Marshal_Job (webhook_job ev)")
      case (Inl e)
      show ?thesis unfolding handleStripeWebhook_def Let_def body sum.case vouched_sel ev Inl ..
    next
      case p: (Inr p)
      have "verified ce app r = Some ev" using body ev by (simp add: verified_def)
      with assms(2) p have "so_AcceptEvent (vouched_store V) (se_ID ev) (se_Type ev) p w =
          so_AcceptEvent pg_store (se_ID ev) (se_Type ev) p w"
        by (auto simp: vouched_store_def pg_store_def posted_def)
      then show ?thesis
        unfolding handleStripeWebhook_def Let_def body sum.case vouched_sel ev p assms(1) by (rule arg_cong)
    qed
  qed
qed

lemma probes_vouched:
  assumes "app_store app = pg_store"
  shows "handleReadyz (app\<lparr>app_store := vouched_store V\<rparr>) rw r w = handleReadyz app rw r w"
    "handleLivez (app\<lparr>app_store := vouched_store V\<rparr>) rw r w = handleLivez app rw r w"
  unfolding handleReadyz_def handleLivez_def Let_def vouched_sel assms by (rule refl)+

lemma mux_vouched:
  assumes "app_store app = pg_store" "\<And>e. verified ce app r = Some e \<Longrightarrow> e \<in> V"
  shows "mux_ServeHTTP redirect (routes ce (app\<lparr>app_store := vouched_store V\<rparr>)) rw r w =
    mux_ServeHTTP redirect (routes ce app) rw r w"
  unfolding mux_ServeHTTP_def routes_def Let_def path_matches_def method_matches_def allowed_methods_def
  by (simp add: webhook_vouched[OF assms] probes_vouched[OF assms(1)])

lemma genuine_handler_world [simp]:
  "genuine V cast (handler_world r (fresh_response w)) = genuine V cast w"
  by (simp add: genuine_def resolve_frame)

lemma api_genuine:
  assumes "app_store app = pg_store" "redirect_ok redirect" "\<And>e. verified ce app r = Some e \<Longrightarrow> e \<in> V"
    and w: "db_inv (pg_db w)" "genuine V cast w"
  shows "db_inv (pg_db (api ce redirect app r w)) \<and> genuine V cast (api ce redirect app r w)"
proof (cases "direct r")
  case False
  from redirected[OF this assms(2), of ce app w] w show ?thesis by (simp add: genuine_def)
next
  case True
  let ?v = "handler_world r (fresh_response w)" and ?r = "with_logger r (request_id r w)"
  let ?app = "app\<lparr>app_store := vouched_store V\<rparr>" and ?m = "rec_rw (rq_Method r)"
  obtain out w4 where run: "mux_ServeHTTP redirect (routes ce ?app) ?m ?r ?v = (out, w4)" by fastforce
  have un: "unanswered ?v" "direct ?r" "db_inv (pg_db ?v) \<and> genuine V cast ?v"
    using True w by (simp_all add: resolve_frame)
  have "vouched.handler_ok V cast (app_logger ?app) direct (mux_ServeHTTP redirect (routes ce ?app))"
    by (rule vouched.mux_ok) (rule vouched.routes_ok, rule vouched_sel(1))
  from this[unfolded vouched.handler_ok_def, rule_format, OF run un(2,3,1)]
  have ok: "out = Returned" "db_inv (pg_db w4)" "genuine V cast w4" "\<exists>code. answered code w4"
    unfolding vouched.ran_ok_def by blast+
  have "verified ce app ?r = Some e \<Longrightarrow> e \<in> V" for e using assms(3) by simp
  from mux_vouched[where redirect = redirect and rw = ?m and w = ?v and r = ?r and ce = ce and V = V, OF assms(1) this] run ok(1)
  have run': "mux_ServeHTTP redirect (routes ce app) ?m ?r ?v = (Returned, w4)" by simp
  obtain code where "answered code w4" using ok(4) ..
  from serve_run[OF run' this] ok(2,3) show ?thesis unfolding genuine_def by metis
qed

section \<open>The publisher and the worker\<close>

definition topic_from :: "stripe_Event set \<Rightarrow> (string \<Rightarrow> string option) \<Rightarrow> produce_record list \<Rightarrow> bool" where
  "topic_from V cast ks \<longleftrightarrow> (\<forall>k \<in> set ks. stored V cast (pr_Key k) (pr_Value k))"

lemma genuine_log [simp]: "genuine V cast (log_at l lg m as w) = genuine V cast w"
  by (cases w) (simp add: genuine_def log_at_def)

lemma genuine_sleep [simp]: "genuine V cast (sleepOrDone wall_clock d w) = genuine V cast w"
  by (simp add: genuine_def)

lemma produce_from:
  assumes "publishOutbox cluster topic ev p w = (r, w')" "genuine V cast w" "topic_from V cast (kafka_log w)"
    and "stored V cast ev p"
  shows "genuine V cast w' \<and> topic_from V cast (kafka_log w')"
  using assms by (cases w)
    (auto simp: publishOutbox_def cluster_def cluster_produce_def Let_def genuine_def topic_from_def
      split: prod.splits option.splits produce_answer.splits)

lemma pub_step_genuine:
  assumes w: "genuine V cast w" "topic_from V cast (kafka_log w)" "db_inv (pg_db w)"
    and w': "w' = pub_step log topic d w"
  shows "genuine V cast w' \<and> topic_from V cast (kafka_log w') \<and> db_inv (pg_db w')"
proof -
  obtain r w1 where 1: "NextPendingOutbox w = (r, w1)" by fastforce
  have k1: "kafka_log w1 = kafka_log w" "db_inv (pg_db w1)"
    using publisher_more[OF conjunct1[OF conjunct2[OF next_call[OF 1]]]]
      preservesD(1)[OF preserves_NextPendingOutbox 1 w(3)] by simp_all
  note n = genuine_Next[OF 1 w(1)]
  show ?thesis
  proof (cases "\<exists>row. r = Inr (Some row)")
    case False
    then show ?thesis using 1 n k1 w(2) unfolding w'
      by (cases r) (auto simp: publisher_body_def pg_outbox_store_def split: option.splits)
  next
    case True
    then obtain row where row: "r = Inr (Some row)" ..
    let ?ev = "or_EventID row"
    obtain q w2 where 2: "publishOutbox cluster topic ?ev (or_Payload row) w1 = (q, w2)" by fastforce
    have w2: "genuine V cast w2" "topic_from V cast (kafka_log w2)" "db_inv (pg_db w2)"
      using produce_from[OF 2] produce_call[OF 2] n row k1 w(2) by simp_all
    obtain b w3 where 3: "MarkOutboxPublished ?ev w2 = (b, w3)" by fastforce
    have w3: "genuine V cast w3" "topic_from V cast (kafka_log w3)" "db_inv (pg_db w3)"
      using genuine_Mark[OF 3 w2(1)] publisher_more[OF conjunct1[OF conjunct2[OF mark_call[OF 3]]]]
        preservesD(1)[OF preserves_MarkOutboxPublished 3 w2(3)] w2(2) by simp_all
    show ?thesis unfolding w'
      using 1 2 3 row w2 w3 by (cases q; cases b) (auto simp: publisher_body_def pg_outbox_store_def)
  qed
qed

lemma genuine_Claim:
  assumes "ClaimConsumerCompletion ev c ty w = (r, w')" "genuine V cast w" shows "genuine V cast w'"
proof -
  obtain r1 w1 where 1: "db_Exec [ev, c, ty, CompletionProcessing]
      (sql_insert_completion ev c ty CompletionProcessing) w = (r1, w1)" by fastforce
  obtain r2 w2 where 2: "db_Query [ev, c] (sql_select_completion ev c) w1 = (r2, w2)" by fastforce
  obtain r3 w3 where 3: "db_Query [ev, c, CompletionProcessing]
      (sql_retry_completion ev c CompletionProcessing) w2 = (r3, w3)" by fastforce
  obtain r4 w4 where 4: "db_Query [CompletionProcessing, ev, c, CompletionFailed]
      (sql_reclaim_completion CompletionProcessing ev c CompletionFailed) w2 = (r4, w4)" by fastforce
  have g: "genuine V cast w1" using genuine_Exec[OF 1 assms(2)] by simp
  moreover have g2: "genuine V cast w2" using genuine_Query[OF 2 g] by (simp add: sql_select_completion_def)
  moreover have "genuine V cast w3" using genuine_Query[OF 3 g2] by (simp add: completion_sql_rows)
  moreover have "genuine V cast w4" using genuine_Query[OF 4 g2] by (simp add: completion_sql_rows)
  moreover have "w' \<in> {w1, w2, w3, w4}"
    using assms(1) unfolding ClaimConsumerCompletion_def 1 prod.case
    by (auto simp: 2 3 4 split: sum.splits prod.splits if_splits)
  ultimately show ?thesis by blast
qed

lemma genuine_marks:
  "MarkConsumerProcessed ev c w = (r, w') \<Longrightarrow> genuine V cast w \<Longrightarrow> genuine V cast w'"
  "MarkConsumerFailed ev c m w = (r', w') \<Longrightarrow> genuine V cast w \<Longrightarrow> genuine V cast w'"
proof -
  obtain q v where q: "db_Exec [CompletionProcessed, ev, c, CompletionProcessing]
      (sql_mark_processed CompletionProcessed ev c CompletionProcessing) w = (q, v)" by fastforce
  show "genuine V cast w'" if "MarkConsumerProcessed ev c w = (r, w')" "genuine V cast w"
    using genuine_Exec[OF q that(2)] q that(1) single_call_worlds(6)[of ev c w] by (simp add: completion_sql_rows)
  obtain q v where q: "db_Exec [CompletionFailed, m, ev, c, CompletionProcessing]
      (sql_mark_failed CompletionFailed m ev c CompletionProcessing) w = (q, v)" by fastforce
  show "genuine V cast w'" if "MarkConsumerFailed ev c m w = (r', w')" "genuine V cast w"
    using genuine_Exec[OF q that(2)] q that(1) single_call_worlds(7)[of ev c m w] by (simp add: completion_sql_rows)
qed

lemma net_do_slots: "net_do rq w = (r, w') \<Longrightarrow> pg_db w' = pg_db w \<and> pg_slots w' = pg_slots w"
  by (cases w) (auto simp: net_do_def Let_def split: prod.splits list.splits)

lemma genuine_deliver:
  "DeliverJob (net_downstream nre url) job w = (e, w') \<Longrightarrow> genuine V cast w \<Longrightarrow> genuine V cast w'"
  by (auto simp: net_downstream_def NewHTTPDownstream_def httpDownstream_DeliverJob_def genuine_def
      split: sum.splits option.splits prod.splits if_splits dest!: net_do_slots)

lemma genuine_logs: "genuine V cast (w\<lparr>proc_logs := l\<rparr>) = genuine V cast w"
  by (cases w) (simp add: genuine_def)

interpretation vouched_net: worker_contract pg_completion_store "\<lambda>w. pg_inv w \<and> genuine V cast w" pg_rows world_of
  "net_downstream nre url" "world_deliver nre url" for V cast nre url
proof unfold_locales
  fix w w' :: "'s worker_world_scheme" and ev c ty m :: string and r :: "CompletionClaim result"
    and r' :: "bool result" and l job e
  show "(pg_inv (w\<lparr>proc_logs := l\<rparr>) \<and> genuine V cast (w\<lparr>proc_logs := l\<rparr>)) = (pg_inv w \<and> genuine V cast w)"
    "pg_rows (w\<lparr>proc_logs := l\<rparr>) = pg_rows w" "world_of (w\<lparr>proc_logs := l\<rparr>) = world_of w"
    by (simp_all only: genuine_logs net.logs)
  show "st_Claim pg_completion_store ev c ty w = (r, w') \<Longrightarrow> pg_inv w \<and> genuine V cast w \<Longrightarrow>
      (pg_inv w' \<and> genuine V cast w') \<and> rows_le (pg_rows w) (pg_rows w') \<and> world_of w' = world_of w"
    using net.claim_keeps[of ev c ty w r w'] genuine_Claim[of ev c ty w r w']
    by (simp add: pg_completion_store_def)
  show "st_MarkProcessed pg_completion_store ev c w = (r', w') \<Longrightarrow> pg_inv w \<and> genuine V cast w \<Longrightarrow>
      (pg_inv w' \<and> genuine V cast w') \<and> rows_le (pg_rows w) (pg_rows w') \<and> world_of w' = world_of w"
    using net.processed_keeps[of ev c w r' w'] genuine_marks(1)[of ev c w r' w']
    by (simp add: pg_completion_store_def)
  show "st_MarkFailed pg_completion_store ev c m w = (r', w') \<Longrightarrow> pg_inv w \<and> genuine V cast w \<Longrightarrow>
      (pg_inv w' \<and> genuine V cast w') \<and> rows_le (pg_rows w) (pg_rows w') \<and> world_of w' = world_of w"
    using net.failed_keeps[of ev c m w r' w'] genuine_marks(2)[of ev c m w r' w']
    by (simp add: pg_completion_store_def)
  show "DeliverJob (net_downstream nre url) job w = (e, w') \<Longrightarrow> pg_inv w \<and> genuine V cast w \<Longrightarrow>
      (pg_inv w' \<and> genuine V cast w') \<and> rows_le (pg_rows w) (pg_rows w') \<and>
      world_deliver nre url job (world_of w) = (e, world_of w')"
    using net.deliver_keeps[of nre url job w e w'] genuine_deliver[of nre url job w e w'] by simp
qed (elim conjE, (erule (1) net.claim_exists | erule (1) net.claim_processed | erule (1) net.processed_done |
     erule (2) net.failed_done))+

lemma handleRecord_requests:
  assumes "handleRecord log pg_completion_store (net_downstream nre url) c rec u = (b, u')" "db_inv (pg_db u)"
    and "q \<in> set (net_sent u')"
  shows "q \<in> set (net_sent u) \<or> (\<exists>job. Unmarshal_Job (rec_Value rec) = Inr job \<and> StripeEventID job \<noteq> [] \<and>
    Marshal_Job job = Inr (req_Body q))"
proof -
  have "net_of u' = net_of u \<or> (\<exists>job e. Unmarshal_Job (rec_Value rec) = Inr job \<and> StripeEventID job \<noteq> [] \<and>
      net_deliver nre url job (net_of u) = (e, net_of u'))"
    using net.handleRecord_delivers[OF assms(1,2)] by (auto dest: world_of_eq)
  then show ?thesis
  proof (elim disjE exE conjE)
    show ?thesis if "net_of u' = net_of u" using that assms(3) by (simp add: net_of_def)
    show ?thesis if "Unmarshal_Job (rec_Value rec) = Inr job" "StripeEventID job \<noteq> []"
      "net_deliver nre url job (net_of u) = (e, net_of u')" for job e
      using net_deliver_cases[OF that(3)] that(1,2) assms(3) by (auto simp: net_of_def)
  qed
qed

section \<open>The whole system\<close>

record system =
  sy_db :: database
  sy_topic :: "produce_record list"
  sy_sent :: "http_request list"

type_synonym construct_event = "string \<Rightarrow> string \<Rightarrow> string \<Rightarrow> stripe_Event result"

text \<open>The events that \<open>stripe.ConstructEvent\<close> vouched for, of the requests \<open>R\<close> the API gets.\<close>

definition verified_events :: "'w App \<Rightarrow> (construct_event \<times> request) set \<Rightarrow> stripe_Event set" where
  "verified_events app R = {e. \<exists>ce r. (ce, r) \<in> R \<and> verified ce app r = Some e}"

text \<open>
  A step is a request of an API pod, an iteration of a publisher pod, a record handled by a worker
  pod (of any group, with any value that is in the topic, any number of times), or transactions of
  pods in between. Each call within a step has its faults and the transactions of the other pods
  before it; the events those accept are verified ones too.
\<close>

inductive system_step ::
  "api_world App \<Rightarrow> (string \<Rightarrow> api_world handler) \<Rightarrow> (construct_event \<times> request) set \<Rightarrow> system \<Rightarrow> system \<Rightarrow> bool"
  for app redirect R where
  webhook: "\<lbrakk> (ce, r) \<in> R; pg_db w = sy_db s; accepts_from (verified_events app R) (pg_slots w) \<rbrakk> \<Longrightarrow>
    system_step app redirect R s (s\<lparr>sy_db := pg_db (api ce redirect app r w)\<rparr>)"
| publish: "\<lbrakk> pg_db v = sy_db s; kafka_log v = sy_topic s; accepts_from (verified_events app R) (pg_slots v);
      v' = pub_step plog topic d (v :: publisher_world) \<rbrakk> \<Longrightarrow>
    system_step app redirect R s (s\<lparr>sy_db := pg_db v', sy_topic := kafka_log v'\<rparr>)"
| work: "\<lbrakk> k \<in> set (sy_topic s); rec_Value rec = pr_Value k; pg_db u = sy_db s; net_sent u = sy_sent s;
      accepts_from (verified_events app R) (pg_slots u);
      handleRecord wlog pg_completion_store (net_downstream nre url) c rec (u :: worker_world) = (b, u') \<rbrakk> \<Longrightarrow>
    system_step app redirect R s (s\<lparr>sy_db := pg_db u', sy_sent := net_sent u'\<rparr>)"
| others: "accepts_from (verified_events app R) [\<lparr>sl_others = xs, sl_fault = NoFault\<rparr>] \<Longrightarrow>
    system_step app redirect R s (s\<lparr>sy_db := run_txns no_tx xs (sy_db s)\<rparr>)"

inductive system_reaches ::
  "api_world App \<Rightarrow> (string \<Rightarrow> api_world handler) \<Rightarrow> (construct_event \<times> request) set \<Rightarrow> system \<Rightarrow> system \<Rightarrow> bool"
  for app redirect R s0 where
  init: "system_reaches app redirect R s0 s0"
| step: "system_reaches app redirect R s0 s \<Longrightarrow> system_step app redirect R s s' \<Longrightarrow> system_reaches app redirect R s0 s'"

definition empty_system :: "(string \<Rightarrow> string option) \<Rightarrow> system" where
  "empty_system cast = \<lparr>sy_db = empty_database cast, sy_topic = [], sy_sent = []\<rparr>"

text \<open>A request that carries what the pipeline makes of the job of one of the events.\<close>

definition request_from :: "stripe_Event set \<Rightarrow> (string \<Rightarrow> string option) \<Rightarrow> http_request \<Rightarrow> bool" where
  "request_from V cast q \<longleftrightarrow>
     (\<exists>ev t job. stored V cast ev t \<and> Unmarshal_Job t = Inr job \<and> StripeEventID job \<noteq> [] \<and>
        Marshal_Job job = Inr (req_Body q))"

definition system_inv :: "stripe_Event set \<Rightarrow> (string \<Rightarrow> string option) \<Rightarrow> system \<Rightarrow> bool" where
  "system_inv V cast s \<longleftrightarrow> db_inv (sy_db s) \<and> rows_from V cast (sy_db s) \<and> topic_from V cast (sy_topic s) \<and>
     (\<forall>q \<in> set (sy_sent s). request_from V cast q)"

lemma system_step_inv:
  assumes "system_step app redirect R s s'" "app_store app = pg_store" "redirect_ok redirect"
    and inv: "system_inv (verified_events app R) cast s"
  shows "system_inv (verified_events app R) cast s'"
  using assms(1)
proof cases
  case (webhook ce r w)
  have "verified ce app r = Some e \<Longrightarrow> e \<in> verified_events app R" for e
    using webhook(2) by (auto simp: verified_events_def)
  from api_genuine[where V = "verified_events app R" and cast = cast and w = w, OF assms(2,3) this] webhook inv
  show ?thesis by (simp add: system_inv_def genuine_def)
next
  case (publish v v' plog topic d)
  have "genuine (verified_events app R) cast v" "db_inv (pg_db v)" "topic_from (verified_events app R) cast (kafka_log v)"
    using publish(2-4) inv by (simp_all add: system_inv_def genuine_def)
  from pub_step_genuine[OF this(1,3,2) publish(5)] publish(1) inv
  show ?thesis by (simp add: system_inv_def genuine_def)
next
  case (work k rec u wlog nre url c b u')
  have u: "genuine (verified_events app R) cast u" "db_inv (pg_db u)"
    using work(4,6) inv by (simp_all add: system_inv_def genuine_def)
  have k: "stored (verified_events app R) cast (pr_Key k) (rec_Value rec)"
    using work(2,3) inv by (simp add: system_inv_def topic_from_def)
  have "\<forall>q \<in> set (net_sent u'). request_from (verified_events app R) cast q"
    using handleRecord_requests[OF work(7) u(2)] k inv work(5) unfolding system_inv_def request_from_def by metis
  moreover have "db_inv (pg_db u') \<and> genuine (verified_events app R) cast u'"
    using vouched_net.handleRecord_keeps[OF work(7) conjI[OF u(2,1)]] by blast
  ultimately show ?thesis using work(1) inv by (simp add: system_inv_def genuine_def)
next
  case (others xs)
  then have "rows_from (verified_events app R) cast (run_txns no_tx xs (sy_db s))"
    using inv by (auto simp: system_inv_def accepts_from_def intro!: run_txns_rows)
  moreover have "db_inv (run_txns no_tx xs (sy_db s))"
    using run_txns_inv[OF _ tx_inv_no_tx, of "sy_db s" xs] inv by (simp add: system_inv_def)
  ultimately show ?thesis using others(1) inv by (simp add: system_inv_def)
qed

lemma system_reaches_inv:
  assumes "system_reaches app redirect R (empty_system cast) s" "app_store app = pg_store" "redirect_ok redirect"
  shows "system_inv (verified_events app R) cast s"
  using assms(1)
proof induction
  case init
  have "rows_from V cast (empty_database cast)" for V by (simp add: rows_from_def empty_database_def)
  then show ?case by (simp add: empty_system_def system_inv_def topic_from_def db_inv_empty)
next
  case (step s s')
  from system_step_inv[OF step(2) assms(2,3) step.IH] show ?case .
qed

text \<open>
  C2: Nothing is made up or forged. Along every run of the system from empty tables, with any
  number of pods, any faults of the database, the broker and the downstream service, any order
  and any number of polls of a record: every record of the topic carries the stored job of an
  event that ConstructEvent vouched for in a request to the API, under the id of this
  event; and every request to the downstream service carries a job decoded from such a record.
\<close>

theorem deliveries_verified:
  assumes "system_reaches app redirect R (empty_system cast) s" "app_store app = pg_store" "redirect_ok redirect"
  shows "(\<forall>k \<in> set (sy_topic s). \<exists>ce r e p. (ce, r) \<in> R \<and> verified ce app r = Some e \<and> se_ID e = pr_Key k \<and>
      Marshal_Job (webhook_job e) = Inr p \<and> cast p = Some (pr_Value k)) \<and>
    (\<forall>q \<in> set (sy_sent s). \<exists>ce r e p t job. (ce, r) \<in> R \<and> verified ce app r = Some e \<and>
      Marshal_Job (webhook_job e) = Inr p \<and> cast p = Some t \<and> Unmarshal_Job t = Inr job \<and>
      StripeEventID job \<noteq> [] \<and> Marshal_Job job = Inr (req_Body q))"
  using system_reaches_inv[OF assms]
  unfolding system_inv_def topic_from_def request_from_def stored_def posted_def verified_events_def by blast

section \<open>A run\<close>

abbreviation example_topic :: "publisher_world" where
  "example_topic \<equiv> example_step (publisher_on accepted_example [] [] None)"

abbreviation example_record :: krecord where
  "example_record \<equiv> \<lparr>rec_Topic = ''jobs'', rec_Partition = 0, rec_Offset = 0, rec_Key = ''evt_1'', rec_Value = test_payload\<rparr>"

abbreviation example_handled :: "bool \<times> worker_world" where
  "example_handled \<equiv> handleRecord (NewJSONLogger None) pg_completion_store (net_downstream no_url_error ''http://svc/'')
     ''svc'' example_record (worker_on (pg_db example_topic) [Inr 200])"

lemma example_topic_log:
  "kafka_log example_topic = [\<lparr>pr_Topic = ''jobs'', pr_Key = ''evt_1'', pr_Value = test_payload\<rparr>]"
  by code_simp

lemma example_handled_sends: "length (net_sent (snd example_handled)) = 1"
  by code_simp

abbreviation example_requests :: "(construct_event \<times> request) set" where
  "example_requests \<equiv> {(test_verify, test_webhook ''good'')}"

lemma example_run:
  "system_reaches test_app test_redirect example_requests (empty_system test_cast)
     \<lparr>sy_db = pg_db (snd example_handled), sy_topic = kafka_log example_topic, sy_sent = net_sent (snd example_handled)\<rparr>"
proof -
  let ?s0 = "empty_system test_cast"
  let ?s1 = "?s0\<lparr>sy_db := pg_db (test_api (test_webhook ''good'') empty_api)\<rparr>"
  let ?s2 = "?s1\<lparr>sy_db := pg_db example_topic, sy_topic := kafka_log example_topic\<rparr>"
  let ?s3 = "?s2\<lparr>sy_db := pg_db (snd example_handled), sy_sent := net_sent (snd example_handled)\<rparr>"
  have "system_step test_app test_redirect example_requests ?s0 ?s1"
    by (rule system_step.webhook) (simp_all add: empty_system_def accepts_from_def)
  moreover have "system_step test_app test_redirect example_requests ?s1 ?s2"
    by (rule system_step.publish[where v = "publisher_on accepted_example [] [] None"])
      (simp_all add: empty_system_def accepts_from_def test_first)
  moreover have "system_step test_app test_redirect example_requests ?s2 ?s3"
    by (rule system_step.work[where k = "\<lparr>pr_Topic = ''jobs'', pr_Key = ''evt_1'', pr_Value = test_payload\<rparr>"
        and b = "fst example_handled", OF _ _ _ _ _ prod.collapse[symmetric]])
      (simp_all add: empty_system_def accepts_from_def example_topic_log)
  ultimately have "system_reaches test_app test_redirect example_requests ?s0 ?s3"
    by (meson system_reaches.intros)
  then show ?thesis by (simp add: empty_system_def)
qed

theorem deliveries_verified_witness:
  "\<exists>q e job. net_sent (snd example_handled) = [q] \<and> verified test_verify test_app (test_webhook ''good'') = Some e \<and>
     Marshal_Job job = Inr (req_Body q)"
proof -
  obtain q where q: "net_sent (snd example_handled) = [q]"
    using example_handled_sends by (auto simp: length_Suc_conv)
  note all = deliveries_verified[OF example_run test_app_store test_redirect_ok, THEN conjunct2, rule_format, of q]
  have "\<exists>ce r e p t job. (ce, r) \<in> example_requests \<and> verified ce test_app r = Some e \<and>
      Marshal_Job (webhook_job e) = Inr p \<and> test_cast p = Some t \<and> Unmarshal_Job t = Inr job \<and>
      StripeEventID job \<noteq> [] \<and> Marshal_Job job = Inr (req_Body q)"
    by (rule all) (simp add: q)
  with q show ?thesis by blast
qed

end
