(* ===== verification/Spec2Isabelle.thy ===== *)
theory Spec2Isabelle
  imports Worker_Main Publisher_Live Api_Main Pipeline Schema Json_Members End_To_End System
begin

text \<open>
  Verification of a Stripe webhook pipeline in Go: three binaries around one Postgres database
  and one Kafka topic.

  The program.  cmd/api takes the webhooks of Stripe, verifies them and stores each new event in
  one transaction: a row of the ledger \<open>processed_events\<close> and a row of the outbox
  \<open>outbox_events\<close> that holds the job as JSON; then it answers 204.  cmd/publisher takes the pending
  outbox rows one by one in the order of their ids, produces each to Kafka, and marks it as
  published when the broker confirmed it.  cmd/worker polls Kafka, claims each event for its
  consumer group in \<open>consumer_completions\<close>, posts the payload to a downstream URL, records how
  that ended, and commits the offsets of the records it is done with.  Several pods of each may
  run at once; they meet in the database only.

  The theories and the code they model.
  \<^item> \<open>Go_Base\<close>, \<open>Go_Strings\<close>, \<open>Json\<close>, \<open>Http\<close>, \<open>Url\<close>: what the code uses of Go: errors, slog, strings,
    utf8, strconv, encoding/json, net/http, net/url.
  \<^item> \<open>Database\<close>: the tables of migrations/ and each SQL statement of internal/store/postgres.go.
    \<open>Schema\<close>: the statements of migrations/, up and down, on a schema whose tables may be missing.
    \<open>Session\<close>: a client's calls, with the transactions of other clients and the faults in between.
    \<open>Store\<close>: the operations of \<open>*Postgres\<close> and the types of internal/store/store.go.
  \<^item> \<open>Engine\<close>: internal/engine, with the JSON forms of its types.  \<open>Config\<close>: internal/config.
  \<^item> \<open>Job_Errors\<close>, \<open>Worker\<close>, \<open>Worker_Main\<close>: cmd/worker: job_error.go; downstream.go, handle_job.go,
    partition.go, \<open>handleRecord\<close> and the poll loop; \<open>main\<close>.
    \<open>Http_Client\<close>: \<open>client.Do\<close> of net/http with its redirects, and the worker on it.
  \<^item> \<open>Publisher\<close>: cmd/publisher: the produce call, the body of the loop, the sleep, the loop, \<open>main\<close>.
  \<^item> \<open>Api\<close>, \<open>Api_Main\<close>: cmd/api: the handlers, requestlog.go, logging.go, recover.go, app.go; \<open>main\<close>.

  How state and operations correspond.  An operation with effects is a function from a world to
  its result and the next world.  A Go pair of value and error is a sum (\<open>Inl\<close> the error); every
  early return is a branch.  The world of a process is a record that grows from component to
  component: the log lines (\<open>proc\<close>), the database and the schedule of the calls to come
  (\<open>session\<close>), the requests and answers of a network, a Kafka log, a clock.  Go interfaces are
  records of operations (\<open>completion_store\<close>, \<open>downstream_client\<close>, \<open>kafkaProducer\<close>, \<open>store_ops\<close>).
  Transactions of other clients (\<open>run_txn\<close>) run the same SQL statements in one piece.
  What one component relies on of another is a locale (\<open>completion_contract\<close>, \<open>worker_contract\<close>,
  \<open>outbox_contract\<close>, \<open>publisher_contract\<close>, \<open>api_store\<close>), interpreted on the Postgres store.
  Strings are byte strings, as in Go; \<open>INT\<close> columns, \<open>int64\<close> and durations are integers with their
  range and its error written out.

  Concurrency and faults.  \<open>Session\<close> gives each call a slot: the transactions others commit before
  it, and a fault: the call fails before the statement, or after it took effect, or
  \<open>RowsAffected\<close> fails.  A theorem for every schedule holds for every interleaving at the
  granularity of statements and for every crash (all later calls fail).  \<open>main\<close> of the API is a
  step relation, as its server, its shutdown and its signals are concurrent.

  What the lemmas show.
  \<^item> \<open>Db_Invariant\<close>, \<open>Store_Facts\<close>: the invariant of the tables (\<open>db_inv\<close>), an order of progress
    (\<open>db_le\<close>), both kept by every statement, transaction, call and operation under every schedule.
    \<open>Store_Correct\<close>: what each operation answers and leaves, when it is disturbed and alone.
  \<^item> \<open>Schema\<close>: the migrations end in the schema \<open>db_inv\<close> starts from; they can be taken back on
    every reachable database, with the loss of what the outbox held.
  \<^item> \<open>Pipeline\<close>: an abstract state machine of events and deliveries, which the database refines.
  \<^item> \<open>Worker_Facts\<close>, \<open>Worker_Correct\<close>, \<open>Worker_Main\<close>: a handled record is settled, at most one call of
    the HTTP client per record, what is committed, what is sent and where; and three weaknesses of the code as theorems:
    a malformed record blocks its batch, a later poll commits past a failed record, and a redirect
    to a page that answers 2xx counts as a delivery.
  \<^item> \<open>Publisher_Facts\<close>, \<open>Publisher_Correct\<close>, \<open>Publisher_Live\<close>: a published row is in Kafka; the loop
    ends after a signal; without faults it publishes all pending rows in order.
  \<^item> \<open>Api_Facts\<close>, \<open>Api_Request\<close>, \<open>Api_Correct\<close>, \<open>Api_Main\<close>: an acknowledged event is recorded, through
    the whole stack of handlers and along every run of the process; rejections, replays, the
    request log, panics, probes, exit codes.
  \<^item> \<open>Config_Correct\<close>: what a loaded configuration satisfies, and the range of durations.
  \<^item> \<open>Json_Scan\<close> (what one step of the scanner may do), \<open>Json_Strings\<close>, \<open>Json_Compact\<close>, \<open>Json_Extent\<close>:
    quoting, compacting and the extent of values agree with the scanner.  \<open>Job_Codec\<close>: a job
    survives the way through JSON.  \<open>Json_Members\<close>: whatever text is decoded, the parts cut out of it
    are JSON, so a decoded job can be encoded again.
  \<^item> \<open>End_To_End\<close>: the three binaries together, from the webhook to the request to the downstream
    service, when nothing fails.  \<open>System\<close>, on \<open>Provenance\<close>: a step relation of any number of pods on
    one database, topic and downstream service; whatever fails, nothing is delivered that did not
    come in with a verified webhook.

  Loops and bounds.  The loop of the publisher is \<open>while_option\<close>, so not ending is the value None,
  and \<open>publisher_stops\<close> proves that it ends.  The loop of the worker runs over the list of its
  polls, up to the one that finds the context done; \<open>recordsSafeToCommit\<close> and the scanner of JSON
  are structural recursions, the other functions on texts have termination proofs.  No
  definition uses fuel.

  Parameters (third-party code or services): \<open>stripe.ConstructEvent\<close>, franz-go (\<open>kgo.NewClient\<close>, a
  poll's records, what produce and commit answer), godotenv, what \<open>sql.Open\<close> answers, the cast of
  Postgres from text to \<open>JSONB\<close>, the answers of the downstream service (a \<open>Location\<close>
  header as the URL it resolves to), the redirects of the mux,
  the address check of a bracketed host, the rounding of the fraction of a duration.

  Not modelled.  internal/dbg (empty in release builds); the effect of the index; the
  text of errors of encoding/json, url and time (the code only logs them); timeouts and
  cancellation of contexts other than as failing calls; TCP and the wire format of HTTP;
  interleavings of the goroutines of one process within a request, other than at its database
  calls.
\<close>

end
